(* ===== verification/Prelude.thy ===== *)
theory Prelude
  imports Main "HOL-Library.Word" "HOL-Library.Multiset"
begin

text \<open>
  Shared ground of the development: the names of the machine types the Go code uses, the
  result of a Go call (a value, an error or a panic), and the generic facts on lists and
  maps that several components need.

  Go's \<open>string\<close> and \<open>[]byte\<close> are sequences of bytes: a string is an Isabelle \<open>string\<close>
  (a list of 8-bit characters), a byte slice is a list of \<open>8 word\<close>.  A Go map is an Isabelle
  map.  A pointer that may be nil is an option.
\<close>

section \<open>Machine types\<close>

type_synonym uint8 = "8 word"
type_synonym uint64 = "64 word"
type_synonym int64 = "64 word" \<comment> \<open>read with \<open>sint\<close>\<close>
type_synonym bytes = "8 word list"

named_theorems go_defs \<open>definitions that the component proofs unfold\<close>
named_theorems outcome_simps \<open>rewrite rules for results and their sequencing\<close>

lemma unat_less_64: "unat (n :: 64 word) < 2 ^ 64"
proof -
  have "unat n < 2 ^ LENGTH(64)" by (rule unsigned_less)
  then show ?thesis by simp
qed

section \<open>Results of Go calls\<close>

text \<open>
  The error values.  Every \<open>fmt.Errorf\<close> of the modelled code has a constructor;
  \<open>Wrapped m e\<close> is \<open>fmt.Errorf("m: %v", e)\<close>, and \<open>External m\<close> is an error made by code
  outside the repository (a database, the beacon node, a cryptographic library).
\<close>

datatype go_error =
    External string
  | Wrapped string go_error
  | NodeExists string
  | NodeMissing string
  | DutyNotFound string
  | UnblockNotFound string
  | NotADependency string string
  | ContextNotFound string
  | ValidatorNotFound uint64
  | BadObject
  | BadArgs
  | RootRepeated uint64
  | SlotTooLow
  | SourceTooLow
  | TargetTooLow
  | BadNumber string
  | RecordNotFound

text \<open>
  What a Go call returns: \<open>Ok v\<close> is \<open>(v, nil)\<close>, \<open>Err e\<close> is \<open>(nil, e)\<close>, and
  \<open>Panic m\<close> is a run-time panic (nil dereference, division by zero, index out of range or an
  explicit \<open>panic\<close>).
\<close>

datatype 'a outcome = Ok 'a | Err go_error | Panic string

fun obind :: "'a outcome \<Rightarrow> ('a \<Rightarrow> 'b outcome) \<Rightarrow> 'b outcome" where
  "obind (Ok v) f = f v"
| "obind (Err e) f = Err e"
| "obind (Panic m) f = Panic m"

fun is_Ok :: "'a outcome \<Rightarrow> bool" where
  "is_Ok (Ok _) = True"
| "is_Ok _ = False"

fun wrap_err :: "string \<Rightarrow> 'a outcome \<Rightarrow> 'a outcome" where
  "wrap_err m (Err e) = Err (Wrapped m e)"
| "wrap_err m r = r"

text \<open>\<open>deref\<close> reads through a pointer; a nil pointer panics.\<close>

fun deref :: "'a option \<Rightarrow> 'a outcome" where
  "deref (Some v) = Ok v"
| "deref None = Panic ''nil dereference''"

lemma obind_Ok_iff [outcome_simps]:
  "obind r f = Ok v \<longleftrightarrow> (\<exists>u. r = Ok u \<and> f u = Ok v)"
  by (cases r) auto

lemma obind_Err_iff [outcome_simps]:
  "obind r f = Err e \<longleftrightarrow> r = Err e \<or> (\<exists>u. r = Ok u \<and> f u = Err e)"
  by (cases r) auto

lemma obind_Panic_iff [outcome_simps]:
  "obind r f = Panic m \<longleftrightarrow> r = Panic m \<or> (\<exists>u. r = Ok u \<and> f u = Panic m)"
  by (cases r) auto

lemma wrap_err_Ok_iff [outcome_simps]: "wrap_err m r = Ok v \<longleftrightarrow> r = Ok v"
  by (cases r) auto

lemma deref_Ok_iff [outcome_simps]: "deref p = Ok v \<longleftrightarrow> p = Some v"
  by (cases p) auto

lemma is_Ok_iff [outcome_simps]: "is_Ok r \<longleftrightarrow> (\<exists>v. r = Ok v)"
  by (cases r) auto

text \<open>A loop whose body may return an error, and a map with such a body.\<close>

fun ofold :: "('a \<Rightarrow> 's \<Rightarrow> 's outcome) \<Rightarrow> 'a list \<Rightarrow> 's \<Rightarrow> 's outcome" where
  "ofold f [] s = Ok s"
| "ofold f (x # xs) s = obind (f x s) (ofold f xs)"

fun omap :: "('a \<Rightarrow> 'b outcome) \<Rightarrow> 'a list \<Rightarrow> 'b list outcome" where
  "omap f [] = Ok []"
| "omap f (x # xs) = obind (f x) (\<lambda>y. obind (omap f xs) (\<lambda>ys. Ok (y # ys)))"

lemma ofold_inv:
  assumes "ofold f xs s = Ok s'" "P s"
    and "\<And>x u v. x \<in> set xs \<Longrightarrow> P u \<Longrightarrow> f x u = Ok v \<Longrightarrow> P v"
  shows "P s'"
  using assms
proof (induction xs arbitrary: s)
  case (Cons x xs)
  obtain u where u: "f x s = Ok u" "ofold f xs u = Ok s'"
    using Cons.prems(1) by (auto simp: outcome_simps)
  have "P u" using Cons.prems(3) [of x s u] Cons.prems(2) u(1) by simp
  then show ?case using Cons.IH [OF u(2)] Cons.prems(3) by (meson list.set_intros(2))
qed simp

text \<open>A loop whose body only appends: what one element added is in the result.\<close>

lemma ofold_appends:
  assumes "ofold f xs s = Ok s'"
    and "\<And>x u v. x \<in> set xs \<Longrightarrow> f x u = Ok v \<Longrightarrow> \<exists>new. v = u @ new \<and> Q x new"
  shows "\<exists>news. s' = s @ concat news \<and> list_all2 Q xs news"
  using assms
proof (induction xs arbitrary: s)
  case Nil
  then show ?case by (intro exI [of _ "[]"]) simp
next
  case (Cons x xs)
  obtain u where u: "f x s = Ok u" "ofold f xs u = Ok s'"
    using Cons.prems(1) by (auto simp: outcome_simps)
  obtain new where new: "u = s @ new" "Q x new" using Cons.prems(2) u(1) by fastforce
  obtain news where news: "s' = u @ concat news" "list_all2 Q xs news"
    using Cons.IH [OF u(2)] Cons.prems(2) by auto
  then show ?case using new by (intro exI [of _ "new # news"]) simp
qed

lemma ofold_extends:
  assumes "ofold f xs s = Ok s'" "\<And>y u v. f y u = Ok v \<Longrightarrow> \<exists>ys. v = u @ ys"
  shows "\<exists>ys. s' = s @ ys"
  using ofold_appends [where Q = "\<lambda>_ _. True", OF assms(1)] assms(2) by blast

lemma ofold_member:
  assumes "ofold f xs s = Ok s'" "x \<in> set xs" "\<And>y u v. f y u = Ok v \<Longrightarrow> \<exists>ys. v = u @ ys"
  shows "\<exists>u v ys. f x u = Ok v \<and> s' = v @ ys"
  using assms(1,2)
proof (induction xs arbitrary: s)
  case (Cons y xs)
  obtain u where u: "f y s = Ok u" "ofold f xs u = Ok s'"
    using Cons.prems(1) by (auto simp: outcome_simps)
  show ?case
  proof (cases "x = y")
    case True
    obtain ys where "s' = u @ ys" using ofold_extends [OF u(2)] assms(3) by blast
    then show ?thesis using True u(1) by blast
  next
    case False
    then show ?thesis using Cons.IH [OF u(2)] Cons.prems(2) by simp
  qed
qed simp

text \<open>The same for the images of the elements, when they are known in advance.\<close>

lemma ofold_map:
  assumes "ofold f xs s = Ok s'"
    and "\<And>x u v. x \<in> set xs \<Longrightarrow> f x u = Ok v \<Longrightarrow> map g v = map g u @ w x"
  shows "map g s' = map g s @ concat (map w xs)"
  using assms
proof (induction xs arbitrary: s)
  case (Cons x xs)
  obtain u where u: "f x s = Ok u" "ofold f xs u = Ok s'"
    using Cons.prems(1) by (auto simp: outcome_simps)
  have "map g s' = map g u @ concat (map w xs)"
    using Cons.IH [OF u(2)] Cons.prems(2) by (meson list.set_intros(2))
  then show ?case using Cons.prems(2) [of x s u] u(1) by simp
qed simp

lemma ofold_Ok:
  assumes "P s" "\<And>x u. x \<in> set xs \<Longrightarrow> P u \<Longrightarrow> \<exists>v. f x u = Ok v \<and> P v"
  shows "\<exists>s'. ofold f xs s = Ok s' \<and> P s'"
  using assms
proof (induction xs arbitrary: s)
  case (Cons x xs)
  then obtain v where "f x s = Ok v" "P v" by force
  then show ?case using Cons.IH [of v] Cons.prems(2) by auto
qed simp

lemma omap_Ok_iff: "omap f xs = Ok ys \<longleftrightarrow> list_all2 (\<lambda>x y. f x = Ok y) xs ys"
  by (induction xs arbitrary: ys) (auto simp: outcome_simps list_all2_Cons1)

section \<open>Lists updated by index\<close>

definition swap_at :: "'a list \<Rightarrow> nat \<Rightarrow> nat \<Rightarrow> 'a list" where
  "swap_at xs i j = xs[i := xs ! j, j := xs ! i]"

lemma length_swap_at [simp]: "length (swap_at xs i j) = length xs"
  by (simp add: swap_at_def)

lemma nth_swap_at:
  assumes "i < length xs" "j < length xs" "k < length xs"
  shows "swap_at xs i j ! k = (if k = j then xs ! i else if k = i then xs ! j else xs ! k)"
  using assms by (auto simp: swap_at_def nth_list_update)

lemma mset_swap_at [simp]:
  assumes "i < length xs" "j < length xs"
  shows "mset (swap_at xs i j) = mset xs"
  using assms mset_swap [of j xs i] by (simp add: swap_at_def)

lemma set_swap_at [simp]:
  "i < length xs \<Longrightarrow> j < length xs \<Longrightarrow> set (swap_at xs i j) = set xs"
  by (metis mset_swap_at set_mset_mset)

lemma distinct_swap_at [simp]:
  "i < length xs \<Longrightarrow> j < length xs \<Longrightarrow> distinct (swap_at xs i j) = distinct xs"
  by (metis mset_swap_at mset_eq_imp_distinct_iff)

lemma map_swap_at:
  "i < length xs \<Longrightarrow> j < length xs \<Longrightarrow> map f (swap_at xs i j) = swap_at (map f xs) i j"
  by (simp add: swap_at_def map_update)

section \<open>Maps\<close>

lemma ran_upd_split:
  assumes "m k = Some v"
  shows "ran m = insert v (ran (m(k := None)))"
proof (intro equalityI subsetI)
  fix x assume "x \<in> ran m"
  then obtain j where j: "m j = Some x" by (auto simp: ran_def)
  show "x \<in> insert v (ran (m(k := None)))"
  proof (cases "j = k")
    case False
    with j have "(m(k := None)) j = Some x" by simp
    then have "x \<in> ran (m(k := None))" by (rule ranI)
    then show ?thesis by simp
  qed (use j assms in simp)
qed (use assms in \<open>auto simp: ran_def split: if_splits\<close>)

section \<open>Four disjoint sets\<close>

definition apart :: "'a set \<Rightarrow> 'a set \<Rightarrow> 'a set \<Rightarrow> 'a set \<Rightarrow> bool" where
  "apart A B C D \<longleftrightarrow> A \<inter> B = {} \<and> A \<inter> C = {} \<and> A \<inter> D = {} \<and> B \<inter> C = {} \<and> B \<inter> D = {} \<and> C \<inter> D = {}"

lemma apart_insert:
  assumes "apart A B C D" "x \<notin> A \<union> B \<union> C \<union> D"
  shows "apart (insert x A) B C D" "apart A B C (insert x D)"
  using assms by (auto simp: apart_def)

lemma apart_move:
  assumes "apart A B C D"
  shows "x \<in> A \<Longrightarrow> apart (A - {x}) (insert x B) C D"
    "x \<in> B \<Longrightarrow> apart A (B - {x}) (insert x C) D"
    "x \<in> D \<Longrightarrow> apart (insert x A) B C (D - {x})"
    "apart A B (C - {x}) D"
  using assms by (auto simp: apart_def)

end
