(* ===== verification/GoTime.thy ===== *)
theory GoTime
  imports Prelude "HOL-Library.Signed_Division" "HOL-Library.Product_Lexorder"
begin

text \<open>
  The part of Go's \<open>time\<close> package the code uses.  An instant is the number of nanoseconds
  since the Unix epoch, an \<open>int\<close>; the 64-bit seconds field of \<open>time.Time\<close> (a range of
  292 billion years) is not given a width.  A \<open>Duration\<close> is a signed 64-bit number of
  nanoseconds and keeps its width: products of durations wrap.  The zero \<open>time.Time\<close> is
  January 1 of year 1.  A protobuf \<open>Timestamp\<close> is represented by the instant it denotes
  (\<open>timestamppb.New\<close> and \<open>AsTime\<close> convert between the two), and a nil timestamp reads as
  the Unix epoch.
\<close>

type_synonym gotime = int
type_synonym Duration = "64 word"

definition Nanosecond :: Duration where "Nanosecond = 1"
definition Second :: Duration where "Second = 1000000000"

definition zero_time :: gotime where
  "zero_time = - 62135596800 * 1000000000"

definition IsZero :: "gotime \<Rightarrow> bool" where
  "IsZero t \<longleftrightarrow> t = zero_time"

definition Unix :: "int64 \<Rightarrow> gotime" where
  "Unix sec = sint sec * 1000000000"

definition time_Add :: "gotime \<Rightarrow> Duration \<Rightarrow> gotime" where
  "time_Add t d = t + sint d"

definition Before :: "gotime \<Rightarrow> gotime \<Rightarrow> bool" where
  "Before t u \<longleftrightarrow> t < u"

definition After :: "gotime \<Rightarrow> gotime \<Rightarrow> bool" where
  "After t u \<longleftrightarrow> u < t"

text \<open>\<open>t.Sub(u)\<close> saturates at the ends of the Duration range.\<close>

definition time_Sub :: "gotime \<Rightarrow> gotime \<Rightarrow> Duration" where
  "time_Sub t u = word_of_int (max (- (2 ^ 63)) (min (2 ^ 63 - 1) (t - u)))"

text \<open>Integer division of Go truncates towards zero; division by zero is a panic, written at
  each use.\<close>

definition dur_div :: "Duration \<Rightarrow> Duration \<Rightarrow> Duration" where
  "dur_div a b = word_of_int (sint a sdiv sint b)"

definition AsTime :: "gotime option \<Rightarrow> gotime" where
  "AsTime ts = (case ts of None \<Rightarrow> 0 | Some t \<Rightarrow> t)"

lemma AsTime_simps [simp]: "AsTime (Some t) = t" "AsTime None = 0"
  by (simp_all add: AsTime_def)

lemma time_Add_less_iff [simp]: "time_Add t d < time_Add t e \<longleftrightarrow> sint d < sint e"
  by (simp add: time_Add_def)

text \<open>The sort key of a waiting time: the zero time sorts after every other.\<close>

definition wait_rank :: "gotime \<Rightarrow> bool \<times> int" where
  "wait_rank t = (IsZero t, t)"

lemma wait_rank_less_iff:
  "wait_rank t < wait_rank u \<longleftrightarrow>
   (if IsZero t then False else if IsZero u then True else Before t u)"
  by (auto simp: wait_rank_def IsZero_def Before_def)

lemma wait_rank_le_nonzero:
  "wait_rank t \<le> wait_rank u \<Longrightarrow> \<not> IsZero u \<Longrightarrow> t \<le> u \<and> \<not> IsZero t"
  by (auto simp: wait_rank_def less_eq_prod_def split: if_splits)

end
