(* ===== verification/GoStrings.thy ===== *)
theory GoStrings
  imports Prelude "HOL-Library.Char_ord"
begin

text \<open>
  The string functions of Go's standard library that the code uses: \<open>encoding/hex\<close>,
  \<open>strconv.ParseUint\<close> and the verbs \<open>%d\<close> and \<open>%x\<close> of \<open>fmt\<close>, and the fixed-width byte orders of
  \<open>encoding/binary\<close>.
\<close>

section \<open>Hexadecimal\<close>

definition hex_digit :: "nat \<Rightarrow> char" where
  "hex_digit n = ''0123456789abcdef'' ! n"

definition hex_val :: "char \<Rightarrow> nat option" where
  "hex_val c =
     (if CHR ''0'' \<le> c \<and> c \<le> CHR ''9'' then Some (of_char c - of_char CHR ''0'')
      else if CHR ''a'' \<le> c \<and> c \<le> CHR ''f'' then Some (of_char c - of_char CHR ''a'' + 10)
      else if CHR ''A'' \<le> c \<and> c \<le> CHR ''F'' then Some (of_char c - of_char CHR ''A'' + 10)
      else None)"

definition hex_byte :: "uint8 \<Rightarrow> string" where
  "hex_byte b = [hex_digit (unat b div 16), hex_digit (unat b mod 16)]"

definition EncodeToString :: "bytes \<Rightarrow> string" where
  "EncodeToString bs = concat (map hex_byte bs)"

fun DecodeString :: "string \<Rightarrow> bytes outcome" where
  "DecodeString [] = Ok []"
| "DecodeString [c] = (if hex_val c = None then Err BadObject else Err (External ''odd length hex string''))"
| "DecodeString (c # d # s) =
     (case (hex_val c, hex_val d) of
        (Some x, Some y) \<Rightarrow> obind (DecodeString s) (\<lambda>bs. Ok (of_nat (16 * x + y) # bs))
      | _ \<Rightarrow> Err BadObject)"

lemma hex_val_digit: "n < 16 \<Longrightarrow> hex_val (hex_digit n) = Some n"
proof -
  have "\<forall>n \<in> {0..<16}. hex_val (hex_digit n) = Some n"
    by code_simp
  then show "n < 16 \<Longrightarrow> hex_val (hex_digit n) = Some n" by simp
qed

lemma hex_decode_encode: "DecodeString (EncodeToString bs) = Ok bs"
proof (induction bs)
  case (Cons b bs)
  have "unat b div 16 < 16"
  proof -
    have "unat b < 2 ^ LENGTH(8)" by (rule unsigned_less)
    then show ?thesis by simp
  qed
  moreover have "16 * (unat b div 16) + unat b mod 16 = unat b"
    by simp
  ultimately show ?case
    using Cons by (simp add: EncodeToString_def hex_byte_def hex_val_digit)
qed (simp add: EncodeToString_def)

lemma length_EncodeToString: "length (EncodeToString bs) = 2 * length bs"
  by (induction bs) (auto simp: EncodeToString_def hex_byte_def)

lemma EncodeToString_inj: "EncodeToString bs = EncodeToString cs \<Longrightarrow> bs = cs"
  by (metis hex_decode_encode outcome.inject(1))

lemma EncodeToString_append: "EncodeToString (bs @ cs) = EncodeToString bs @ EncodeToString cs"
  by (simp add: EncodeToString_def)

section \<open>Decimal\<close>

definition digit_char :: "nat \<Rightarrow> char" where
  "digit_char n = ''0123456789'' ! n"

function dec_digits :: "nat \<Rightarrow> string" where
  "dec_digits n = (if n < 10 then [digit_char n] else dec_digits (n div 10) @ [digit_char (n mod 10)])"
  by pat_completeness auto
termination
  by (relation "measure id") auto

declare dec_digits.simps [simp del]

text \<open>\<open>fmt.Sprintf("%d", u)\<close> of an unsigned number.\<close>

definition format_uint :: "uint64 \<Rightarrow> string" where
  "format_uint u = dec_digits (unat u)"

definition digit_val :: "char \<Rightarrow> nat option" where
  "digit_val c = (if CHR ''0'' \<le> c \<and> c \<le> CHR ''9'' then Some (of_char c - of_char CHR ''0'') else None)"

fun parse_digits :: "nat \<Rightarrow> string \<Rightarrow> nat option" where
  "parse_digits acc [] = Some acc"
| "parse_digits acc (c # s) =
     (case digit_val c of None \<Rightarrow> None | Some d \<Rightarrow> parse_digits (10 * acc + d) s)"

text \<open>\<open>strconv.ParseUint(s, 10, bits)\<close>: a non-empty string of decimal digits whose value fits.\<close>

definition ParseUint :: "nat \<Rightarrow> string \<Rightarrow> uint64 outcome" where
  "ParseUint bits s =
     (if s = [] then Err (BadNumber s)
      else case parse_digits 0 s of
             None \<Rightarrow> Err (BadNumber s)
           | Some n \<Rightarrow> if n < 2 ^ bits then Ok (of_nat n) else Err (BadNumber s))"

lemma digit_val_char: "n < 10 \<Longrightarrow> digit_val (digit_char n) = Some n"
proof -
  have "\<forall>n \<in> {0..<10}. digit_val (digit_char n) = Some n"
    by code_simp
  then show "n < 10 \<Longrightarrow> digit_val (digit_char n) = Some n" by simp
qed

lemma parse_digits_append:
  "parse_digits acc (s @ t) = (case parse_digits acc s of None \<Rightarrow> None | Some n \<Rightarrow> parse_digits n t)"
  by (induction acc s rule: parse_digits.induct) (auto split: option.split)

lemma parse_dec_digits: "parse_digits 0 (dec_digits n) = Some n"
proof (induction n rule: dec_digits.induct)
  case (1 n)
  then show ?case
    by (subst dec_digits.simps) (simp add: digit_val_char parse_digits_append)
qed

lemma dec_digits_nonempty: "dec_digits n \<noteq> []"
  by (subst dec_digits.simps) simp

lemma dec_digits_inj: "dec_digits m = dec_digits n \<Longrightarrow> m = n"
  by (metis parse_dec_digits option.inject)

lemma ParseUint_format:
  assumes "unat u < 2 ^ bits"
  shows "ParseUint bits (format_uint u) = Ok u"
  using assms by (simp add: ParseUint_def format_uint_def parse_dec_digits dec_digits_nonempty)

section \<open>Byte orders\<close>

text \<open>\<open>binary.LittleEndian.PutUint64\<close>, \<open>binary.LittleEndian.Uint64\<close> and \<open>binary.BigEndian.PutUint64\<close>.\<close>

definition le64 :: "uint64 \<Rightarrow> bytes" where
  "le64 u = map (\<lambda>k. ucast (drop_bit (8 * k) u)) [0..<8]"

definition be64 :: "uint64 \<Rightarrow> bytes" where
  "be64 u = rev (le64 u)"

definition of_le64 :: "bytes \<Rightarrow> uint64" where
  "of_le64 bs = foldr (\<lambda>b acc. ucast b + 256 * acc) (take 8 bs) 0"

lemma length_le64 [simp]: "length (le64 u) = 8" and length_be64 [simp]: "length (be64 u) = 8"
  by (simp_all add: le64_def be64_def)

end
