(* ===== verification/Proto.thy ===== *)
theory Proto
  imports GoTime GoStrings
begin

text \<open>
  The messages of \<open>internal/server/proto\<close>: the Go structs that protoc generates from
  \<open>structs.proto\<close> (\<open>structs.pb.go\<close>) with their getters, and the methods of \<open>types.go\<close>.

  A message is a record; a pointer field is an option, and so is the receiver of a getter,
  because the generated getters answer the zero value on a nil receiver.  The oneof \<open>job\<close> is
  the datatype \<open>isDuty_Job\<close> with one constructor per wrapper struct (\<open>Duty_Attestation_\<close> is \<open>Job_Attestation\<close>), each
  wrapping a pointer.
  The bookkeeping fields of the protobuf run time (\<open>state\<close>, \<open>sizeCache\<close>, \<open>unknownFields\<close>)
  and the reflection methods are left out.
\<close>

section \<open>Enumerations\<close>

datatype Duty_Fork = Duty_Phase0 | Duty_Altair | Duty_Bellatrix

datatype Duty_State = Duty_UNKNOWN | Duty_PENDING | Duty_COMPLETE | Duty_FAILED | Duty_CANCELED

fun Duty_Fork_number :: "Duty_Fork \<Rightarrow> int" where
  "Duty_Fork_number Duty_Phase0 = 0"
| "Duty_Fork_number Duty_Altair = 1"
| "Duty_Fork_number Duty_Bellatrix = 2"

definition Duty_Fork_name :: "int \<rightharpoonup> string" where
  "Duty_Fork_name = [0 \<mapsto> ''Phase0'', 1 \<mapsto> ''Altair'', 2 \<mapsto> ''Bellatrix'']"

definition Duty_Fork_value :: "string \<rightharpoonup> int" where
  "Duty_Fork_value = [''Phase0'' \<mapsto> 0, ''Altair'' \<mapsto> 1, ''Bellatrix'' \<mapsto> 2]"

fun Duty_State_number :: "Duty_State \<Rightarrow> int" where
  "Duty_State_number Duty_UNKNOWN = 0"
| "Duty_State_number Duty_PENDING = 1"
| "Duty_State_number Duty_COMPLETE = 2"
| "Duty_State_number Duty_FAILED = 3"
| "Duty_State_number Duty_CANCELED = 4"

definition Duty_State_name :: "int \<rightharpoonup> string" where
  "Duty_State_name = [0 \<mapsto> ''UNKNOWN'', 1 \<mapsto> ''PENDING'', 2 \<mapsto> ''COMPLETE'', 3 \<mapsto> ''FAILED'', 4 \<mapsto> ''CANCELED'']"

definition Duty_State_value :: "string \<rightharpoonup> int" where
  "Duty_State_value = [''UNKNOWN'' \<mapsto> 0, ''PENDING'' \<mapsto> 1, ''COMPLETE'' \<mapsto> 2, ''FAILED'' \<mapsto> 3, ''CANCELED'' \<mapsto> 4]"

text \<open>\<open>String()\<close> of an enumeration is the name of its number.\<close>

definition Duty_State_String :: "Duty_State \<Rightarrow> string" where
  "Duty_State_String s = (case Duty_State_name (Duty_State_number s) of Some n \<Rightarrow> n | None \<Rightarrow> [])"

section \<open>Messages\<close>

datatype Duty_BlockProposal = Duty_BlockProposal
datatype Duty_SyncCommittee = Duty_SyncCommittee
datatype Duty_AttestationAggregateResult = Duty_AttestationAggregateResult
datatype Duty_SyncCommitteeResult = Duty_SyncCommitteeResult
datatype Duty_SyncCommitteeAggregateResult = Duty_SyncCommitteeAggregateResult
datatype ValidatorListRequest = ValidatorListRequest

record Duty_Attestation =
  att_CommitteeIndex :: uint64
  att_CommitteeLength :: uint64
  att_CommitteesAtSlot :: uint64

record Duty_AttestationAggregate =
  agg_SelectionProof :: bytes

record Duty_SyncCommitteeAggregate =
  sca_SelectionProof :: bytes
  sca_SubCommitteeIndex :: uint64

record Duty_BlockProposalResult =
  bpr_Root :: bytes
  bpr_Signature :: bytes

record Checkpoint =
  cp_Root :: bytes
  cp_Epoch :: uint64

record Duty_AttestationResult =
  ar_Root :: bytes
  ar_Source :: "Checkpoint option"
  ar_Target :: "Checkpoint option"

record Duty_Result =
  res_BlockProposal :: "Duty_BlockProposalResult option"
  res_Attestation :: "Duty_AttestationResult option"
  res_AttestationAggregate :: "Duty_AttestationAggregateResult option"
  res_SyncCommittee :: "Duty_SyncCommitteeResult option"
  res_SyncCommitteeAggregate :: "Duty_SyncCommitteeAggregateResult option"

definition empty_Result :: Duty_Result where
  "empty_Result = \<lparr>res_BlockProposal = None, res_Attestation = None, res_AttestationAggregate = None,
     res_SyncCommittee = None, res_SyncCommitteeAggregate = None\<rparr>"

datatype isDuty_Job =
    Job_BlockProposal "Duty_BlockProposal option"
  | Job_Attestation "Duty_Attestation option"
  | Job_AttestationAggregate "Duty_AttestationAggregate option"
  | Job_SyncCommittee "Duty_SyncCommittee option"
  | Job_SyncCommitteeAggregate "Duty_SyncCommitteeAggregate option"

record Duty =
  d_Id :: string
  d_PubKey :: string
  d_Slot :: uint64
  d_ActiveTime :: "gotime option"
  d_BlockedBy :: "string list"
  d_Epoch :: uint64
  d_ValidatorIndex :: uint64
  d_Job :: "isDuty_Job option"
  d_Result :: "Duty_Result option"
  d_State :: Duty_State
  d_Fork :: Duty_Fork

record Validator_Metadata =
  vm_Index :: uint64
  vm_ActivationEpoch :: uint64

record Validator =
  v_PubKey :: string
  v_PrivKey :: string
  v_Metadata :: "Validator_Metadata option"

record Genesis =
  g_Root :: bytes

record ListDutiesRequest =
  ldr_ValidatorId :: int64

record ListDutiesResponse =
  ldr_Duties :: "Duty list"

record ValidatorListResponse =
  vlr_Validators :: "Validator list"

section \<open>Getters\<close>

definition Genesis_GetRoot :: "Genesis option \<Rightarrow> bytes" where
  "Genesis_GetRoot x = (case x of Some m \<Rightarrow> g_Root m | None \<Rightarrow> [])"

definition ValidatorListResponse_GetValidators :: "ValidatorListResponse option \<Rightarrow> Validator list" where
  "ValidatorListResponse_GetValidators x = (case x of Some m \<Rightarrow> vlr_Validators m | None \<Rightarrow> [])"

definition ListDutiesRequest_GetValidatorId :: "ListDutiesRequest option \<Rightarrow> int64" where
  "ListDutiesRequest_GetValidatorId x = (case x of Some m \<Rightarrow> ldr_ValidatorId m | None \<Rightarrow> 0)"

definition ListDutiesResponse_GetDuties :: "ListDutiesResponse option \<Rightarrow> Duty list" where
  "ListDutiesResponse_GetDuties x = (case x of Some m \<Rightarrow> ldr_Duties m | None \<Rightarrow> [])"

definition Duty_GetId :: "Duty option \<Rightarrow> string" where
  "Duty_GetId x = (case x of Some m \<Rightarrow> d_Id m | None \<Rightarrow> [])"

definition Duty_GetPubKey :: "Duty option \<Rightarrow> string" where
  "Duty_GetPubKey x = (case x of Some m \<Rightarrow> d_PubKey m | None \<Rightarrow> [])"

definition Duty_GetSlot :: "Duty option \<Rightarrow> uint64" where
  "Duty_GetSlot x = (case x of Some m \<Rightarrow> d_Slot m | None \<Rightarrow> 0)"

definition Duty_GetActiveTime :: "Duty option \<Rightarrow> gotime option" where
  "Duty_GetActiveTime x = (case x of Some m \<Rightarrow> d_ActiveTime m | None \<Rightarrow> None)"

definition Duty_GetBlockedBy :: "Duty option \<Rightarrow> string list" where
  "Duty_GetBlockedBy x = (case x of Some m \<Rightarrow> d_BlockedBy m | None \<Rightarrow> [])"

definition Duty_GetEpoch :: "Duty option \<Rightarrow> uint64" where
  "Duty_GetEpoch x = (case x of Some m \<Rightarrow> d_Epoch m | None \<Rightarrow> 0)"

definition Duty_GetValidatorIndex :: "Duty option \<Rightarrow> uint64" where
  "Duty_GetValidatorIndex x = (case x of Some m \<Rightarrow> d_ValidatorIndex m | None \<Rightarrow> 0)"

definition Duty_GetJob :: "Duty option \<Rightarrow> isDuty_Job option" where
  "Duty_GetJob x = (case x of Some m \<Rightarrow> d_Job m | None \<Rightarrow> None)"

definition Duty_GetResult :: "Duty option \<Rightarrow> Duty_Result option" where
  "Duty_GetResult x = (case x of Some m \<Rightarrow> d_Result m | None \<Rightarrow> None)"

definition Duty_GetState :: "Duty option \<Rightarrow> Duty_State" where
  "Duty_GetState x = (case x of Some m \<Rightarrow> d_State m | None \<Rightarrow> Duty_UNKNOWN)"

definition Duty_GetFork :: "Duty option \<Rightarrow> Duty_Fork" where
  "Duty_GetFork x = (case x of Some m \<Rightarrow> d_Fork m | None \<Rightarrow> Duty_Phase0)"

definition Validator_GetPubKey :: "Validator option \<Rightarrow> string" where
  "Validator_GetPubKey x = (case x of Some m \<Rightarrow> v_PubKey m | None \<Rightarrow> [])"

definition Validator_GetPrivKey :: "Validator option \<Rightarrow> string" where
  "Validator_GetPrivKey x = (case x of Some m \<Rightarrow> v_PrivKey m | None \<Rightarrow> [])"

definition Validator_GetMetadata :: "Validator option \<Rightarrow> Validator_Metadata option" where
  "Validator_GetMetadata x = (case x of Some m \<Rightarrow> v_Metadata m | None \<Rightarrow> None)"

definition Duty_Result_GetBlockProposal :: "Duty_Result option \<Rightarrow> Duty_BlockProposalResult option" where
  "Duty_Result_GetBlockProposal x = (case x of Some m \<Rightarrow> res_BlockProposal m | None \<Rightarrow> None)"

definition Duty_Result_GetAttestation :: "Duty_Result option \<Rightarrow> Duty_AttestationResult option" where
  "Duty_Result_GetAttestation x = (case x of Some m \<Rightarrow> res_Attestation m | None \<Rightarrow> None)"

definition Duty_Result_GetAttestationAggregate :: "Duty_Result option \<Rightarrow> Duty_AttestationAggregateResult option" where
  "Duty_Result_GetAttestationAggregate x = (case x of Some m \<Rightarrow> res_AttestationAggregate m | None \<Rightarrow> None)"

definition Duty_Result_GetSyncCommittee :: "Duty_Result option \<Rightarrow> Duty_SyncCommitteeResult option" where
  "Duty_Result_GetSyncCommittee x = (case x of Some m \<Rightarrow> res_SyncCommittee m | None \<Rightarrow> None)"

definition Duty_Result_GetSyncCommitteeAggregate :: "Duty_Result option \<Rightarrow> Duty_SyncCommitteeAggregateResult option" where
  "Duty_Result_GetSyncCommitteeAggregate x = (case x of Some m \<Rightarrow> res_SyncCommitteeAggregate m | None \<Rightarrow> None)"

definition Duty_BlockProposalResult_GetRoot :: "Duty_BlockProposalResult option \<Rightarrow> bytes" where
  "Duty_BlockProposalResult_GetRoot x = (case x of Some m \<Rightarrow> bpr_Root m | None \<Rightarrow> [])"

definition Duty_BlockProposalResult_GetSignature :: "Duty_BlockProposalResult option \<Rightarrow> bytes" where
  "Duty_BlockProposalResult_GetSignature x = (case x of Some m \<Rightarrow> bpr_Signature m | None \<Rightarrow> [])"

definition Duty_Attestation_GetCommitteeIndex :: "Duty_Attestation option \<Rightarrow> uint64" where
  "Duty_Attestation_GetCommitteeIndex x = (case x of Some m \<Rightarrow> att_CommitteeIndex m | None \<Rightarrow> 0)"

definition Duty_Attestation_GetCommitteeLength :: "Duty_Attestation option \<Rightarrow> uint64" where
  "Duty_Attestation_GetCommitteeLength x = (case x of Some m \<Rightarrow> att_CommitteeLength m | None \<Rightarrow> 0)"

definition Duty_Attestation_GetCommitteesAtSlot :: "Duty_Attestation option \<Rightarrow> uint64" where
  "Duty_Attestation_GetCommitteesAtSlot x = (case x of Some m \<Rightarrow> att_CommitteesAtSlot m | None \<Rightarrow> 0)"

definition Duty_AttestationResult_GetRoot :: "Duty_AttestationResult option \<Rightarrow> bytes" where
  "Duty_AttestationResult_GetRoot x = (case x of Some m \<Rightarrow> ar_Root m | None \<Rightarrow> [])"

definition Duty_AttestationResult_GetSource :: "Duty_AttestationResult option \<Rightarrow> Checkpoint option" where
  "Duty_AttestationResult_GetSource x = (case x of Some m \<Rightarrow> ar_Source m | None \<Rightarrow> None)"

definition Duty_AttestationResult_GetTarget :: "Duty_AttestationResult option \<Rightarrow> Checkpoint option" where
  "Duty_AttestationResult_GetTarget x = (case x of Some m \<Rightarrow> ar_Target m | None \<Rightarrow> None)"

definition Duty_AttestationAggregate_GetSelectionProof :: "Duty_AttestationAggregate option \<Rightarrow> bytes" where
  "Duty_AttestationAggregate_GetSelectionProof x = (case x of Some m \<Rightarrow> agg_SelectionProof m | None \<Rightarrow> [])"

definition Duty_SyncCommitteeAggregate_GetSelectionProof :: "Duty_SyncCommitteeAggregate option \<Rightarrow> bytes" where
  "Duty_SyncCommitteeAggregate_GetSelectionProof x = (case x of Some m \<Rightarrow> sca_SelectionProof m | None \<Rightarrow> [])"

definition Duty_SyncCommitteeAggregate_GetSubCommitteeIndex :: "Duty_SyncCommitteeAggregate option \<Rightarrow> uint64" where
  "Duty_SyncCommitteeAggregate_GetSubCommitteeIndex x = (case x of Some m \<Rightarrow> sca_SubCommitteeIndex m | None \<Rightarrow> 0)"

definition Duty_AttestationResult_Checkpoint_GetRoot :: "Checkpoint option \<Rightarrow> bytes" where
  "Duty_AttestationResult_Checkpoint_GetRoot x = (case x of Some m \<Rightarrow> cp_Root m | None \<Rightarrow> [])"

definition Duty_AttestationResult_Checkpoint_GetEpoch :: "Checkpoint option \<Rightarrow> uint64" where
  "Duty_AttestationResult_Checkpoint_GetEpoch x = (case x of Some m \<Rightarrow> cp_Epoch m | None \<Rightarrow> 0)"

definition Validator_Metadata_GetIndex :: "Validator_Metadata option \<Rightarrow> uint64" where
  "Validator_Metadata_GetIndex x = (case x of Some m \<Rightarrow> vm_Index m | None \<Rightarrow> 0)"

definition Validator_Metadata_GetActivationEpoch :: "Validator_Metadata option \<Rightarrow> uint64" where
  "Validator_Metadata_GetActivationEpoch x = (case x of Some m \<Rightarrow> vm_ActivationEpoch m | None \<Rightarrow> 0)"

definition Duty_GetBlockProposal :: "Duty option \<Rightarrow> Duty_BlockProposal option" where
  "Duty_GetBlockProposal x = (case Duty_GetJob x of Some (Job_BlockProposal p) \<Rightarrow> p | _ \<Rightarrow> None)"

definition Duty_GetAttestation :: "Duty option \<Rightarrow> Duty_Attestation option" where
  "Duty_GetAttestation x = (case Duty_GetJob x of Some (Job_Attestation p) \<Rightarrow> p | _ \<Rightarrow> None)"

definition Duty_GetAttestationAggregate :: "Duty option \<Rightarrow> Duty_AttestationAggregate option" where
  "Duty_GetAttestationAggregate x = (case Duty_GetJob x of Some (Job_AttestationAggregate p) \<Rightarrow> p | _ \<Rightarrow> None)"

definition Duty_GetSyncCommittee :: "Duty option \<Rightarrow> Duty_SyncCommittee option" where
  "Duty_GetSyncCommittee x = (case Duty_GetJob x of Some (Job_SyncCommittee p) \<Rightarrow> p | _ \<Rightarrow> None)"

definition Duty_GetSyncCommitteeAggregate :: "Duty option \<Rightarrow> Duty_SyncCommitteeAggregate option" where
  "Duty_GetSyncCommitteeAggregate x = (case Duty_GetJob x of Some (Job_SyncCommitteeAggregate p) \<Rightarrow> p | _ \<Rightarrow> None)"

lemmas getter_defs [go_defs] =
  Duty_GetJob_def Duty_GetBlockProposal_def Duty_GetAttestation_def Duty_GetAttestationAggregate_def
  Duty_GetSyncCommittee_def Duty_GetSyncCommitteeAggregate_def Duty_SyncCommitteeAggregate_GetSubCommitteeIndex_def

section \<open>Duty types\<close>

type_synonym DutyType = string

definition DutyBlockProposal :: DutyType where "DutyBlockProposal = ''block-proposal''"
definition DutyAttestation :: DutyType where "DutyAttestation = ''attestation''"
definition DutyAttestationAggregate :: DutyType where "DutyAttestationAggregate = ''attesation-aggregate''"
definition DutySyncCommittee :: DutyType where "DutySyncCommittee = ''sync-committee''"
definition DutySyncCommitteeAggregate :: DutyType where "DutySyncCommitteeAggregate = ''sync-committee-aggregate''"

lemmas duty_type_defs [go_defs] =
  DutyBlockProposal_def DutyAttestation_def DutyAttestationAggregate_def DutySyncCommittee_def
  DutySyncCommitteeAggregate_def

definition Duty_Type :: "Duty \<Rightarrow> DutyType outcome" where
  "Duty_Type d =
     (case d_Job d of
        Some (Job_BlockProposal _) \<Rightarrow> Ok DutyBlockProposal
      | Some (Job_Attestation _) \<Rightarrow> Ok DutyAttestation
      | Some (Job_AttestationAggregate _) \<Rightarrow> Ok DutyAttestationAggregate
      | Some (Job_SyncCommittee _) \<Rightarrow> Ok DutySyncCommittee
      | Some (Job_SyncCommitteeAggregate _) \<Rightarrow> Ok DutySyncCommitteeAggregate
      | None \<Rightarrow> Panic ''BUG'')"

section \<open>Signature domains\<close>

type_synonym DomainType = string

definition DomainBeaconProposerType :: DomainType where "DomainBeaconProposerType = ''beacon-proposer''"
definition DomainRandaomType :: DomainType where "DomainRandaomType = ''randao''"
definition DomainBeaconAttesterType :: DomainType where "DomainBeaconAttesterType = ''beacon-attester''"
definition DomainDepositType :: DomainType where "DomainDepositType = ''deposit''"
definition DomainVoluntaryExitType :: DomainType where "DomainVoluntaryExitType = ''voluntary-exit''"
definition DomainSelectionProofType :: DomainType where "DomainSelectionProofType = ''selection-proof''"
definition DomainAggregateAndProofType :: DomainType where "DomainAggregateAndProofType = ''aggregate-and-proof''"
definition DomainSyncCommitteeType :: DomainType where "DomainSyncCommitteeType = ''sync-committee''"
definition DomainSyncCommitteeSelectionProof :: DomainType where
  "DomainSyncCommitteeSelectionProof = ''sync-committee-selection-proof''"
definition DomainContributionAndProof :: DomainType where "DomainContributionAndProof = ''contribution-and-proof''"

lemmas domain_type_defs [go_defs] =
  DomainBeaconProposerType_def DomainRandaomType_def DomainBeaconAttesterType_def DomainDepositType_def
  DomainVoluntaryExitType_def DomainSelectionProofType_def DomainAggregateAndProofType_def
  DomainSyncCommitteeType_def DomainSyncCommitteeSelectionProof_def DomainContributionAndProof_def

section \<open>Plans\<close>

record Plan =
  p_Duties :: "Duty list"

text \<open>\<open>counts[duty.Type()]++\<close> over the duties of a plan; a duty without a job panics.\<close>

fun type_counts :: "(DutyType \<rightharpoonup> uint64) \<Rightarrow> Duty list \<Rightarrow> (DutyType \<rightharpoonup> uint64) outcome" where
  "type_counts m [] = Ok m"
| "type_counts m (d # ds) =
     obind (Duty_Type d) (\<lambda>t. type_counts (m(t \<mapsto> (case m t of None \<Rightarrow> 0 | Some c \<Rightarrow> c) + 1)) ds)"

fun join_with :: "string \<Rightarrow> string list \<Rightarrow> string" where
  "join_with sep [] = []"
| "join_with sep [x] = x"
| "join_with sep (x # y # xs) = x @ sep @ join_with sep (y # xs)"

text \<open>Go ranges over a map in an unspecified order: \<open>ks\<close> is the order in which the keys come.\<close>

definition Plan_GoPrint :: "DutyType list \<Rightarrow> Plan \<Rightarrow> string outcome" where
  "Plan_GoPrint ks p =
     obind (type_counts Map.empty (p_Duties p)) (\<lambda>counts.
       let grp = map (\<lambda>n. ''('' @ n @ '': '' @ format_uint (case counts n of None \<Rightarrow> 0 | Some c \<Rightarrow> c) @ '')'') ks;
           res = (if length grp = 0 then ''no duties found'' else join_with '', '' grp)
       in Ok (''Duties: '' @ res))"

section \<open>SSZ roots of scalars\<close>

definition Uint64SSZ :: "uint64 \<Rightarrow> bytes" where
  "Uint64SSZ num = le64 num @ replicate 24 0"

definition RootSSZ :: "bytes \<Rightarrow> bytes" where
  "RootSSZ root = root"

section \<open>Keys, copies and builders\<close>

text \<open>The BLS library is outside the repository: \<open>NewKeyFromPriv\<close> is a parameter.\<close>

definition Validator_Key :: "(bytes \<Rightarrow> 'key outcome) \<Rightarrow> Validator \<Rightarrow> 'key outcome" where
  "Validator_Key NewKeyFromPriv v = obind (DecodeString (v_PrivKey v)) NewKeyFromPriv"

definition Duty_Copy :: "Duty \<Rightarrow> Duty" where "Duty_Copy d = d"

definition Validator_Copy :: "Validator \<Rightarrow> Validator" where "Validator_Copy v = v"

definition proto_NewDuty :: Duty where
  "proto_NewDuty = \<lparr>d_Id = [], d_PubKey = [], d_Slot = 0, d_ActiveTime = None, d_BlockedBy = [],
     d_Epoch = 0, d_ValidatorIndex = 0, d_Job = None, d_Result = None, d_State = Duty_UNKNOWN,
     d_Fork = Duty_Phase0\<rparr>"

definition WithEpoch :: "Duty \<Rightarrow> uint64 \<Rightarrow> Duty" where "WithEpoch d epoch = d\<lparr>d_Epoch := epoch\<rparr>"
definition WithID :: "Duty \<Rightarrow> string \<Rightarrow> Duty" where "WithID d i = d\<lparr>d_Id := i\<rparr>"
definition WithValIndex :: "Duty \<Rightarrow> uint64 \<Rightarrow> Duty" where "WithValIndex d indx = d\<lparr>d_ValidatorIndex := indx\<rparr>"

definition WithAttestation :: "Duty \<Rightarrow> Duty_Attestation option \<Rightarrow> Duty" where
  "WithAttestation d job = d\<lparr>d_Job := Some (Job_Attestation job)\<rparr>"

definition WithSyncCommitteeAggregate :: "Duty \<Rightarrow> Duty_SyncCommitteeAggregate option \<Rightarrow> Duty" where
  "WithSyncCommitteeAggregate d job = d\<lparr>d_Job := Some (Job_SyncCommitteeAggregate job)\<rparr>"

lemmas builder_defs [go_defs] =
  proto_NewDuty_def WithEpoch_def WithID_def WithValIndex_def WithAttestation_def WithSyncCommitteeAggregate_def

section \<open>Facts on types and encodings\<close>

lemma Duty_Type_cases:
  "Duty_Type d = Ok t \<Longrightarrow> d_Job d \<noteq> None \<and>
   (t = DutyBlockProposal \<longleftrightarrow> (\<exists>p. d_Job d = Some (Job_BlockProposal p))) \<and>
   (t = DutyAttestation \<longleftrightarrow> (\<exists>p. d_Job d = Some (Job_Attestation p))) \<and>
   (t = DutyAttestationAggregate \<longleftrightarrow> (\<exists>p. d_Job d = Some (Job_AttestationAggregate p))) \<and>
   (t = DutySyncCommittee \<longleftrightarrow> (\<exists>p. d_Job d = Some (Job_SyncCommittee p))) \<and>
   (t = DutySyncCommitteeAggregate \<longleftrightarrow> (\<exists>p. d_Job d = Some (Job_SyncCommitteeAggregate p)))"
  by (auto simp: Duty_Type_def duty_type_defs split: option.splits isDuty_Job.splits)

lemma Duty_Type_Ok_iff: "(\<exists>t. Duty_Type d = Ok t) \<longleftrightarrow> d_Job d \<noteq> None"
  by (auto simp: Duty_Type_def split: option.splits isDuty_Job.splits)

end
