(* ===== verification/StateIndex.thy ===== *)
theory StateIndex
  imports Proto "HOL-Library.List_Lexorder" "HOL-Library.Sublist"
begin

text \<open>
  The indexes of the in-memory database, \<open>internal/server/state/index.go\<close>, and its schema,
  \<open>schema.go\<close>.  An index computes the keys of an object; the database keeps its entries in the
  lexicographic order of the keys.  What is shown: the keys of the slashing indexes determine the
  validator, the slot or epoch and the kind they were made from, and are ordered by them.

  The field indexes of the database library are parameters.
\<close>

section \<open>Objects, arguments and indexes\<close>

datatype raw = DutyObj Duty | ValidatorObj Validator | MetadataObj Validator_Metadata

datatype arg = ArgString string | ArgUint64 uint64 | ArgBool bool | ArgType DutyType

text \<open>
  \<open>memdb.Indexer\<close>: the keys of an object, or none if the object is not in the index, and the key
  of the arguments of a query.  A \<open>SingleIndexer\<close> gives one key.
\<close>

record Indexer =
  ix_FromObject :: "raw \<Rightarrow> (bool \<times> bytes list) outcome"
  ix_FromArgs :: "arg list \<Rightarrow> bytes outcome"
  ix_PrefixFromArgs :: "(arg list \<Rightarrow> bytes outcome) option"

definition bytes_of_string :: "string \<Rightarrow> bytes" where
  "bytes_of_string s = map of_char s"

section \<open>The writer\<close>

record bytesWritter =
  bw_out :: "bytes option"

definition bw_new :: bytesWritter where
  "bw_new = \<lparr>bw_out = None\<rparr>"

definition bw_write :: "bytes \<Rightarrow> bytesWritter \<Rightarrow> bytesWritter" where
  "bw_write buf b = b\<lparr>bw_out := Some ((case bw_out b of None \<Rightarrow> [] | Some out \<Rightarrow> out) @ buf)\<rparr>"

definition bw_uint64 :: "uint64 \<Rightarrow> bytesWritter \<Rightarrow> bytesWritter" where
  "bw_uint64 i b = bw_write (be64 i) b"

definition bw_string :: "string \<Rightarrow> bytesWritter \<Rightarrow> bytesWritter" where
  "bw_string s b = bw_write (bytes_of_string s @ [0]) b"

definition bw_bytes :: "bytesWritter \<Rightarrow> bytes" where
  "bw_bytes b = (case bw_out b of None \<Rightarrow> [] | Some out \<Rightarrow> out)"

lemma bw_simps [simp]:
  "bw_bytes bw_new = []" "bw_bytes (bw_uint64 i b) = bw_bytes b @ be64 i"
  "bw_bytes (bw_string s b) = bw_bytes b @ bytes_of_string s @ [0]"
  by (simp_all add: bw_new_def bw_bytes_def bw_uint64_def bw_string_def bw_write_def)

section \<open>The indexes of the repository\<close>

definition IndexJob_FromObject :: "raw \<Rightarrow> (bool \<times> bytes list) outcome" where
  "IndexJob_FromObject obj =
     (case obj of
        DutyObj elem \<Rightarrow>
          if d_Job elem = None then Err BadObject
          else obind (Duty_Type elem) (\<lambda>typ. Ok (True, [bytes_of_string typ]))
      | _ \<Rightarrow> Err BadObject)"

definition IndexJob_FromArgs :: "arg list \<Rightarrow> bytes outcome" where
  "IndexJob_FromArgs args =
     (case args of
        [ArgType typ] \<Rightarrow> Ok (bytes_of_string typ)
      | [_] \<Rightarrow> Panic ''interface conversion''
      | _ \<Rightarrow> Err BadArgs)"

definition IndexJob :: Indexer where
  "IndexJob = \<lparr>ix_FromObject = IndexJob_FromObject, ix_FromArgs = IndexJob_FromArgs, ix_PrefixFromArgs = None\<rparr>"

definition activeValidator_FromObject :: "Indexer \<Rightarrow> raw \<Rightarrow> (bool \<times> bytes list) outcome" where
  "activeValidator_FromObject sub obj =
     (case obj of
        ValidatorObj val \<Rightarrow>
          (case v_Metadata val of
             None \<Rightarrow> Ok (False, [])
           | Some metadata \<Rightarrow> ix_FromObject sub (MetadataObj metadata))
      | _ \<Rightarrow> Err BadObject)"

definition activeValidator_FromArgs :: "Indexer \<Rightarrow> arg list \<Rightarrow> bytes outcome" where
  "activeValidator_FromArgs sub args =
     (case args of [] \<Rightarrow> Err BadArgs | a # _ \<Rightarrow> ix_FromArgs sub [a])"

definition activeValidatorIndex :: "Indexer \<Rightarrow> Indexer" where
  "activeValidatorIndex sub = \<lparr>ix_FromObject = activeValidator_FromObject sub,
     ix_FromArgs = activeValidator_FromArgs sub, ix_PrefixFromArgs = None\<rparr>"

definition slashingBlock_FromObject :: "raw \<Rightarrow> (bool \<times> bytes list) outcome" where
  "slashingBlock_FromObject obj =
     (case obj of
        DutyObj duty \<Rightarrow>
          obind (Duty_Type duty) (\<lambda>typ.
            if typ \<noteq> DutyBlockProposal then Ok (False, [])
            else if d_Result duty = None then Ok (False, [])
            else Ok (True, [bw_bytes (bw_uint64 (d_Slot duty) (bw_uint64 (d_ValidatorIndex duty) bw_new))]))
      | _ \<Rightarrow> Err BadObject)"

definition slashingBlock_FromArgs :: "arg list \<Rightarrow> bytes outcome" where
  "slashingBlock_FromArgs args =
     (case args of
        [ArgUint64 valId, ArgUint64 slotId] \<Rightarrow> Ok (bw_bytes (bw_uint64 slotId (bw_uint64 valId bw_new)))
      | _ \<Rightarrow> Err BadArgs)"

definition slashingBlock_PrefixFromArgs :: "arg list \<Rightarrow> bytes outcome" where
  "slashingBlock_PrefixFromArgs args =
     (case args of
        [ArgUint64 valId] \<Rightarrow> Ok (bw_bytes (bw_uint64 valId bw_new))
      | _ \<Rightarrow> Err BadArgs)"

definition slashingBlockIndex :: Indexer where
  "slashingBlockIndex = \<lparr>ix_FromObject = slashingBlock_FromObject, ix_FromArgs = slashingBlock_FromArgs,
     ix_PrefixFromArgs = Some slashingBlock_PrefixFromArgs\<rparr>"

definition addCheckpoint :: "Duty \<Rightarrow> string \<Rightarrow> Checkpoint option \<Rightarrow> bytes outcome" where
  "addCheckpoint duty name c =
     obind (deref c) (\<lambda>cp. Ok (bw_bytes (bw_uint64 (cp_Epoch cp) (bw_string name (bw_uint64 (d_ValidatorIndex duty) bw_new)))))"

definition slashingAttest_FromObject :: "raw \<Rightarrow> (bool \<times> bytes list) outcome" where
  "slashingAttest_FromObject obj =
     (case obj of
        DutyObj duty \<Rightarrow>
          obind (Duty_Type duty) (\<lambda>typ.
            if typ \<noteq> DutyAttestation then Ok (False, [])
            else (case d_Result duty of
                    None \<Rightarrow> Ok (False, [])
                  | Some r \<Rightarrow>
                      obind (deref (res_Attestation r)) (\<lambda>a.
                      obind (addCheckpoint duty ''source'' (ar_Source a)) (\<lambda>k1.
                      obind (addCheckpoint duty ''target'' (ar_Target a)) (\<lambda>k2. Ok (True, [k1, k2]))))))
      | _ \<Rightarrow> Err BadObject)"

definition slashingAttest_FromArgs :: "arg list \<Rightarrow> bytes outcome" where
  "slashingAttest_FromArgs args = Panic ''TODO''"

definition slashingAttest_PrefixFromArgs :: "arg list \<Rightarrow> bytes outcome" where
  "slashingAttest_PrefixFromArgs args =
     (case args of
        [ArgUint64 valId, ArgString typ] \<Rightarrow>
          if typ \<noteq> ''source'' \<and> typ \<noteq> ''target'' then Err BadArgs
          else Ok (bw_bytes (bw_string typ (bw_uint64 valId bw_new)))
      | _ \<Rightarrow> Err BadArgs)"

definition slashingAttestIndex :: Indexer where
  "slashingAttestIndex = \<lparr>ix_FromObject = slashingAttest_FromObject, ix_FromArgs = slashingAttest_FromArgs,
     ix_PrefixFromArgs = Some slashingAttest_PrefixFromArgs\<rparr>"

section \<open>The schema\<close>

record IndexSchema =
  is_Unique :: bool
  is_AllowMissing :: bool
  is_Indexer :: Indexer

type_synonym TableSchema = "(string \<times> IndexSchema) list"
type_synonym DBSchema = "(string \<times> TableSchema) list"

text \<open>The field indexes of the database library, by the name of the field.\<close>

record FieldIndexes =
  StringFieldIndex :: "string \<Rightarrow> Indexer"
  FieldSetIndex :: "string \<Rightarrow> Indexer"
  UintFieldIndex :: "string \<Rightarrow> Indexer"

definition dutiesTable :: string where "dutiesTable = ''duties''"
definition validatorsTable :: string where "validatorsTable = ''validators''"

definition schema :: "FieldIndexes \<Rightarrow> DBSchema" where
  "schema fi =
     [(dutiesTable,
        [(''id'', \<lparr>is_Unique = True, is_AllowMissing = False, is_Indexer = StringFieldIndex fi ''Id''\<rparr>),
         (''type'', \<lparr>is_Unique = False, is_AllowMissing = False, is_Indexer = IndexJob\<rparr>),
         (''block_proposer'', \<lparr>is_Unique = False, is_AllowMissing = True, is_Indexer = slashingBlockIndex\<rparr>),
         (''attest_proposer'', \<lparr>is_Unique = False, is_AllowMissing = True, is_Indexer = slashingAttestIndex\<rparr>)]),
      (validatorsTable,
        [(''id'', \<lparr>is_Unique = True, is_AllowMissing = False, is_Indexer = StringFieldIndex fi ''PubKey''\<rparr>),
         (''pending'', \<lparr>is_Unique = False, is_AllowMissing = False, is_Indexer = FieldSetIndex fi ''Metadata''\<rparr>),
         (''index'', \<lparr>is_Unique = False, is_AllowMissing = True,
            is_Indexer = activeValidatorIndex (UintFieldIndex fi ''Index'')\<rparr>),
         (''activationEpoch'', \<lparr>is_Unique = False, is_AllowMissing = True,
            is_Indexer = activeValidatorIndex (UintFieldIndex fi ''ActivationEpoch'')\<rparr>)])]"

section \<open>Order of the keys\<close>

fun bytes_val :: "bytes \<Rightarrow> nat" where
  "bytes_val [] = 0"
| "bytes_val (b # bs) = unat b * 256 ^ length bs + bytes_val bs"

lemma unat_byte: "unat (b :: uint8) < 256"
proof -
  have "unat b < 2 ^ LENGTH(8)" by (rule unsigned_less)
  then show ?thesis by simp
qed

lemma bytes_val_less: "bytes_val bs < 256 ^ length bs"
proof (induction bs)
  case (Cons b bs)
  have "unat b * 256 ^ length bs + bytes_val bs < (unat b + 1) * 256 ^ length bs" using Cons by simp
  also have "\<dots> \<le> 256 * 256 ^ length bs" using unat_byte [of b] by (intro mult_right_mono) simp_all
  finally show ?case by simp
qed simp

lemma bytes_less_iff: "length xs = length ys \<Longrightarrow> xs < ys \<longleftrightarrow> bytes_val xs < bytes_val ys"
proof (induction xs ys rule: list_induct2)
  case (Cons x xs y ys)
  have lx: "bytes_val xs < 256 ^ length ys" and ly: "bytes_val ys < 256 ^ length ys"
    using bytes_val_less [of xs] bytes_val_less [of ys] Cons.hyps by simp_all
  have step: "unat a * 256 ^ length ys + u < unat b * 256 ^ length ys + v"
    if "unat a < unat b" "u < 256 ^ length ys" for a b :: uint8 and u v
  proof -
    have "unat a * 256 ^ length ys + u < (unat a + 1) * 256 ^ length ys" using that(2) by simp
    also have "\<dots> \<le> unat b * 256 ^ length ys" using that(1) by (intro mult_right_mono) simp_all
    finally show ?thesis by simp
  qed
  consider "unat x < unat y" | "unat y < unat x" | "x = y"
    by (metis linorder_neqE_nat word_unat_eq_iff)
  then show ?case
  proof cases
    case 1
    then show ?thesis
      using step [OF 1 lx, of "bytes_val ys"] Cons.hyps by (simp add: word_less_nat_alt)
  next
    case 2
    then show ?thesis
      using step [OF 2 ly, of "bytes_val xs"] Cons.hyps by (auto simp: word_less_nat_alt)
  next
    case 3
    then show ?thesis using Cons by simp
  qed
qed simp

lemma length_be64 [simp]: "length (be64 u) = 8"
  by (simp add: be64_def le64_def)

lemma unat_byte_at: "unat (ucast (drop_bit (8 * k) (u :: uint64)) :: uint8) = unat u div 256 ^ k mod 256"
proof -
  have "unat (ucast (drop_bit (8 * k) u) :: uint8) = unat (drop_bit (8 * k) u) mod 256"
    by (simp add: unsigned_ucast_eq take_bit_eq_mod)
  also have "unat (drop_bit (8 * k) u) = unat u div 256 ^ k"
    by (subst unat_drop_bit_eq) (simp add: drop_bit_eq_div power_mult)
  finally show ?thesis .
qed

lemma bytes_val_append: "bytes_val (xs @ ys) = bytes_val xs * 256 ^ length ys + bytes_val ys"
  by (induction xs) (simp_all add: power_add algebra_simps)

lemma bytes_val_digits:
  "bytes_val (rev (map (\<lambda>k. ucast (drop_bit (8 * k) u)) [0..<n])) = unat (u :: uint64) mod 256 ^ n"
proof (induction n)
  case (Suc n)
  have "bytes_val (rev (map (\<lambda>k. ucast (drop_bit (8 * k) u)) [0..<Suc n])) =
      (unat u div 256 ^ n mod 256) * 256 ^ n + unat u mod 256 ^ n"
    using Suc by (simp add: unat_byte_at)
  also have "\<dots> = unat u mod (256 ^ n * 256)"
    using mod_mult2_eq [of "unat u" "256 ^ n" 256] by (simp only: mult.commute)
  finally show ?case by (simp add: mult.commute)
qed simp

lemma bytes_val_be64: "bytes_val (be64 u) = unat u"
  using unat_less_64 [of u] by (simp add: be64_def le64_def bytes_val_digits)

lemma be64_inj: "be64 u = be64 v \<longleftrightarrow> u = v"
  by (metis bytes_val_be64 word_unat_eq_iff)

lemma be64_less: "be64 u < be64 v \<longleftrightarrow> u < v"
  by (simp add: bytes_less_iff bytes_val_be64 word_less_nat_alt)

lemma append_less:
  "length xs = length ys \<Longrightarrow> xs @ us < ys @ vs \<longleftrightarrow> xs < ys \<or> (xs = ys \<and> us < (vs :: bytes))"
  by (induction xs ys rule: list_induct2) auto

definition block_key :: "uint64 \<Rightarrow> uint64 \<Rightarrow> bytes" where
  "block_key v slot = be64 v @ be64 slot"

definition attest_key :: "uint64 \<Rightarrow> string \<Rightarrow> uint64 \<Rightarrow> bytes" where
  "attest_key v name epoch = be64 v @ bytes_of_string name @ [0] @ be64 epoch"

text \<open>
  C36: the key under which a proposed block is indexed is found by its validator and slot and by no
  other; keys are ordered by validator and then by slot; and the keys of one validator are those with
  its prefix.
\<close>

theorem block_index_keys:
  assumes "slashingBlock_FromObject (DutyObj d) = Ok (True, ks)"
  shows "\<exists>k. ks = [k] \<and>
    (\<forall>v slot. slashingBlock_FromArgs [ArgUint64 v, ArgUint64 slot] = Ok k \<longleftrightarrow> v = d_ValidatorIndex d \<and> slot = d_Slot d) \<and>
    (\<forall>v p. slashingBlock_PrefixFromArgs [ArgUint64 v] = Ok p \<longrightarrow> (prefix p k \<longleftrightarrow> v = d_ValidatorIndex d)) \<and>
    (\<forall>e k'. slashingBlock_FromObject (DutyObj e) = Ok (True, [k']) \<longrightarrow>
       (k < k' \<longleftrightarrow> d_ValidatorIndex d < d_ValidatorIndex e \<or>
          (d_ValidatorIndex d = d_ValidatorIndex e \<and> d_Slot d < d_Slot e)))"
proof -
  have key: "k = block_key (d_ValidatorIndex e) (d_Slot e)"
    if "slashingBlock_FromObject (DutyObj e) = Ok (True, [k])" for e k
    using that by (auto simp: slashingBlock_FromObject_def block_key_def outcome_simps split: if_splits)
  have "ks = [block_key (d_ValidatorIndex d) (d_Slot d)]"
    using assms by (auto simp: slashingBlock_FromObject_def block_key_def outcome_simps split: if_splits)
  moreover have "prefix (be64 v) (block_key w slot) \<longleftrightarrow> v = w" for v w slot
    by (auto simp: block_key_def be64_inj prefix_def append_eq_append_conv)
  moreover have "block_key v slot < block_key w slot' \<longleftrightarrow> v < w \<or> (v = w \<and> slot < slot')" for v w slot slot'
    by (simp add: block_key_def append_less be64_less be64_inj)
  moreover have "block_key v slot = block_key w slot' \<longleftrightarrow> v = w \<and> slot = slot'" for v w slot slot'
    by (simp add: block_key_def be64_inj)
  ultimately show ?thesis
    by (auto simp: slashingBlock_FromArgs_def slashingBlock_PrefixFromArgs_def simp flip: block_key_def dest!: key)
qed

definition demo_block :: "uint64 \<Rightarrow> uint64 \<Rightarrow> bytes \<Rightarrow> Duty" where
  "demo_block v slot root = proto_NewDuty\<lparr>d_Id := format_uint slot, d_ValidatorIndex := v, d_Slot := slot,
     d_Job := Some (Job_BlockProposal (Some Duty_BlockProposal)),
     d_Result := Some (empty_Result\<lparr>res_BlockProposal := Some \<lparr>bpr_Root = root, bpr_Signature = []\<rparr>\<rparr>)\<rparr>"

lemma demo_block_key:
  "slashingBlock_FromObject (DutyObj (demo_block v slot root)) = Ok (True, [block_key v slot])"
  by (simp add: slashingBlock_FromObject_def demo_block_def Duty_Type_def block_key_def)

theorem block_index_keys_witness:
  "slashingBlock_FromArgs [ArgUint64 7, ArgUint64 5] = Ok (block_key 7 5) \<and> block_key 7 5 < block_key 7 6"
  using block_index_keys [OF demo_block_key [of 7 5 "[]"]] demo_block_key [of 7 6 "[]"]
  by (simp add: demo_block_def)

lemma source_target_less: "bytes_of_string ''source'' @ u < bytes_of_string ''target'' @ v"
  by (simp add: bytes_of_string_def)

lemma attest_key_order:
  "attest_key v name e < attest_key w name e' \<longleftrightarrow> v < w \<or> (v = w \<and> e < e')"
  "attest_key v ''source'' e < attest_key v ''target'' e'"
  using source_target_less by (simp_all add: attest_key_def append_less be64_less be64_inj)

lemma attest_key_prefix:
  assumes "name \<in> {''source'', ''target''}" "typ \<in> {''source'', ''target''}"
  shows "prefix (be64 v @ bytes_of_string typ @ [0]) (attest_key w name e) \<longleftrightarrow> v = w \<and> typ = name"
proof -
  have eq: "bytes_of_string typ @ [0] @ zs = bytes_of_string name @ [0] @ us \<longleftrightarrow> typ = name \<and> zs = us" for zs us
    using assms by (auto simp: bytes_of_string_def)
  have "prefix (be64 v @ bytes_of_string typ @ [0]) (attest_key w name e) \<longleftrightarrow>
      (\<exists>zs. be64 w @ bytes_of_string name @ [0] @ be64 e = be64 v @ bytes_of_string typ @ [0] @ zs)"
    by (simp add: attest_key_def prefix_def)
  also have "\<dots> \<longleftrightarrow> (\<exists>zs. w = v \<and> bytes_of_string typ @ [0] @ zs = bytes_of_string name @ [0] @ be64 e)"
    by (metis append_eq_append_conv be64_inj length_be64)
  finally show ?thesis
    unfolding eq by auto
qed

text \<open>
  C37: an attestation with a result is indexed under two keys, of its source and its target epoch; the
  prefix of a validator and a kind matches the key of that kind of that validator only; keys of one
  validator and kind are ordered by epoch, and the source keys of a validator come before its target
  keys.
\<close>

theorem attest_index_keys:
  assumes "slashingAttest_FromObject (DutyObj d) = Ok (True, ks)"
  shows "\<exists>src tgt. ks = [attest_key (d_ValidatorIndex d) ''source'' src, attest_key (d_ValidatorIndex d) ''target'' tgt] \<and>
    (\<forall>v p name. slashingAttest_PrefixFromArgs [ArgUint64 v, ArgString name] = Ok p \<longrightarrow>
       (prefix p (ks ! 0) \<longleftrightarrow> v = d_ValidatorIndex d \<and> name = ''source'') \<and>
       (prefix p (ks ! 1) \<longleftrightarrow> v = d_ValidatorIndex d \<and> name = ''target'')) \<and>
    (\<forall>e. attest_key (d_ValidatorIndex d) ''source'' e < ks ! 0 \<longleftrightarrow> e < src) \<and> ks ! 0 < ks ! 1"
proof -
  obtain src tgt where ks: "ks = [attest_key (d_ValidatorIndex d) ''source'' src, attest_key (d_ValidatorIndex d) ''target'' tgt]"
    using assms by (auto simp: slashingAttest_FromObject_def addCheckpoint_def attest_key_def outcome_simps
        split: if_splits option.splits)
  have pre: "p = be64 v @ bytes_of_string name @ [0] \<and> name \<in> {''source'', ''target''}"
    if "slashingAttest_PrefixFromArgs [ArgUint64 v, ArgString name] = Ok p" for v p name
    using that by (auto simp: slashingAttest_PrefixFromArgs_def split: if_splits)
  have "(prefix p (ks ! 0) \<longleftrightarrow> v = d_ValidatorIndex d \<and> name = ''source'') \<and>
       (prefix p (ks ! 1) \<longleftrightarrow> v = d_ValidatorIndex d \<and> name = ''target'')"
    if "slashingAttest_PrefixFromArgs [ArgUint64 v, ArgString name] = Ok p" for v p name
    using pre [OF that] attest_key_prefix [of "''source''" name] attest_key_prefix [of "''target''" name] by (simp add: ks)
  then show ?thesis
    by (intro exI [of _ src] exI [of _ tgt]) (simp add: ks attest_key_order)
qed

definition demo_vote :: "uint64 \<Rightarrow> uint64 \<Rightarrow> uint64 \<Rightarrow> Duty" where
  "demo_vote v src tgt = proto_NewDuty\<lparr>d_Id := ''v'', d_ValidatorIndex := v, d_Job := Some (Job_Attestation (Some \<lparr>att_CommitteeIndex = 3, att_CommitteeLength = 5, att_CommitteesAtSlot = 4\<rparr>)),
     d_Result := Some (empty_Result\<lparr>res_Attestation := Some \<lparr>ar_Root = [], ar_Source = Some \<lparr>cp_Root = [], cp_Epoch = src\<rparr>,
       ar_Target = Some \<lparr>cp_Root = [], cp_Epoch = tgt\<rparr>\<rparr>\<rparr>)\<rparr>"

lemma demo_vote_keys:
  "slashingAttest_FromObject (DutyObj (demo_vote v src tgt)) = Ok (True, [attest_key v ''source'' src, attest_key v ''target'' tgt])"
  by (simp add: slashingAttest_FromObject_def demo_vote_def Duty_Type_def addCheckpoint_def attest_key_def duty_type_defs)

theorem attest_index_keys_witness: "attest_key 7 ''source'' 10 < attest_key 7 ''target'' 15"
  using attest_index_keys [OF demo_vote_keys [of 7 10 15]] by (auto simp: demo_vote_def)

text \<open>
  What the indexes do with incomplete duties: without a job the type index returns an error while
  both slashing indexes panic; with a result that lacks the attestation, or one of its checkpoints,
  an attestation duty makes the attestation index panic; and pending validators are left out of the
  indexes of active ones.
\<close>

lemma index_incomplete:
  "(d_Job d = None \<longrightarrow> IndexJob_FromObject (DutyObj d) = Err BadObject \<and>
      slashingBlock_FromObject (DutyObj d) = Panic ''BUG'' \<and> slashingAttest_FromObject (DutyObj d) = Panic ''BUG'') \<and>
   (\<forall>j r. d_Job d = Some (Job_Attestation j) \<and> d_Result d = Some r \<and>
      (res_Attestation r = None \<or> (\<exists>a. res_Attestation r = Some a \<and> (ar_Source a = None \<or> ar_Target a = None))) \<longrightarrow>
      slashingAttest_FromObject (DutyObj d) = Panic ''nil dereference'') \<and>
   (v_Metadata v = None \<longrightarrow> ix_FromObject (activeValidatorIndex sub) (ValidatorObj v) = Ok (False, []))"
proof (intro conjI allI impI)
  show "slashingAttest_FromObject (DutyObj d) = Panic ''nil dereference''"
    if "d_Job d = Some (Job_Attestation j) \<and> d_Result d = Some r \<and>
      (res_Attestation r = None \<or> (\<exists>a. res_Attestation r = Some a \<and> (ar_Source a = None \<or> ar_Target a = None)))" for j r
    using that by (cases "res_Attestation r"; cases "ar_Source (the (res_Attestation r))")
      (auto simp: slashingAttest_FromObject_def Duty_Type_def duty_type_defs addCheckpoint_def)
qed (simp_all add: IndexJob_FromObject_def slashingBlock_FromObject_def slashingAttest_FromObject_def Duty_Type_def
    activeValidatorIndex_def activeValidator_FromObject_def)

lemma index_incomplete_new:
  "slashingBlock_FromObject (DutyObj proto_NewDuty) = Panic ''BUG'' \<and>
   ix_FromObject (activeValidatorIndex IndexJob) (ValidatorObj \<lparr>v_PubKey = [], v_PrivKey = [], v_Metadata = None\<rparr>) = Ok (False, [])"
proof -
  have "d_Job proto_NewDuty = None" by (simp add: proto_NewDuty_def)
  then show ?thesis
    using index_incomplete [of proto_NewDuty "\<lparr>v_PubKey = [], v_PrivKey = [], v_Metadata = None\<rparr>" IndexJob] by simp
qed

end
