(* ===== verification/StateDB.thy ===== *)
theory StateDB
  imports StateIndex
begin

text \<open>
  The state of the validator, \<open>internal/server/state/state.go\<close>: every duty and validator is kept
  twice, on disk (a Bolt database with one bucket for each kind) and in an in-memory database with
  the indexes of theory StateIndex.

  Both databases and the wire encoding are outside the repository.  They are parameters, the record
  \<open>StateLib\<close>; what the code relies on is stated as \<open>memdb_laws\<close>, \<open>bolt_laws\<close> and \<open>codec_laws\<close>.
  A transaction works on a copy of its database, which becomes the database when it commits.
\<close>

section \<open>The libraries\<close>

record ('m, 'b) StateLib =
  lib_Fields :: FieldIndexes
  mem_NewMemDB :: "DBSchema \<Rightarrow> 'm outcome"
  mem_Insert :: "'m \<Rightarrow> string \<Rightarrow> raw \<Rightarrow> 'm outcome"
  mem_First :: "'m \<Rightarrow> string \<Rightarrow> string \<Rightarrow> arg list \<Rightarrow> raw option outcome"
  mem_Get :: "'m \<Rightarrow> string \<Rightarrow> string \<Rightarrow> arg list \<Rightarrow> raw list outcome"
  mem_LowerBound :: "'m \<Rightarrow> string \<Rightarrow> string \<Rightarrow> arg list \<Rightarrow> raw list outcome"
  mem_ReverseLowerBound :: "'m \<Rightarrow> string \<Rightarrow> string \<Rightarrow> arg list \<Rightarrow> raw list outcome"
  bolt_Open :: "string \<Rightarrow> 'b outcome"
  bolt_CreateBucketIfNotExists :: "'b \<Rightarrow> bytes \<Rightarrow> 'b outcome"
  bolt_ForEach :: "'b \<Rightarrow> bytes \<Rightarrow> (bytes \<times> bytes) list"
  bolt_Get :: "'b \<Rightarrow> bytes \<Rightarrow> bytes \<Rightarrow> bytes option"
  bolt_Put :: "'b \<Rightarrow> bytes \<Rightarrow> bytes \<Rightarrow> bytes \<Rightarrow> 'b outcome"
  bolt_Commit :: "'b \<Rightarrow> 'b outcome"
  bolt_Close :: "'b \<Rightarrow> unit outcome"
  pb_Marshal :: "raw \<Rightarrow> bytes outcome"
  pb_Unmarshal :: "raw \<Rightarrow> bytes \<Rightarrow> raw outcome"

section \<open>The state and its operations\<close>

definition dutiesBucket :: bytes where "dutiesBucket = bytes_of_string ''duties''"
definition validatorsBucket :: bytes where "validatorsBucket = bytes_of_string ''validators''"

record ('m, 'b) State =
  s_db :: 'b
  s_memdb :: 'm

text \<open>\<open>dbPut\<close> and \<open>dbGet\<close> work on a bucket of a transaction.\<close>

definition dbPut :: "('m, 'b) StateLib \<Rightarrow> 'b \<Rightarrow> bytes \<Rightarrow> bytes \<Rightarrow> raw \<Rightarrow> 'b outcome" where
  "dbPut lib tx bkt i msg = obind (pb_Marshal lib msg) (\<lambda>enc. bolt_Put lib tx bkt i enc)"

definition dbGet :: "('m, 'b) StateLib \<Rightarrow> 'b \<Rightarrow> bytes \<Rightarrow> bytes \<Rightarrow> raw \<Rightarrow> raw outcome" where
  "dbGet lib tx bkt i msg =
     (case bolt_Get lib tx bkt i of
        None \<Rightarrow> Err RecordNotFound
      | Some enc \<Rightarrow> wrap_err ''failed to decode data'' (pb_Unmarshal lib msg enc))"

definition indexObject :: "('m, 'b) StateLib \<Rightarrow> 'b \<Rightarrow> bytes \<Rightarrow> string \<Rightarrow> raw \<Rightarrow> 'm \<Rightarrow> 'm outcome" where
  "indexObject lib tx bkt table obj memTxn =
     ofold (\<lambda>(k, v) m. obind (dbGet lib tx bkt k obj) (\<lambda>elem. mem_Insert lib m table elem)) (bolt_ForEach lib tx bkt) memTxn"

definition empty_Validator :: Validator where
  "empty_Validator = \<lparr>v_PubKey = [], v_PrivKey = [], v_Metadata = None\<rparr>"

definition reIndex :: "('m, 'b) StateLib \<Rightarrow> ('m, 'b) State \<Rightarrow> ('m, 'b) State outcome" where
  "reIndex lib s =
     obind (indexObject lib (s_db s) dutiesBucket ''duties'' (DutyObj proto_NewDuty) (s_memdb s)) (\<lambda>m.
     obind (indexObject lib (s_db s) validatorsBucket ''validators'' (ValidatorObj empty_Validator) m) (\<lambda>m'.
     Ok (s\<lparr>s_memdb := m'\<rparr>)))"

definition NewState :: "('m, 'b) StateLib \<Rightarrow> string \<Rightarrow> ('m, 'b) State outcome" where
  "NewState lib path =
     obind (bolt_Open lib path) (\<lambda>db.
     obind (obind (ofold (\<lambda>b tx. bolt_CreateBucketIfNotExists lib tx b) [dutiesBucket, validatorsBucket] db)
        (bolt_Commit lib)) (\<lambda>db'.
     obind (mem_NewMemDB lib (schema (lib_Fields lib))) (\<lambda>m.
     reIndex lib \<lparr>s_db = db', s_memdb = m\<rparr>)))"

definition Close :: "('m, 'b) StateLib \<Rightarrow> ('m, 'b) State \<Rightarrow> unit outcome" where
  "Close lib s = bolt_Close lib (s_db s)"

text \<open>
  The end of an upsert: \<open>db.Update\<close> commits the disk transaction if its body returned no error and
  rolls it back otherwise (also when it panics); only then is the memory transaction committed, else
  the deferred \<open>Abort\<close> drops it.
\<close>

definition update_both :: "('m, 'b) StateLib \<Rightarrow> ('m, 'b) State \<Rightarrow> ('m \<times> 'b) outcome \<Rightarrow> ('m, 'b) State \<times> unit outcome" where
  "update_both lib s r =
     (case r of
        Ok (m, tx) \<Rightarrow>
          (case bolt_Commit lib tx of
             Ok db \<Rightarrow> (\<lparr>s_db = db, s_memdb = m\<rparr>, Ok ())
           | Err e \<Rightarrow> (s, Err e)
           | Panic p \<Rightarrow> (s, Panic p))
      | Err e \<Rightarrow> (s, Err e)
      | Panic p \<Rightarrow> (s, Panic p))"

definition upsert_duty :: "('m, 'b) StateLib \<Rightarrow> Duty \<Rightarrow> 'm \<times> 'b \<Rightarrow> ('m \<times> 'b) outcome" where
  "upsert_duty lib duty mt =
     (let (m, tx) = mt in
     obind (mem_Insert lib m dutiesTable (DutyObj duty)) (\<lambda>m'.
     obind (dbPut lib tx dutiesBucket (bytes_of_string (d_Id duty)) (DutyObj duty)) (\<lambda>tx'. Ok (m', tx'))))"

definition UpsertDuties :: "('m, 'b) StateLib \<Rightarrow> ('m, 'b) State \<Rightarrow> Duty list \<Rightarrow> ('m, 'b) State \<times> unit outcome" where
  "UpsertDuties lib s duties = update_both lib s (ofold (upsert_duty lib) duties (s_memdb s, s_db s))"

definition UpsertDuty :: "('m, 'b) StateLib \<Rightarrow> ('m, 'b) State \<Rightarrow> Duty \<Rightarrow> ('m, 'b) State \<times> unit outcome" where
  "UpsertDuty lib s duty = UpsertDuties lib s [duty]"

definition upsert_validator :: "('m, 'b) StateLib \<Rightarrow> Validator \<Rightarrow> 'm \<times> 'b \<Rightarrow> ('m \<times> 'b) outcome" where
  "upsert_validator lib val mt =
     (let (m, tx) = mt in
     obind (mem_Insert lib m validatorsTable (ValidatorObj val)) (\<lambda>m'.
     obind (dbPut lib tx validatorsBucket (bytes_of_string (v_PubKey val)) (ValidatorObj val)) (\<lambda>tx'. Ok (m', tx'))))"

definition UpsertValidator :: "('m, 'b) StateLib \<Rightarrow> ('m, 'b) State \<Rightarrow> Validator list \<Rightarrow> ('m, 'b) State \<times> unit outcome" where
  "UpsertValidator lib s validators = update_both lib s (ofold (upsert_validator lib) validators (s_memdb s, s_db s))"

text \<open>The type assertions on what the memory database returns.\<close>

fun as_duty :: "raw \<Rightarrow> Duty outcome" where
  "as_duty (DutyObj d) = Ok d"
| "as_duty _ = Panic ''interface conversion''"

fun as_validator :: "raw \<Rightarrow> Validator outcome" where
  "as_validator (ValidatorObj v) = Ok v"
| "as_validator _ = Panic ''interface conversion''"

fun as_optional :: "(raw \<Rightarrow> 'a outcome) \<Rightarrow> raw option \<Rightarrow> 'a option outcome" where
  "as_optional f None = Ok None"
| "as_optional f (Some obj) = obind (f obj) (\<lambda>x. Ok (Some x))"

definition DutyByID :: "('m, 'b) StateLib \<Rightarrow> ('m, 'b) State \<Rightarrow> string \<Rightarrow> Duty option outcome" where
  "DutyByID lib s dutyID =
     obind (mem_First lib (s_memdb s) dutiesTable ''id'' [ArgString dutyID]) (as_optional as_duty)"

text \<open>The lists are iterators in the code; here they are the rows the iterator gives.\<close>

definition DutiesList :: "('m, 'b) StateLib \<Rightarrow> ('m, 'b) State \<Rightarrow> raw list outcome" where
  "DutiesList lib s = mem_Get lib (s_memdb s) dutiesTable ''id'' []"

definition ValidatorsList :: "('m, 'b) StateLib \<Rightarrow> ('m, 'b) State \<Rightarrow> raw list outcome" where
  "ValidatorsList lib s = mem_Get lib (s_memdb s) validatorsTable ''id'' []"

definition GetValidatorsPending :: "('m, 'b) StateLib \<Rightarrow> ('m, 'b) State \<Rightarrow> Validator list outcome" where
  "GetValidatorsPending lib s =
     obind (mem_Get lib (s_memdb s) validatorsTable ''pending'' [ArgBool False]) (omap as_validator)"

definition GetValidatorsActiveAt :: "('m, 'b) StateLib \<Rightarrow> ('m, 'b) State \<Rightarrow> uint64 \<Rightarrow> Validator list outcome" where
  "GetValidatorsActiveAt lib s epoch =
     obind (if epoch = 0 then mem_Get lib (s_memdb s) validatorsTable ''activationEpoch'' [ArgUint64 0]
            else mem_ReverseLowerBound lib (s_memdb s) validatorsTable ''activationEpoch'' [ArgUint64 (epoch + 1)])
       (omap as_validator)"

definition GetValidatorByIndex :: "('m, 'b) StateLib \<Rightarrow> ('m, 'b) State \<Rightarrow> uint64 \<Rightarrow> Validator option outcome" where
  "GetValidatorByIndex lib s index =
     obind (mem_First lib (s_memdb s) validatorsTable ''index'' [ArgUint64 index]) (as_optional as_validator)"

section \<open>Slashing checks\<close>

record blockSlotProposal =
  bsp_duty :: "Duty option"

definition bsp_Slot :: "blockSlotProposal \<Rightarrow> uint64 outcome" where
  "bsp_Slot b = obind (deref (bsp_duty b)) (\<lambda>d. Ok (d_Slot d))"

definition bsp_Equal :: "blockSlotProposal \<Rightarrow> bytes \<Rightarrow> bool outcome" where
  "bsp_Equal b root =
     obind (deref (bsp_duty b)) (\<lambda>d. obind (deref (d_Result d)) (\<lambda>r. obind (deref (res_BlockProposal r)) (\<lambda>p.
       Ok (bpr_Root p = root))))"

definition bsp_Exists :: "blockSlotProposal \<Rightarrow> bool" where
  "bsp_Exists b \<longleftrightarrow> bsp_duty b \<noteq> None"

definition proposalAtSlotFn :: "('m, 'b) StateLib \<Rightarrow> ('m, 'b) State \<Rightarrow> uint64 \<Rightarrow> uint64 \<Rightarrow> blockSlotProposal outcome" where
  "proposalAtSlotFn lib s valID slot =
     obind (obind (mem_First lib (s_memdb s) dutiesTable ''block_proposer'' [ArgUint64 valID, ArgUint64 slot])
       (as_optional as_duty)) (\<lambda>d. Ok \<lparr>bsp_duty = d\<rparr>)"

text \<open>\<open>it.Next()\<close> on a fresh iterator.\<close>

fun it_Next :: "'a list \<Rightarrow> 'a option" where
  "it_Next [] = None"
| "it_Next (x # xs) = Some x"

definition lowestSignedProposalFn :: "('m, 'b) StateLib \<Rightarrow> ('m, 'b) State \<Rightarrow> uint64 \<Rightarrow> blockSlotProposal outcome" where
  "lowestSignedProposalFn lib s valID =
     obind (mem_LowerBound lib (s_memdb s) dutiesTable ''block_proposer_prefix'' [ArgUint64 valID]) (\<lambda>it.
     obind (as_optional as_duty (it_Next it)) (\<lambda>d. Ok \<lparr>bsp_duty = d\<rparr>))"

definition SlashBlockCheck :: "('m, 'b) StateLib \<Rightarrow> ('m, 'b) State \<Rightarrow> uint64 \<Rightarrow> uint64 \<Rightarrow> bytes \<Rightarrow> unit outcome" where
  "SlashBlockCheck lib s valID slot root =
     obind (proposalAtSlotFn lib s valID slot) (\<lambda>proposalAtSlot.
     obind (lowestSignedProposalFn lib s valID) (\<lambda>lowestProposal.
     obind (if bsp_Exists proposalAtSlot
            then obind (bsp_Equal proposalAtSlot root) (\<lambda>eq. if \<not> eq then Err (RootRepeated slot) else Ok ()) else Ok ()) (\<lambda>_.
     if bsp_Exists lowestProposal
     then obind (bsp_Slot lowestProposal) (\<lambda>low. if low \<ge> slot then Err SlotTooLow else Ok ()) else Ok ())))"

record attestSlashProposal =
  asp_typ :: string
  asp_duty :: "Duty option"

definition asp_Epoch :: "attestSlashProposal \<Rightarrow> uint64 outcome" where
  "asp_Epoch a =
     obind (deref (asp_duty a)) (\<lambda>d. obind (deref (d_Result d)) (\<lambda>r. obind (deref (res_Attestation r)) (\<lambda>at.
     obind (deref (if asp_typ a = ''source'' then ar_Source at else ar_Target at)) (\<lambda>c. Ok (cp_Epoch c)))))"

definition asp_Exists :: "attestSlashProposal \<Rightarrow> bool" where
  "asp_Exists a \<longleftrightarrow> asp_duty a \<noteq> None"

definition lowestSignedEpochFn :: "('m, 'b) StateLib \<Rightarrow> ('m, 'b) State \<Rightarrow> uint64 \<Rightarrow> string \<Rightarrow> attestSlashProposal outcome" where
  "lowestSignedEpochFn lib s valID typ =
     obind (mem_LowerBound lib (s_memdb s) dutiesTable ''attest_proposer_prefix'' [ArgUint64 valID, ArgString typ]) (\<lambda>it.
     obind (as_optional as_duty (it_Next it)) (\<lambda>d. Ok \<lparr>asp_typ = typ, asp_duty = d\<rparr>))"

definition SlashAttestCheck :: "('m, 'b) StateLib \<Rightarrow> ('m, 'b) State \<Rightarrow> uint64 \<Rightarrow> uint64 \<Rightarrow> uint64 \<Rightarrow> unit outcome" where
  "SlashAttestCheck lib s valID source target =
     obind (lowestSignedEpochFn lib s valID ''source'') (\<lambda>lowestSourceEpoch.
     obind (lowestSignedEpochFn lib s valID ''target'') (\<lambda>lowestTargetEpoch.
     obind (if asp_Exists lowestSourceEpoch
            then obind (asp_Epoch lowestSourceEpoch) (\<lambda>e. if source < e then Err SourceTooLow else Ok ()) else Ok ()) (\<lambda>_.
     if asp_Exists lowestTargetEpoch
     then obind (asp_Epoch lowestTargetEpoch) (\<lambda>e. if target \<le> e then Err TargetTooLow else Ok ()) else Ok ())))"

end
