(* ===== verification/Beacon.thy ===== *)
theory Beacon
  imports Proto
begin

text \<open>
  The beacon node as the validator sees it: the interface \<open>Api\<close> of \<open>internal/beacon/api.go\<close> and
  its two implementations, \<open>HttpAPI\<close> (\<open>api_http.go\<close>) and \<open>NullAPI\<close> (\<open>mock.go\<close>).  The node answers
  from outside the repository, so an implementation is a record of functions from the arguments
  of a call to its result, and the client library behind \<open>HttpAPI\<close> is a record of such functions.

  The structures of the consensus library are records of the fields that the code reads or sets;
  what else a value carries stays in a field of bytes that the code only passes on.  A fixed-size
  array such as \<open>[32]byte\<close> is a list of bytes.  Contexts and tracing spans are left out.
\<close>

section \<open>Values of the consensus and http libraries\<close>

record Syncing =
  syn_raw :: bytes

record GenesisInfo =
  gi_Time :: uint64
  gi_Root :: bytes

record AttesterDuty =
  ad_ValidatorIndex :: uint64
  ad_Slot :: uint64
  ad_CommitteeIndex :: uint64
  ad_CommitteeLength :: uint64
  ad_CommitteeAtSlot :: uint64

record ProposerDuty =
  pd_ValidatorIndex :: uint64
  pd_Slot :: uint64

record CommitteeSyncDuty =
  cd_ValidatorIndex :: uint64
  cd_ValidatorSyncCommitteeIndices :: "string list"

record http_Validator =
  hv_Index :: uint64
  hv_ActivationEpoch :: uint64

record Spec =
  SecondsPerSlot :: uint64
  SlotsPerEpoch :: uint64
  SyncCommitteeSize :: uint64
  TargetAggregatorsPerCommittee :: uint64
  AltairForkEpoch :: uint64
  BellatrixForkEpoch :: uint64
  GenesisForkVersion :: bytes
  AltairForkVersion :: bytes
  BellatrixForkVersion :: bytes

record con_Checkpoint =
  con_Epoch :: uint64
  con_Root :: bytes

record AttestationData =
  atd_Source :: con_Checkpoint
  atd_Target :: con_Checkpoint
  atd_rest :: bytes

record Attestation =
  at_Data :: AttestationData
  at_AggregationBits :: bytes
  at_Signature :: bytes

record AggregateAndProof =
  aap_Index :: uint64
  aap_Aggregate :: Attestation
  aap_SelectionProof :: bytes

record SignedAggregateAndProof =
  saap_Message :: AggregateAndProof
  saap_Signature :: bytes

record SyncCommitteeMessage =
  scm_Slot :: uint64
  scm_BlockRoot :: bytes
  scm_ValidatorIndex :: uint64
  scm_Signature :: bytes

record SyncCommitteeContribution =
  scc_rest :: bytes

record ContributionAndProof =
  cap_AggregatorIndex :: uint64
  cap_Contribution :: SyncCommitteeContribution
  cap_SelectionProof :: bytes

record SignedContributionAndProof =
  scap_Message :: ContributionAndProof
  scap_Signature :: bytes

record SyncAggregatorSelectionData =
  sasd_Slot :: uint64
  sasd_SubCommitteeIndex :: uint64

text \<open>The two block types the code allocates, \<open>BeaconBlockPhase0\<close> and \<open>BeaconBlockAltair\<close>.\<close>

datatype BlockKind = BlockPhase0 | BlockAltair

record BeaconBlock =
  bb_Kind :: BlockKind
  bb_StateRoot :: bytes
  bb_rest :: bytes

record SignedBeaconBlock =
  sbb_Block :: BeaconBlock
  sbb_Signature :: bytes

record SyncCommitteeSubscription =
  scs_ValidatorIndex :: uint64
  scs_SyncCommitteeIndices :: "uint64 list"
  scs_UntilEpoch :: uint64

record BeaconCommitteeSubscription =
  bcs_ValidatorIndex :: uint64
  bcs_Slot :: uint64
  bcs_CommitteeIndex :: uint64
  bcs_CommitteesAtSlot :: uint64

section \<open>The interface\<close>

record Api =
  api_Syncing :: "(Syncing) outcome"
  api_Genesis :: "(GenesisInfo) outcome"
  api_Events :: "string list \<Rightarrow> (unit) outcome"
  api_GetAttesterDuties :: "uint64 \<Rightarrow> string list \<Rightarrow> (AttesterDuty list) outcome"
  api_GetProposerDuties :: "uint64 \<Rightarrow> (ProposerDuty list) outcome"
  api_GetCommitteeSyncDuties :: "uint64 \<Rightarrow> string list \<Rightarrow> (CommitteeSyncDuty list) outcome"
  api_SubmitCommitteeDuties :: "SyncCommitteeMessage list \<Rightarrow> (unit) outcome"
  api_GetValidatorByPubKey :: "string \<Rightarrow> (http_Validator) outcome"
  api_GetBlock :: "BlockKind \<Rightarrow> uint64 \<Rightarrow> bytes \<Rightarrow> (BeaconBlock) outcome"
  api_PublishSignedBlock :: "SignedBeaconBlock \<Rightarrow> (unit) outcome"
  api_RequestAttestationData :: "uint64 \<Rightarrow> uint64 \<Rightarrow> (AttestationData) outcome"
  api_PublishAttestations :: "Attestation list \<Rightarrow> (unit) outcome"
  api_AggregateAttestation :: "uint64 \<Rightarrow> bytes \<Rightarrow> (Attestation) outcome"
  api_PublishAggregateAndProof :: "SignedAggregateAndProof list \<Rightarrow> (unit) outcome"
  api_GetHeadBlockRoot :: "(bytes) outcome"
  api_ConfigSpec :: "(Spec) outcome"
  api_SyncCommitteeContribution :: "uint64 \<Rightarrow> uint64 \<Rightarrow> bytes \<Rightarrow> (SyncCommitteeContribution) outcome"
  api_SubmitSignedContributionAndProof :: "SignedContributionAndProof list \<Rightarrow> (unit) outcome"
  api_SyncCommitteeSubscriptions :: "SyncCommitteeSubscription list \<Rightarrow> (unit) outcome"
  api_BeaconCommitteeSubscriptions :: "BeaconCommitteeSubscription list \<Rightarrow> (unit) outcome"

section \<open>HttpAPI\<close>

text \<open>
  The client of the http library, with its sections \<open>Node()\<close>, \<open>Beacon()\<close>, \<open>Validator()\<close> and
  \<open>Config()\<close>.  The state identifier \<open>http.Head\<close> is the string of the beacon API.
\<close>

record http_Client =
  hc_Node_Syncing :: "(Syncing) outcome"
  hc_Beacon_Genesis :: "(GenesisInfo) outcome"
  hc_Client_Events :: "string list \<Rightarrow> (unit) outcome"
  hc_Validator_GetAttesterDuties :: "uint64 \<Rightarrow> string list \<Rightarrow> (AttesterDuty list) outcome"
  hc_Validator_GetProposerDuties :: "uint64 \<Rightarrow> (ProposerDuty list) outcome"
  hc_Validator_GetCommitteeSyncDuties :: "uint64 \<Rightarrow> string list \<Rightarrow> (CommitteeSyncDuty list) outcome"
  hc_Beacon_SubmitCommitteeDuties :: "SyncCommitteeMessage list \<Rightarrow> (unit) outcome"
  hc_Beacon_GetValidatorByPubKey :: "string \<Rightarrow> string \<Rightarrow> (http_Validator) outcome"
  hc_Validator_GetBlock :: "BlockKind \<Rightarrow> uint64 \<Rightarrow> bytes \<Rightarrow> (BeaconBlock) outcome"
  hc_Beacon_PublishSignedBlock :: "SignedBeaconBlock \<Rightarrow> (unit) outcome"
  hc_Validator_RequestAttestationData :: "uint64 \<Rightarrow> uint64 \<Rightarrow> (AttestationData) outcome"
  hc_Beacon_PublishAttestations :: "Attestation list \<Rightarrow> (unit) outcome"
  hc_Validator_AggregateAttestation :: "uint64 \<Rightarrow> bytes \<Rightarrow> (Attestation) outcome"
  hc_Validator_PublishAggregateAndProof :: "SignedAggregateAndProof list \<Rightarrow> (unit) outcome"
  hc_Beacon_GetRoot :: "string \<Rightarrow> (bytes) outcome"
  hc_Config_Spec :: "(Spec) outcome"
  hc_Validator_SyncCommitteeContribution :: "uint64 \<Rightarrow> uint64 \<Rightarrow> bytes \<Rightarrow> (SyncCommitteeContribution) outcome"
  hc_Validator_SubmitSignedContributionAndProof :: "SignedContributionAndProof list \<Rightarrow> (unit) outcome"
  hc_Validator_SyncCommitteeSubscriptions :: "SyncCommitteeSubscription list \<Rightarrow> (unit) outcome"
  hc_Validator_BeaconCommitteeSubscriptions :: "BeaconCommitteeSubscription list \<Rightarrow> (unit) outcome"

definition http_Head :: string where "http_Head = ''head''"

record HttpAPI =
  ha_client :: http_Client
  ha_url :: string

text \<open>\<open>http.New\<close> builds the client from the address.\<close>

definition NewHttpAPI :: "(string \<Rightarrow> http_Client) \<Rightarrow> string \<Rightarrow> HttpAPI" where
  "NewHttpAPI http_New url = \<lparr>ha_client = http_New url, ha_url = url\<rparr>"

definition http_Syncing :: "HttpAPI \<Rightarrow> (Syncing) outcome" where
  "http_Syncing h = hc_Node_Syncing (ha_client h)"

definition http_Genesis :: "HttpAPI \<Rightarrow> (GenesisInfo) outcome" where
  "http_Genesis h = hc_Beacon_Genesis (ha_client h)"

definition http_Events :: "HttpAPI \<Rightarrow> string list \<Rightarrow> (unit) outcome" where
  "http_Events h topics = hc_Client_Events (ha_client h) topics"

definition http_GetAttesterDuties :: "HttpAPI \<Rightarrow> uint64 \<Rightarrow> string list \<Rightarrow> (AttesterDuty list) outcome" where
  "http_GetAttesterDuties h epoch indexes = hc_Validator_GetAttesterDuties (ha_client h) epoch indexes"

definition http_GetProposerDuties :: "HttpAPI \<Rightarrow> uint64 \<Rightarrow> (ProposerDuty list) outcome" where
  "http_GetProposerDuties h epoch = hc_Validator_GetProposerDuties (ha_client h) epoch"

definition http_GetCommitteeSyncDuties :: "HttpAPI \<Rightarrow> uint64 \<Rightarrow> string list \<Rightarrow> (CommitteeSyncDuty list) outcome" where
  "http_GetCommitteeSyncDuties h epoch indexes = hc_Validator_GetCommitteeSyncDuties (ha_client h) epoch indexes"

definition http_SubmitCommitteeDuties :: "HttpAPI \<Rightarrow> SyncCommitteeMessage list \<Rightarrow> (unit) outcome" where
  "http_SubmitCommitteeDuties h duties = hc_Beacon_SubmitCommitteeDuties (ha_client h) duties"

definition http_GetValidatorByPubKey :: "HttpAPI \<Rightarrow> string \<Rightarrow> (http_Validator) outcome" where
  "http_GetValidatorByPubKey h pub = hc_Beacon_GetValidatorByPubKey (ha_client h) pub http_Head"

definition http_GetBlock :: "HttpAPI \<Rightarrow> BlockKind \<Rightarrow> uint64 \<Rightarrow> bytes \<Rightarrow> (BeaconBlock) outcome" where
  "http_GetBlock h obj slot randao = hc_Validator_GetBlock (ha_client h) obj slot randao"

definition http_PublishSignedBlock :: "HttpAPI \<Rightarrow> SignedBeaconBlock \<Rightarrow> (unit) outcome" where
  "http_PublishSignedBlock h blk = hc_Beacon_PublishSignedBlock (ha_client h) blk"

definition http_RequestAttestationData :: "HttpAPI \<Rightarrow> uint64 \<Rightarrow> uint64 \<Rightarrow> (AttestationData) outcome" where
  "http_RequestAttestationData h slot committeeIndex = hc_Validator_RequestAttestationData (ha_client h) slot committeeIndex"

definition http_PublishAttestations :: "HttpAPI \<Rightarrow> Attestation list \<Rightarrow> (unit) outcome" where
  "http_PublishAttestations h atts = hc_Beacon_PublishAttestations (ha_client h) atts"

definition http_AggregateAttestation :: "HttpAPI \<Rightarrow> uint64 \<Rightarrow> bytes \<Rightarrow> (Attestation) outcome" where
  "http_AggregateAttestation h slot root = hc_Validator_AggregateAttestation (ha_client h) slot root"

definition http_PublishAggregateAndProof :: "HttpAPI \<Rightarrow> SignedAggregateAndProof list \<Rightarrow> (unit) outcome" where
  "http_PublishAggregateAndProof h atts = hc_Validator_PublishAggregateAndProof (ha_client h) atts"

definition http_GetHeadBlockRoot :: "HttpAPI \<Rightarrow> (bytes) outcome" where
  "http_GetHeadBlockRoot h = hc_Beacon_GetRoot (ha_client h) http_Head"

definition http_ConfigSpec :: "HttpAPI \<Rightarrow> (Spec) outcome" where
  "http_ConfigSpec h = hc_Config_Spec (ha_client h)"

definition http_SyncCommitteeContribution :: "HttpAPI \<Rightarrow> uint64 \<Rightarrow> uint64 \<Rightarrow> bytes \<Rightarrow> (SyncCommitteeContribution) outcome" where
  "http_SyncCommitteeContribution h slot subCommitteeIndex root = hc_Validator_SyncCommitteeContribution (ha_client h) slot subCommitteeIndex root"

definition http_SubmitSignedContributionAndProof :: "HttpAPI \<Rightarrow> SignedContributionAndProof list \<Rightarrow> (unit) outcome" where
  "http_SubmitSignedContributionAndProof h signedContribution = hc_Validator_SubmitSignedContributionAndProof (ha_client h) signedContribution"

definition http_SyncCommitteeSubscriptions :: "HttpAPI \<Rightarrow> SyncCommitteeSubscription list \<Rightarrow> (unit) outcome" where
  "http_SyncCommitteeSubscriptions h subs = hc_Validator_SyncCommitteeSubscriptions (ha_client h) subs"

definition http_BeaconCommitteeSubscriptions :: "HttpAPI \<Rightarrow> BeaconCommitteeSubscription list \<Rightarrow> (unit) outcome" where
  "http_BeaconCommitteeSubscriptions h subs = hc_Validator_BeaconCommitteeSubscriptions (ha_client h) subs"

definition HttpAPI_Api :: "HttpAPI \<Rightarrow> Api" where
  "HttpAPI_Api h = \<lparr>api_Syncing = http_Syncing h,
     api_Genesis = http_Genesis h,
     api_Events = http_Events h,
     api_GetAttesterDuties = http_GetAttesterDuties h,
     api_GetProposerDuties = http_GetProposerDuties h,
     api_GetCommitteeSyncDuties = http_GetCommitteeSyncDuties h,
     api_SubmitCommitteeDuties = http_SubmitCommitteeDuties h,
     api_GetValidatorByPubKey = http_GetValidatorByPubKey h,
     api_GetBlock = http_GetBlock h,
     api_PublishSignedBlock = http_PublishSignedBlock h,
     api_RequestAttestationData = http_RequestAttestationData h,
     api_PublishAttestations = http_PublishAttestations h,
     api_AggregateAttestation = http_AggregateAttestation h,
     api_PublishAggregateAndProof = http_PublishAggregateAndProof h,
     api_GetHeadBlockRoot = http_GetHeadBlockRoot h,
     api_ConfigSpec = http_ConfigSpec h,
     api_SyncCommitteeContribution = http_SyncCommitteeContribution h,
     api_SubmitSignedContributionAndProof = http_SubmitSignedContributionAndProof h,
     api_SyncCommitteeSubscriptions = http_SyncCommitteeSubscriptions h,
     api_BeaconCommitteeSubscriptions = http_BeaconCommitteeSubscriptions h\<rparr>"

section \<open>NullAPI\<close>

definition unimplemented :: "'a outcome" where
  "unimplemented = Panic ''unimplemented''"

definition NullAPI :: Api where
  "NullAPI = \<lparr>api_Syncing = unimplemented,
     api_Genesis = unimplemented,
     api_Events = \<lambda>_. unimplemented,
     api_GetAttesterDuties = \<lambda>_ _. unimplemented,
     api_GetProposerDuties = \<lambda>_. unimplemented,
     api_GetCommitteeSyncDuties = \<lambda>_ _. unimplemented,
     api_SubmitCommitteeDuties = \<lambda>_. unimplemented,
     api_GetValidatorByPubKey = \<lambda>_. unimplemented,
     api_GetBlock = \<lambda>_ _ _. unimplemented,
     api_PublishSignedBlock = \<lambda>_. unimplemented,
     api_RequestAttestationData = \<lambda>_ _. unimplemented,
     api_PublishAttestations = \<lambda>_. unimplemented,
     api_AggregateAttestation = \<lambda>_ _. unimplemented,
     api_PublishAggregateAndProof = \<lambda>_. unimplemented,
     api_GetHeadBlockRoot = unimplemented,
     api_ConfigSpec = unimplemented,
     api_SyncCommitteeContribution = \<lambda>_ _ _. unimplemented,
     api_SubmitSignedContributionAndProof = \<lambda>_. unimplemented,
     api_SyncCommitteeSubscriptions = \<lambda>_. unimplemented,
     api_BeaconCommitteeSubscriptions = \<lambda>_. unimplemented\<rparr>"

lemma http_calls [simp]:
  "api_Syncing (HttpAPI_Api h) = hc_Node_Syncing (ha_client h)"
  "api_Genesis (HttpAPI_Api h) = hc_Beacon_Genesis (ha_client h)"
  "api_Events (HttpAPI_Api h) = hc_Client_Events (ha_client h)"
  "api_GetAttesterDuties (HttpAPI_Api h) = hc_Validator_GetAttesterDuties (ha_client h)"
  "api_GetProposerDuties (HttpAPI_Api h) = hc_Validator_GetProposerDuties (ha_client h)"
  "api_GetCommitteeSyncDuties (HttpAPI_Api h) = hc_Validator_GetCommitteeSyncDuties (ha_client h)"
  "api_SubmitCommitteeDuties (HttpAPI_Api h) = hc_Beacon_SubmitCommitteeDuties (ha_client h)"
  "api_GetBlock (HttpAPI_Api h) = hc_Validator_GetBlock (ha_client h)"
  "api_PublishSignedBlock (HttpAPI_Api h) = hc_Beacon_PublishSignedBlock (ha_client h)"
  "api_RequestAttestationData (HttpAPI_Api h) = hc_Validator_RequestAttestationData (ha_client h)"
  "api_PublishAttestations (HttpAPI_Api h) = hc_Beacon_PublishAttestations (ha_client h)"
  "api_AggregateAttestation (HttpAPI_Api h) = hc_Validator_AggregateAttestation (ha_client h)"
  "api_PublishAggregateAndProof (HttpAPI_Api h) = hc_Validator_PublishAggregateAndProof (ha_client h)"
  "api_ConfigSpec (HttpAPI_Api h) = hc_Config_Spec (ha_client h)"
  "api_SyncCommitteeContribution (HttpAPI_Api h) = hc_Validator_SyncCommitteeContribution (ha_client h)"
  "api_SubmitSignedContributionAndProof (HttpAPI_Api h) = hc_Validator_SubmitSignedContributionAndProof (ha_client h)"
  "api_SyncCommitteeSubscriptions (HttpAPI_Api h) = hc_Validator_SyncCommitteeSubscriptions (ha_client h)"
  "api_BeaconCommitteeSubscriptions (HttpAPI_Api h) = hc_Validator_BeaconCommitteeSubscriptions (ha_client h)"
  by (simp_all add: HttpAPI_Api_def fun_eq_iff http_Syncing_def http_Genesis_def http_Events_def http_GetAttesterDuties_def http_GetProposerDuties_def http_GetCommitteeSyncDuties_def http_SubmitCommitteeDuties_def http_GetValidatorByPubKey_def http_GetBlock_def http_PublishSignedBlock_def http_RequestAttestationData_def http_PublishAttestations_def http_AggregateAttestation_def http_PublishAggregateAndProof_def http_GetHeadBlockRoot_def http_ConfigSpec_def http_SyncCommitteeContribution_def http_SubmitSignedContributionAndProof_def http_SyncCommitteeSubscriptions_def http_BeaconCommitteeSubscriptions_def)

end
