(* ===== verification/Uuid.thy ===== *)
theory Uuid
  imports GoStrings
begin

text \<open>
  Duty ids, \<open>internal/uuid/uuid.go\<close>.  The random source is outside the repository: \<open>Generate\<close>
  takes what \<open>rand.Read\<close> filled the 16-byte buffer with, or its error.
\<close>

text \<open>\<open>%08x\<close> of a byte slice: two hexadecimal digits a byte, padded with zeros to the width.\<close>

definition pad_hex :: "nat \<Rightarrow> bytes \<Rightarrow> string" where
  "pad_hex w bs = replicate (w - 2 * length bs) (CHR ''0'') @ EncodeToString bs"

definition slice :: "nat \<Rightarrow> nat \<Rightarrow> 'a list \<Rightarrow> 'a list" where
  "slice i j xs = take (j - i) (drop i xs)"

definition uuid_format :: "bytes \<Rightarrow> string" where
  "uuid_format buf = pad_hex 8 (slice 0 4 buf) @ ''-'' @ pad_hex 4 (slice 4 6 buf) @ ''-'' @
     pad_hex 4 (slice 6 8 buf) @ ''-'' @ pad_hex 4 (slice 8 10 buf) @ ''-'' @ pad_hex 12 (slice 10 16 buf)"

definition Generate :: "bytes outcome \<Rightarrow> string outcome" where
  "Generate read =
     (case read of
        Ok buf \<Rightarrow> Ok (uuid_format buf)
      | Err e \<Rightarrow> Panic ''failed to read random bytes''
      | Panic m \<Rightarrow> Panic m)"

definition Short :: "bytes outcome \<Rightarrow> string outcome" where
  "Short read = obind (Generate read) (\<lambda>s. if length s < 8 then Panic ''slice bounds out of range'' else Ok (slice 0 8 s))"

lemma pad_hex_full: "2 * length bs = w \<Longrightarrow> pad_hex w bs = EncodeToString bs"
  by (simp add: pad_hex_def)

lemma length_slice [simp]: "j \<le> length xs \<Longrightarrow> length (slice i j xs) = j - i"
  by (simp add: slice_def)

lemma uuid_format_eq:
  assumes "length buf = 16"
  shows "uuid_format buf = EncodeToString (slice 0 4 buf) @ ''-'' @ EncodeToString (slice 4 6 buf) @ ''-'' @
     EncodeToString (slice 6 8 buf) @ ''-'' @ EncodeToString (slice 8 10 buf) @ ''-'' @ EncodeToString (slice 10 16 buf)"
  using assms by (simp add: uuid_format_def pad_hex_full)

lemma slices_16:
  assumes "length buf = 16"
  shows "slice 0 4 buf @ slice 4 6 buf @ slice 6 8 buf @ slice 8 10 buf @ slice 10 16 buf = buf"
proof -
  have "buf = take 4 buf @ drop 4 buf" by simp
  moreover have "drop 4 buf = take 2 (drop 4 buf) @ drop 6 buf"
    using append_take_drop_id [of 2 "drop 4 buf"] by simp
  moreover have "drop 6 buf = take 2 (drop 6 buf) @ drop 8 buf"
    using append_take_drop_id [of 2 "drop 6 buf"] by simp
  moreover have "drop 8 buf = take 2 (drop 8 buf) @ drop 10 buf"
    using append_take_drop_id [of 2 "drop 8 buf"] by simp
  ultimately have "take 4 buf @ take 2 (drop 4 buf) @ take 2 (drop 6 buf) @ take 2 (drop 8 buf) @ drop 10 buf = buf"
    by simp
  then show ?thesis using assms by (simp add: slice_def)
qed

lemma uuid_format_inj:
  assumes "length a = 16" "length b = 16" "uuid_format a = uuid_format b"
  shows "a = b"
proof -
  have len: "length (EncodeToString (slice i j a)) = length (EncodeToString (slice i j b))" if "j \<le> 16" for i j
    using that assms by (simp add: length_EncodeToString)
  have eq: "EncodeToString (slice 0 4 a) @ ''-'' @ EncodeToString (slice 4 6 a) @ ''-'' @
     EncodeToString (slice 6 8 a) @ ''-'' @ EncodeToString (slice 8 10 a) @ ''-'' @ EncodeToString (slice 10 16 a) =
     EncodeToString (slice 0 4 b) @ ''-'' @ EncodeToString (slice 4 6 b) @ ''-'' @
     EncodeToString (slice 6 8 b) @ ''-'' @ EncodeToString (slice 8 10 b) @ ''-'' @ EncodeToString (slice 10 16 b)"
    using assms(3) by (simp add: uuid_format_eq assms(1,2))
  have "slice 0 4 a = slice 0 4 b \<and> slice 4 6 a = slice 4 6 b \<and> slice 6 8 a = slice 6 8 b \<and>
      slice 8 10 a = slice 8 10 b \<and> slice 10 16 a = slice 10 16 b"
    using eq len by (simp add: append_eq_append_conv) (blast dest: EncodeToString_inj)
  then show ?thesis
    using slices_16 [OF assms(1)] slices_16 [OF assms(2)] by metis
qed

text \<open>C32: an id is 36 characters, it determines the 16 random bytes it was made from, and its short form is
  the hexadecimal text of the first four of them; a failed read of the random source panics.\<close>

theorem Generate_unique:
  "(\<forall>a b s. length a = 16 \<and> length b = 16 \<and> Generate (Ok a) = Ok s \<and> Generate (Ok b) = Ok s \<longrightarrow> a = b \<and> length s = 36) \<and>
   (\<forall>a. length a = 16 \<longrightarrow> Short (Ok a) = Ok (EncodeToString (take 4 a))) \<and>
   (\<forall>e. Generate (Err e) = Panic ''failed to read random bytes'')"
proof -
  have len: "length (uuid_format a) = 36" if "length a = 16" for a
    using that by (simp add: uuid_format_eq length_EncodeToString)
  have "Short (Ok a) = Ok (EncodeToString (take 4 a))" if "length a = 16" for a
  proof -
    have "length (EncodeToString (take 4 a)) = 8" using that by (simp add: length_EncodeToString)
    then have "slice 0 8 (uuid_format a) = EncodeToString (take 4 a)"
      using that by (simp add: uuid_format_eq slice_def)
    then show ?thesis using len [OF that] by (simp add: Short_def Generate_def)
  qed
  then show ?thesis using len uuid_format_inj by (auto simp: Generate_def)
qed

definition demo_buf :: bytes where "demo_buf = map of_nat [0..<16]"

theorem Generate_unique_witness: "Short (Ok demo_buf) = Ok ''00010203''"
proof -
  have "EncodeToString (take 4 demo_buf) = ''00010203''" by code_simp
  moreover have "length demo_buf = 16" by (simp add: demo_buf_def)
  ultimately show ?thesis using Generate_unique by simp
qed

end
