(* ===== verification/Scheduler.thy ===== *)
theory Scheduler
  imports Beacon Uuid
begin

text \<open>
  The scheduler of \<open>internal/scheduler/scheduler.go\<close>: from the assignments of an epoch it makes the
  plan, the list of duties with their start times and dependencies.

  What the scheduler gets from outside is in the record \<open>Scheduler\<close>: the state of the server behind
  the interface \<open>State\<close>, the beacon node, the configuration, the hash functions of the libraries, the
  ids that successive calls of \<open>uuid.Generate\<close> return, the order in which Go ranges over the keys of
  a map, and the time.
\<close>

section \<open>Interfaces\<close>

record SchedState =
  st_GetValidatorsActiveAt :: "uint64 \<Rightarrow> Validator list outcome"
  st_Sign :: "DomainType \<Rightarrow> uint64 \<Rightarrow> uint64 \<Rightarrow> bytes \<Rightarrow> bytes outcome"
  st_DutyByID :: "string \<Rightarrow> Duty option outcome"
  st_Genesis :: gotime

record Evaluation =
  ev_Epoch :: uint64
  ev_Attestation :: "AttesterDuty list"
  ev_Proposer :: "ProposerDuty list"
  ev_Committee :: "CommitteeSyncDuty list"
  ev_GenesisTime :: gotime

record Scheduler =
  sc_state :: SchedState
  sc_config :: Spec
  sc_client :: Api
  sc_Sum256 :: "bytes \<Rightarrow> bytes"
  sc_SelectionRoot :: "SyncAggregatorSelectionData \<Rightarrow> bytes outcome"
  sc_ids :: "nat \<Rightarrow> string"
  sc_order :: "uint64 list \<Rightarrow> uint64 list"
  sc_now :: gotime

definition go_div :: "uint64 \<Rightarrow> uint64 \<Rightarrow> uint64 outcome" where
  "go_div a b = (if b = 0 then Panic ''integer divide by zero'' else Ok (a div b))"

section \<open>Times\<close>

definition atSlot :: "Spec \<Rightarrow> gotime \<Rightarrow> uint64 \<Rightarrow> gotime" where
  "atSlot cfg genesis slot = time_Add genesis ((slot * SecondsPerSlot cfg) * Second)"

definition slotDuration :: "Spec \<Rightarrow> Duration" where
  "slotDuration cfg = SecondsPerSlot cfg * Second"

definition attestationDelay :: "Spec \<Rightarrow> Duration" where
  "attestationDelay cfg = dur_div (slotDuration cfg) 3"

definition attestationAggregationDelay :: "Spec \<Rightarrow> Duration" where
  "attestationAggregationDelay cfg = dur_div (slotDuration cfg * 2) 3"

definition syncCommitteeDelay :: "Spec \<Rightarrow> Duration" where
  "syncCommitteeDelay cfg = dur_div (slotDuration cfg) 3"

definition syncCommitteeAggregationDelay :: "Spec \<Rightarrow> Duration" where
  "syncCommitteeAggregationDelay cfg = dur_div (slotDuration cfg * 2) 3"

section \<open>Aggregators\<close>

definition isAttestatorAggregate :: "Scheduler \<Rightarrow> uint64 \<Rightarrow> uint64 \<Rightarrow> uint64 \<Rightarrow> uint64 \<Rightarrow> (bool \<times> bytes) outcome" where
  "isAttestatorAggregate s epoch committeeSize slot account =
     obind (go_div committeeSize (TargetAggregatorsPerCommittee (sc_config s))) (\<lambda>m.
     let modulo = (if m = 0 then 1 else m) in
     obind (wrap_err ''failed to sign attestation aggregate''
       (st_Sign (sc_state s) DomainSelectionProofType epoch account (Uint64SSZ slot))) (\<lambda>signature.
     Ok (of_le64 (take 8 (sc_Sum256 s signature)) mod modulo = 0, signature)))"

definition syncCommitteeSubnetCount :: uint64 where "syncCommitteeSubnetCount = 4"
definition targetAggregattorsPerSyncSubcommittee :: uint64 where "targetAggregattorsPerSyncSubcommittee = 16"

definition isSyncCommitteeAggregator :: "Scheduler \<Rightarrow> uint64 \<Rightarrow> uint64 \<Rightarrow> uint64 \<Rightarrow> uint64 \<Rightarrow> (bool \<times> bytes) outcome" where
  "isSyncCommitteeAggregator s epoch subCommitteeIndex slot account =
     (let m = SyncCommitteeSize (sc_config s) div syncCommitteeSubnetCount div targetAggregattorsPerSyncSubcommittee;
          modulo = (if m < 1 then 1 else m);
          signObj = \<lparr>sasd_Slot = slot, sasd_SubCommitteeIndex = subCommitteeIndex\<rparr> in
     obind (sc_SelectionRoot s signObj) (\<lambda>root.
     obind (st_Sign (sc_state s) DomainSyncCommitteeSelectionProof epoch account root) (\<lambda>signature.
     Ok (of_le64 (take 8 (sc_Sum256 s signature)) mod modulo = 0, signature))))"

definition convertToIntIndices :: "string list \<Rightarrow> uint64 list outcome" where
  "convertToIntIndices = omap (ParseUint 32)"

section \<open>Duties of one assignment\<close>

text \<open>
  The loops of \<open>Process\<close> append to \<open>duties\<close>, and a duty gets the next id just before it is appended:
  the next id is the one after those of the duties appended so far.
\<close>

definition nextId :: "Scheduler \<Rightarrow> Duty list \<Rightarrow> string" where
  "nextId s ds = sc_ids s (length ds)"

definition proposalDuty :: "Scheduler \<Rightarrow> Evaluation \<Rightarrow> ProposerDuty \<Rightarrow> string \<Rightarrow> Duty" where
  "proposalDuty s eval proposal i =
     proto_NewDuty\<lparr>d_Id := i, d_Slot := pd_Slot proposal, d_Epoch := ev_Epoch eval,
       d_ActiveTime := Some (atSlot (sc_config s) (ev_GenesisTime eval) (pd_Slot proposal)),
       d_Job := Some (Job_BlockProposal None), d_ValidatorIndex := pd_ValidatorIndex proposal\<rparr>"

definition addProposal :: "Scheduler \<Rightarrow> Evaluation \<Rightarrow> ProposerDuty \<Rightarrow> Duty list \<Rightarrow> Duty list outcome" where
  "addProposal s eval proposal ds = Ok (ds @ [proposalDuty s eval proposal (nextId s ds)])"

definition attestationDuty :: "Scheduler \<Rightarrow> Evaluation \<Rightarrow> AttesterDuty \<Rightarrow> string \<Rightarrow> Duty" where
  "attestationDuty s eval a i =
     proto_NewDuty\<lparr>d_Id := i, d_Slot := ad_Slot a, d_Epoch := ev_Epoch eval,
       d_ActiveTime := Some (time_Add (atSlot (sc_config s) (ev_GenesisTime eval) (ad_Slot a)) (attestationDelay (sc_config s))),
       d_ValidatorIndex := ad_ValidatorIndex a,
       d_Job := Some (Job_Attestation (Some \<lparr>att_CommitteeIndex = ad_CommitteeIndex a,
         att_CommitteeLength = ad_CommitteeLength a, att_CommitteesAtSlot = ad_CommitteeAtSlot a\<rparr>))\<rparr>"

definition aggregationDuty :: "Scheduler \<Rightarrow> Evaluation \<Rightarrow> AttesterDuty \<Rightarrow> bytes \<Rightarrow> string \<Rightarrow> string \<Rightarrow> Duty" where
  "aggregationDuty s eval a proof i dep =
     proto_NewDuty\<lparr>d_Id := i, d_Slot := ad_Slot a, d_Epoch := ev_Epoch eval,
       d_ActiveTime := Some (time_Add (atSlot (sc_config s) (ev_GenesisTime eval) (ad_Slot a)) (attestationAggregationDelay (sc_config s))),
       d_ValidatorIndex := ad_ValidatorIndex a,
       d_Job := Some (Job_AttestationAggregate (Some \<lparr>agg_SelectionProof = proof\<rparr>)), d_BlockedBy := [dep]\<rparr>"

definition addAttestation :: "Scheduler \<Rightarrow> Evaluation \<Rightarrow> AttesterDuty \<Rightarrow> Duty list \<Rightarrow> Duty list outcome" where
  "addAttestation s eval a ds =
     (let att = attestationDuty s eval a (nextId s ds); ds1 = ds @ [att] in
     obind (isAttestatorAggregate s (ev_Epoch eval) (ad_CommitteeLength a) (ad_Slot a) (ad_ValidatorIndex a))
       (\<lambda>(isAggregate, selectionProof).
         Ok (if isAggregate then ds1 @ [aggregationDuty s eval a selectionProof (nextId s ds1) (d_Id att)] else ds1)))"

definition committeeDuty :: "Scheduler \<Rightarrow> Evaluation \<Rightarrow> CommitteeSyncDuty \<Rightarrow> uint64 \<Rightarrow> string \<Rightarrow> Duty" where
  "committeeDuty s eval c slot i =
     proto_NewDuty\<lparr>d_Id := i, d_Slot := slot, d_Epoch := ev_Epoch eval,
       d_ActiveTime := Some (time_Add (atSlot (sc_config s) (ev_GenesisTime eval) slot) (syncCommitteeDelay (sc_config s))),
       d_Job := Some (Job_SyncCommittee None), d_ValidatorIndex := cd_ValidatorIndex c\<rparr>"

definition syncAggregateDuty :: "Scheduler \<Rightarrow> Evaluation \<Rightarrow> CommitteeSyncDuty \<Rightarrow> uint64 \<Rightarrow> uint64 \<Rightarrow> bytes \<Rightarrow> string \<Rightarrow> Duty" where
  "syncAggregateDuty s eval c slot index proof i =
     proto_NewDuty\<lparr>d_Id := i, d_Slot := slot, d_Epoch := ev_Epoch eval,
       d_ActiveTime := Some (time_Add (atSlot (sc_config s) (ev_GenesisTime eval) slot) (syncCommitteeAggregationDelay (sc_config s))),
       d_Job := Some (Job_SyncCommitteeAggregate (Some \<lparr>sca_SelectionProof = proof, sca_SubCommitteeIndex = index\<rparr>)),
       d_ValidatorIndex := cd_ValidatorIndex c\<rparr>"

definition addSyncAggregate :: "Scheduler \<Rightarrow> Evaluation \<Rightarrow> CommitteeSyncDuty \<Rightarrow> uint64 \<Rightarrow> uint64 \<Rightarrow> Duty list \<Rightarrow> Duty list outcome" where
  "addSyncAggregate s eval c slot index ds =
     obind (isSyncCommitteeAggregator s (ev_Epoch eval) index slot (cd_ValidatorIndex c))
       (\<lambda>(isAggregate, selectionProof).
         Ok (if isAggregate then ds @ [syncAggregateDuty s eval c slot index selectionProof (nextId s ds)] else ds))"

text \<open>The set of sub-committees of a validator, whose keys are visited in the order of the map.\<close>

definition subCommittees :: "Scheduler \<Rightarrow> CommitteeSyncDuty \<Rightarrow> uint64 list outcome" where
  "subCommittees s c =
     obind (convertToIntIndices (cd_ValidatorSyncCommitteeIndices c)) (\<lambda>indices.
     obind (omap (\<lambda>index. go_div index (SyncCommitteeSize (sc_config s) div syncCommitteeSubnetCount)) indices) (\<lambda>subs.
     Ok (sc_order s (remdups subs))))"

definition addSyncSlot :: "Scheduler \<Rightarrow> Evaluation \<Rightarrow> CommitteeSyncDuty \<Rightarrow> uint64 \<Rightarrow> Duty list \<Rightarrow> Duty list outcome" where
  "addSyncSlot s eval c slot ds =
     (let ds1 = ds @ [committeeDuty s eval c slot (nextId s ds)] in
     obind (subCommittees s c) (\<lambda>committeeIndices.
     ofold (addSyncAggregate s eval c slot) committeeIndices ds1))"

text \<open>\<open>for slot := FirstSlot; slot < LastSlot; slot++\<close>.\<close>

definition slotRange :: "uint64 \<Rightarrow> uint64 \<Rightarrow> uint64 list" where
  "slotRange FirstSlot LastSlot = map of_nat [unat FirstSlot..<unat LastSlot]"

definition epochSlots :: "Spec \<Rightarrow> uint64 \<Rightarrow> uint64 list" where
  "epochSlots cfg epoch = slotRange (epoch * SlotsPerEpoch cfg) (epoch * SlotsPerEpoch cfg + SlotsPerEpoch cfg)"

definition addCommittee :: "Scheduler \<Rightarrow> Evaluation \<Rightarrow> CommitteeSyncDuty \<Rightarrow> Duty list \<Rightarrow> Duty list outcome" where
  "addCommittee s eval c ds = ofold (addSyncSlot s eval c) (epochSlots (sc_config s) (ev_Epoch eval)) ds"

section \<open>The plan\<close>

definition cleanDuties :: "gotime \<Rightarrow> Duty list \<Rightarrow> Duty list" where
  "cleanDuties now ds = filter (\<lambda>d. After (AsTime (d_ActiveTime d)) now) ds"

definition duty_fork :: "Spec \<Rightarrow> uint64 \<Rightarrow> Duty_Fork" where
  "duty_fork cfg epoch =
     (if BellatrixForkEpoch cfg \<le> epoch then Duty_Bellatrix
      else if AltairForkEpoch cfg \<le> epoch then Duty_Altair else Duty_Phase0)"

definition allDuties :: "Scheduler \<Rightarrow> Evaluation \<Rightarrow> Duty list outcome" where
  "allDuties s eval =
     obind (ofold (addProposal s eval) (ev_Proposer eval) []) (\<lambda>ds1.
     obind (ofold (addAttestation s eval) (ev_Attestation eval) ds1) (\<lambda>ds2.
     ofold (addCommittee s eval) (ev_Committee eval) ds2))"

definition finishDuty :: "Spec \<Rightarrow> Evaluation \<Rightarrow> Duty \<Rightarrow> Duty" where
  "finishDuty cfg eval d = d\<lparr>d_Fork := duty_fork cfg (ev_Epoch eval), d_State := Duty_PENDING\<rparr>"

definition Process :: "Scheduler \<Rightarrow> Evaluation \<Rightarrow> Plan outcome" where
  "Process s eval =
     obind (allDuties s eval) (\<lambda>duties.
     Ok \<lparr>p_Duties = map (finishDuty (sc_config s) eval) (cleanDuties (sc_now s) duties)\<rparr>)"

definition HandleEpoch :: "Scheduler \<Rightarrow> uint64 \<Rightarrow> Plan outcome" where
  "HandleEpoch s epoch =
     obind (st_GetValidatorsActiveAt (sc_state s) epoch) (\<lambda>validators.
     obind (omap (\<lambda>val. deref (v_Metadata val)) validators) (\<lambda>metas.
     let validatorsByIndex = set (map vm_Index metas);
         validatorsArray = map (\<lambda>m. format_uint (vm_Index m)) metas in
     obind (api_GetAttesterDuties (sc_client s) epoch validatorsArray) (\<lambda>attesterDuties.
     obind (api_GetProposerDuties (sc_client s) epoch) (\<lambda>fullProposerDuties.
     let proposerDuties = filter (\<lambda>d. pd_ValidatorIndex d \<in> validatorsByIndex) fullProposerDuties in
     obind (api_GetCommitteeSyncDuties (sc_client s) epoch validatorsArray) (\<lambda>committeeDuties.
     Process s \<lparr>ev_Epoch = epoch, ev_Attestation = attesterDuties, ev_Proposer = proposerDuties,
       ev_Committee = committeeDuties, ev_GenesisTime = st_Genesis (sc_state s)\<rparr>)))))"

section \<open>Start times\<close>

lemma sint_small:
  assumes "- (2 ^ 63) \<le> k" "k < 2 ^ 63"
  shows "sint (word_of_int k :: 64 word) = k"
  using assms by (simp add: signed_of_int signed_take_bit_int_eq_self)

text \<open>One slot in nanoseconds; the products of the code are exact while they fit in 63 bits.\<close>

definition slot_ns :: "Spec \<Rightarrow> int" where
  "slot_ns cfg = int (unat (SecondsPerSlot cfg)) * 1000000000"

lemma slotDuration_sint: "2 * slot_ns cfg < 2 ^ 63 \<Longrightarrow> sint (slotDuration cfg) = slot_ns cfg"
proof -
  assume a: "2 * slot_ns cfg < 2 ^ 63"
  have "slotDuration cfg = word_of_int (slot_ns cfg)"
    by (simp add: slotDuration_def slot_ns_def Second_def)
  moreover have "0 \<le> slot_ns cfg" by (simp add: slot_ns_def)
  ultimately show ?thesis using a by (simp only:) (rule sint_small; simp)
qed

lemma slotDuration_double_sint: "2 * slot_ns cfg < 2 ^ 63 \<Longrightarrow> sint (slotDuration cfg * 2) = 2 * slot_ns cfg"
proof -
  assume a: "2 * slot_ns cfg < 2 ^ 63"
  have "slotDuration cfg * 2 = word_of_int (2 * slot_ns cfg)"
    by (simp add: slotDuration_def slot_ns_def Second_def)
  moreover have "0 \<le> slot_ns cfg" by (simp add: slot_ns_def)
  ultimately show ?thesis using a by (simp only:) (rule sint_small; simp)
qed

lemma dur_div_3: "0 \<le> sint a \<Longrightarrow> sint (dur_div a 3) = sint a div 3"
proof -
  assume a: "0 \<le> sint a"
  have "sint a < 2 ^ 63" using sint_lt [of a] by simp
  then have "sint a div 3 < 2 ^ 63" "0 \<le> sint a div 3" using a by linarith+
  moreover have "sint a sdiv 3 = sint a div 3"
    using a by (cases "sint a = 0") (simp_all add: signed_divide_int_def sgn_if)
  moreover have "sint (3 :: 64 word) = 3" by simp
  ultimately show ?thesis by (simp add: dur_div_def sint_small)
qed

lemma delays:
  assumes "2 * slot_ns cfg < 2 ^ 63"
  shows "sint (attestationDelay cfg) = slot_ns cfg div 3" "sint (syncCommitteeDelay cfg) = slot_ns cfg div 3"
    "sint (attestationAggregationDelay cfg) = 2 * slot_ns cfg div 3"
    "sint (syncCommitteeAggregationDelay cfg) = 2 * slot_ns cfg div 3"
proof -
  have "0 \<le> slot_ns cfg" by (simp add: slot_ns_def)
  then show "sint (attestationDelay cfg) = slot_ns cfg div 3" "sint (syncCommitteeDelay cfg) = slot_ns cfg div 3"
    "sint (attestationAggregationDelay cfg) = 2 * slot_ns cfg div 3"
    "sint (syncCommitteeAggregationDelay cfg) = 2 * slot_ns cfg div 3"
    by (simp_all add: attestationDelay_def syncCommitteeDelay_def attestationAggregationDelay_def
        syncCommitteeAggregationDelay_def dur_div_3 slotDuration_sint [OF assms] slotDuration_double_sint [OF assms])
qed

lemma atSlot_exact:
  assumes "int (unat slot) * slot_ns cfg < 2 ^ 63"
  shows "atSlot cfg genesis slot = genesis + int (unat slot) * slot_ns cfg"
proof -
  have "slot * SecondsPerSlot cfg * Second = word_of_int (int (unat slot) * slot_ns cfg)"
    by (simp add: slot_ns_def Second_def mult.assoc)
  moreover have "0 \<le> int (unat slot) * slot_ns cfg" by (simp add: slot_ns_def)
  ultimately have "sint (slot * SecondsPerSlot cfg * Second) = int (unat slot) * slot_ns cfg"
    using assms by (simp only:) (rule sint_small; simp)
  then show ?thesis
    by (simp add: atSlot_def time_Add_def)
qed

text \<open>
  C30: while slot times fit in 63 bits of nanoseconds, a proposal starts with its slot, attestations
  and sync messages start a third of a slot later and aggregations two thirds later, all of them in
  this order and before the next slot begins.
\<close>

theorem duty_times_in_slot:
  assumes "int (unat slot) * slot_ns cfg + slot_ns cfg < 2 ^ 63" "2 * slot_ns cfg < 2 ^ 63" "0 < SecondsPerSlot cfg"
  shows "let start = genesis + int (unat slot) * slot_ns cfg;
      att = time_Add (atSlot cfg genesis slot) (attestationDelay cfg);
      agg = time_Add (atSlot cfg genesis slot) (attestationAggregationDelay cfg)
    in atSlot cfg genesis slot = start \<and> att = start + slot_ns cfg div 3 \<and> agg = start + 2 * slot_ns cfg div 3 \<and>
      start < att \<and> att < agg \<and> agg < start + slot_ns cfg \<and>
      time_Add (atSlot cfg genesis slot) (syncCommitteeDelay cfg) = att \<and>
      time_Add (atSlot cfg genesis slot) (syncCommitteeAggregationDelay cfg) = agg"
proof -
  have "0 \<le> slot_ns cfg" by (simp add: slot_ns_def)
  then have at: "atSlot cfg genesis slot = genesis + int (unat slot) * slot_ns cfg"
    using assms(1) by (intro atSlot_exact) linarith
  have "0 < unat (SecondsPerSlot cfg)" using assms(3) by (simp only: word_less_nat_alt unat_0)
  then have "1 \<le> int (unat (SecondsPerSlot cfg))" by linarith
  then have "1000000000 \<le> slot_ns cfg" unfolding slot_ns_def by linarith
  then have "0 < slot_ns cfg div 3 \<and> slot_ns cfg div 3 < 2 * slot_ns cfg div 3 \<and> 2 * slot_ns cfg div 3 < slot_ns cfg"
    by linarith
  then show ?thesis
    by (simp add: Let_def at time_Add_def delays [OF assms(2)])
qed

definition demo_Spec :: Spec where
  "demo_Spec = \<lparr>SecondsPerSlot = 12, SlotsPerEpoch = 32, SyncCommitteeSize = 512, TargetAggregatorsPerCommittee = 16,
     AltairForkEpoch = 74240, BellatrixForkEpoch = 144896, GenesisForkVersion = [0, 0, 0, 0],
     AltairForkVersion = [1, 0, 0, 0], BellatrixForkVersion = [2, 0, 0, 0]\<rparr>"

theorem duty_times_in_slot_witness:
  "time_Add (atSlot demo_Spec 0 100) (attestationDelay demo_Spec) = 1204000000000"
proof -
  have "slot_ns demo_Spec = 12000000000" by (simp add: slot_ns_def demo_Spec_def)
  moreover have "0 < SecondsPerSlot demo_Spec" by (simp add: demo_Spec_def)
  ultimately have "int (unat (100 :: uint64)) * slot_ns demo_Spec + slot_ns demo_Spec < 2 ^ 63"
    "2 * slot_ns demo_Spec < 2 ^ 63" "0 < SecondsPerSlot demo_Spec" "slot_ns demo_Spec = 12000000000"
    by simp_all
  note w = duty_times_in_slot [OF this(1-3), of 0, unfolded Let_def this(4)]
  show ?thesis using w [THEN conjunct2, THEN conjunct1] by simp
qed

section \<open>Who aggregates\<close>

text \<open>
  C31: the validator of a committee with fewer than twice the target number of aggregators is always
  an aggregator, and in general it is one exactly when the hash of its selection proof is divisible
  by the size of the committee over the target; a target of zero panics.
\<close>

theorem isAttestatorAggregate_rule:
  "isAttestatorAggregate s epoch sz slot account =
    (if TargetAggregatorsPerCommittee (sc_config s) = 0 then Panic ''integer divide by zero''
     else case st_Sign (sc_state s) DomainSelectionProofType epoch account (Uint64SSZ slot) of
        Ok proof \<Rightarrow> Ok (unat (of_le64 (take 8 (sc_Sum256 s proof))) mod
            max 1 (unat sz div unat (TargetAggregatorsPerCommittee (sc_config s))) = 0, proof)
      | Err e \<Rightarrow> Err (Wrapped ''failed to sign attestation aggregate'' e)
      | Panic m \<Rightarrow> Panic m) \<and>
   (\<forall>b proof. unat sz < 2 * unat (TargetAggregatorsPerCommittee (sc_config s)) \<and>
      isAttestatorAggregate s epoch sz slot account = Ok (b, proof) \<longrightarrow> b)"
proof -
  let ?T = "TargetAggregatorsPerCommittee (sc_config s)"
  have mod1: "(x mod (if sz div ?T = 0 then 1 else sz div ?T) = 0) = (unat x mod max 1 (unat sz div unat ?T) = 0)"
    for x :: uint64
  proof (cases "sz div ?T = 0")
    case True
    then have "unat sz div unat ?T = 0" by (metis unat_div unat_0)
    then show ?thesis using True by simp
  next
    case False
    then have "unat (sz div ?T) \<noteq> 0" by (simp add: unat_eq_0)
    then have "max 1 (unat sz div unat ?T) = unat (sz div ?T)" by (simp add: unat_div)
    then show ?thesis using False by (simp add: unat_eq_0 [symmetric] unat_mod)
  qed
  have rule: "isAttestatorAggregate s epoch sz slot account =
    (if ?T = 0 then Panic ''integer divide by zero''
     else case st_Sign (sc_state s) DomainSelectionProofType epoch account (Uint64SSZ slot) of
        Ok proof \<Rightarrow> Ok (unat (of_le64 (take 8 (sc_Sum256 s proof))) mod max 1 (unat sz div unat ?T) = 0, proof)
      | Err e \<Rightarrow> Err (Wrapped ''failed to sign attestation aggregate'' e)
      | Panic m \<Rightarrow> Panic m)"
    by (simp add: isAttestatorAggregate_def go_div_def Let_def mod1 split: outcome.split)
  have "max 1 (unat sz div unat ?T) = 1" if "unat sz < 2 * unat ?T"
  proof -
    have "unat sz div unat ?T < 2" using that by (simp add: div_less_iff_less_mult mult.commute)
    then show ?thesis by linarith
  qed
  then show ?thesis
    using rule by (auto split: outcome.splits if_splits)
qed

section \<open>What a plan contains\<close>

text \<open>A duty without its id and dependencies, and the duties an evaluation asks for.\<close>

definition anon :: "Duty \<Rightarrow> Duty" where
  "anon d = d\<lparr>d_Id := [], d_BlockedBy := []\<rparr>"

definition wantedAttestation :: "Scheduler \<Rightarrow> Evaluation \<Rightarrow> AttesterDuty \<Rightarrow> Duty list" where
  "wantedAttestation s eval a = attestationDuty s eval a [] #
     (case isAttestatorAggregate s (ev_Epoch eval) (ad_CommitteeLength a) (ad_Slot a) (ad_ValidatorIndex a) of
        Ok (True, proof) \<Rightarrow> [(aggregationDuty s eval a proof [] [])\<lparr>d_BlockedBy := []\<rparr>]
      | _ \<Rightarrow> [])"

definition wantedSyncAggregate :: "Scheduler \<Rightarrow> Evaluation \<Rightarrow> CommitteeSyncDuty \<Rightarrow> uint64 \<Rightarrow> uint64 \<Rightarrow> Duty list" where
  "wantedSyncAggregate s eval c slot index =
     (case isSyncCommitteeAggregator s (ev_Epoch eval) index slot (cd_ValidatorIndex c) of
        Ok (True, proof) \<Rightarrow> [syncAggregateDuty s eval c slot index proof []]
      | _ \<Rightarrow> [])"

definition wantedSyncSlot :: "Scheduler \<Rightarrow> Evaluation \<Rightarrow> CommitteeSyncDuty \<Rightarrow> uint64 \<Rightarrow> Duty list" where
  "wantedSyncSlot s eval c slot = committeeDuty s eval c slot [] #
     (case subCommittees s c of
        Ok subs \<Rightarrow> concat (map (wantedSyncAggregate s eval c slot) subs)
      | _ \<Rightarrow> [])"

definition wanted :: "Scheduler \<Rightarrow> Evaluation \<Rightarrow> Duty list" where
  "wanted s eval =
     map (\<lambda>p. proposalDuty s eval p []) (ev_Proposer eval) @
     concat (map (wantedAttestation s eval) (ev_Attestation eval)) @
     concat (map (\<lambda>c. concat (map (wantedSyncSlot s eval c) (epochSlots (sc_config s) (ev_Epoch eval)))) (ev_Committee eval))"

lemma anon_duties [simp]:
  "anon (proposalDuty s eval p i) = proposalDuty s eval p []"
  "anon (attestationDuty s eval a i) = attestationDuty s eval a []"
  "anon (aggregationDuty s eval a pr i dep) = (aggregationDuty s eval a pr [] [])\<lparr>d_BlockedBy := []\<rparr>"
  "anon (committeeDuty s eval c slot i) = committeeDuty s eval c slot []"
  "anon (syncAggregateDuty s eval c slot index pr i) = syncAggregateDuty s eval c slot index pr []"
  by (simp_all add: anon_def proposalDuty_def attestationDuty_def aggregationDuty_def committeeDuty_def
      syncAggregateDuty_def proto_NewDuty_def)

lemma anon_addAttestation:
  "addAttestation s eval a u = Ok v \<Longrightarrow> map anon v = map anon u @ wantedAttestation s eval a"
  by (auto simp: addAttestation_def wantedAttestation_def Let_def outcome_simps split: if_splits)

lemma anon_addSyncSlot:
  assumes "addSyncSlot s eval c slot u = Ok v"
  shows "map anon v = map anon u @ wantedSyncSlot s eval c slot"
proof -
  obtain subs where subs: "subCommittees s c = Ok subs"
    and f: "ofold (addSyncAggregate s eval c slot) subs (u @ [committeeDuty s eval c slot (nextId s u)]) = Ok v"
    using assms by (auto simp: addSyncSlot_def Let_def outcome_simps)
  have "map anon v = map anon (u @ [committeeDuty s eval c slot (nextId s u)]) @
      concat (map (wantedSyncAggregate s eval c slot) subs)"
    by (rule ofold_map [OF f])
      (auto simp: addSyncAggregate_def wantedSyncAggregate_def outcome_simps split: if_splits)
  then show ?thesis by (simp add: wantedSyncSlot_def subs)
qed

lemma anon_allDuties:
  assumes "allDuties s eval = Ok ds"
  shows "map anon ds = wanted s eval"
proof -
  obtain ds1 ds2 where f: "ofold (addProposal s eval) (ev_Proposer eval) [] = Ok ds1"
      "ofold (addAttestation s eval) (ev_Attestation eval) ds1 = Ok ds2"
      "ofold (addCommittee s eval) (ev_Committee eval) ds2 = Ok ds"
    using assms by (auto simp: allDuties_def outcome_simps)
  have "map anon ds1 = map anon [] @ concat (map (\<lambda>p. [proposalDuty s eval p []]) (ev_Proposer eval))"
    by (rule ofold_map [OF f(1)]) (auto simp: addProposal_def)
  moreover have "map anon ds2 = map anon ds1 @ concat (map (wantedAttestation s eval) (ev_Attestation eval))"
    by (rule ofold_map [OF f(2) anon_addAttestation])
  moreover have "map anon ds = map anon ds2 @
      concat (map (\<lambda>c. concat (map (wantedSyncSlot s eval c) (epochSlots (sc_config s) (ev_Epoch eval)))) (ev_Committee eval))"
    by (rule ofold_map [OF f(3)]) (auto simp: addCommittee_def intro: ofold_map anon_addSyncSlot)
  ultimately show ?thesis by (simp add: wanted_def)
qed

lemma anon_frame [simp]: "d_ActiveTime (anon d) = d_ActiveTime d" "finishDuty cfg eval (anon d) = anon (finishDuty cfg eval d)"
  by (simp_all add: anon_def finishDuty_def)

lemma Process_anon:
  assumes "Process s eval = Ok plan"
  shows "map anon (p_Duties plan) =
    map (finishDuty (sc_config s) eval) (filter (\<lambda>d. After (AsTime (d_ActiveTime d)) (sc_now s)) (wanted s eval))"
proof -
  obtain ds where ds: "allDuties s eval = Ok ds"
      "p_Duties plan = map (finishDuty (sc_config s) eval) (cleanDuties (sc_now s) ds)"
    using assms by (auto simp: Process_def outcome_simps)
  have "filter (\<lambda>d. After (AsTime (d_ActiveTime d)) (sc_now s)) (map anon ds) = map anon (cleanDuties (sc_now s) ds)"
    by (simp add: filter_map o_def cleanDuties_def)
  moreover have "map anon (p_Duties plan) = map (finishDuty (sc_config s) eval) (map anon (cleanDuties (sc_now s) ds))"
    by (simp add: ds(2))
  ultimately show ?thesis
    by (simp only: anon_allDuties [OF ds(1)])
qed

text \<open>
  C9: a plan holds, in order and ids and dependencies apart, exactly the duties that the evaluation
  asks for and whose time is still to come: one proposal for each proposer assignment, for each
  attester assignment an attestation and, if the validator is an aggregator, an aggregation, and for
  each member of the sync committee and each slot of the epoch a message and the aggregations.
\<close>

theorem Process_exact:
  assumes "Process s eval = Ok plan"
  shows "map anon (p_Duties plan) =
    map (finishDuty (sc_config s) eval) (filter (\<lambda>d. After (AsTime (d_ActiveTime d)) (sc_now s)) (wanted s eval))"
  by (rule Process_anon [OF assms])

text \<open>A configuration with one proposer and one attester, for a validator that aggregates.\<close>

definition demo_State :: SchedState where
  "demo_State = \<lparr>st_GetValidatorsActiveAt = \<lambda>_. Ok [\<lparr>v_PubKey = ''aa'', v_PrivKey = ''01'',
       v_Metadata = Some \<lparr>vm_Index = 7, vm_ActivationEpoch = 0\<rparr>\<rparr>],
     st_Sign = \<lambda>_ _ _ _. Ok (replicate 96 1), st_DutyByID = \<lambda>_. Ok None, st_Genesis = 0\<rparr>"

definition demo_Api :: Api where
  "demo_Api = NullAPI\<lparr>
     api_GetAttesterDuties := \<lambda>_ _. Ok [\<lparr>ad_ValidatorIndex = 7, ad_Slot = 1, ad_CommitteeIndex = 3,
       ad_CommitteeLength = 5, ad_CommitteeAtSlot = 4\<rparr>],
     api_GetProposerDuties := \<lambda>_. Ok [\<lparr>pd_ValidatorIndex = 7, pd_Slot = 2\<rparr>, \<lparr>pd_ValidatorIndex = 8, pd_Slot = 3\<rparr>],
     api_GetCommitteeSyncDuties := \<lambda>_ _. Ok []\<rparr>"

definition demo_Scheduler :: "gotime \<Rightarrow> Scheduler" where
  "demo_Scheduler now = \<lparr>sc_state = demo_State, sc_config = demo_Spec, sc_client = demo_Api, sc_Sum256 = \<lambda>_. replicate 32 0,
     sc_SelectionRoot = \<lambda>_. Ok [], sc_ids = \<lambda>n. replicate n (CHR ''x''), sc_order = \<lambda>xs. xs, sc_now = now\<rparr>"

theorem isAttestatorAggregate_rule_witness:
  "isAttestatorAggregate (demo_Scheduler 0) 0 31 1 7 = Ok (True, replicate 96 1)"
proof -
  have T: "TargetAggregatorsPerCommittee (sc_config (demo_Scheduler 0)) = 16"
    by (simp add: demo_Scheduler_def demo_Spec_def)
  have "st_Sign (sc_state (demo_Scheduler 0)) DomainSelectionProofType 0 7 (Uint64SSZ 1) = Ok (replicate 96 1)"
    by (simp add: demo_Scheduler_def demo_State_def)
  then have yes: "isAttestatorAggregate (demo_Scheduler 0) 0 31 1 7 = Ok (x, replicate 96 1) \<Longrightarrow> x" for x
    using isAttestatorAggregate_rule [of "demo_Scheduler 0" 0 31 1 7] by (simp add: T)
  have "\<exists>x. isAttestatorAggregate (demo_Scheduler 0) 0 31 1 7 = Ok (x, replicate 96 1)"
    by (simp add: isAttestatorAggregate_def T go_div_def demo_Scheduler_def demo_State_def demo_Spec_def) (rule exI [of _ True], simp)
  then obtain x where x: "isAttestatorAggregate (demo_Scheduler 0) 0 31 1 7 = Ok (x, replicate 96 1)" by (elim exE)
  then show ?thesis using yes [OF x] by simp
qed

definition demo_eval :: Evaluation where
  "demo_eval = \<lparr>ev_Epoch = 0,
     ev_Attestation = [\<lparr>ad_ValidatorIndex = 7, ad_Slot = 1, ad_CommitteeIndex = 3, ad_CommitteeLength = 5, ad_CommitteeAtSlot = 4\<rparr>],
     ev_Proposer = [\<lparr>pd_ValidatorIndex = 7, pd_Slot = 2\<rparr>], ev_Committee = [], ev_GenesisTime = 0\<rparr>"

lemma demo_Process:
  "Process (demo_Scheduler now) demo_eval = Ok \<lparr>p_Duties = map (finishDuty demo_Spec demo_eval) (cleanDuties now
     [proposalDuty (demo_Scheduler now) demo_eval \<lparr>pd_ValidatorIndex = 7, pd_Slot = 2\<rparr> [],
      attestationDuty (demo_Scheduler now) demo_eval (hd (ev_Attestation demo_eval)) ''x'',
      aggregationDuty (demo_Scheduler now) demo_eval (hd (ev_Attestation demo_eval)) (replicate 96 1) ''xx'' ''x''])\<rparr>"
  by (simp add: Process_def allDuties_def demo_eval_def addProposal_def addAttestation_def nextId_def demo_Scheduler_def
      isAttestatorAggregate_def go_div_def demo_State_def demo_Spec_def of_le64_def Let_def attestationDuty_def)

theorem Process_exact_witness:
  "\<exists>plan. Process (demo_Scheduler 0) demo_eval = Ok plan \<and> length (p_Duties plan) = length (filter
     (\<lambda>d. After (AsTime (d_ActiveTime d)) 0) (wanted (demo_Scheduler 0) demo_eval))"
proof -
  obtain plan where p: "Process (demo_Scheduler 0) demo_eval = Ok plan" using demo_Process by blast
  have "length (map anon (p_Duties plan)) = length (filter (\<lambda>d. After (AsTime (d_ActiveTime d)) 0) (wanted (demo_Scheduler 0) demo_eval))"
    unfolding Process_exact [OF p] by (simp add: demo_Scheduler_def)
  then show ?thesis using p by auto
qed

lemma wanted_epoch: "d \<in> set (wanted s eval) \<Longrightarrow> d_Epoch d = ev_Epoch eval"
  by (auto simp: wanted_def wantedAttestation_def wantedSyncSlot_def wantedSyncAggregate_def proposalDuty_def
      attestationDuty_def aggregationDuty_def committeeDuty_def syncAggregateDuty_def
      split: outcome.splits bool.splits prod.splits)

lemma wanted_proposal:
  "d \<in> set (wanted s eval) \<Longrightarrow> d_Job d = Some (Job_BlockProposal x) \<Longrightarrow>
   \<exists>p \<in> set (ev_Proposer eval). d = proposalDuty s eval p []"
  by (auto simp: wanted_def wantedAttestation_def wantedSyncSlot_def wantedSyncAggregate_def
      attestationDuty_def aggregationDuty_def committeeDuty_def syncAggregateDuty_def
      split: outcome.splits bool.splits prod.splits)

lemma Process_member:
  assumes "Process s eval = Ok plan" "d \<in> set (p_Duties plan)"
  shows "\<exists>e \<in> set (wanted s eval). anon d = finishDuty (sc_config s) eval e \<and> After (AsTime (d_ActiveTime e)) (sc_now s)"
proof -
  have "anon d \<in> set (map anon (p_Duties plan))" using assms(2) by simp
  then show ?thesis unfolding Process_anon [OF assms(1)] by auto
qed

lemma anon_fields: "d_Epoch (anon d) = d_Epoch d" "d_State (anon d) = d_State d" "d_Fork (anon d) = d_Fork d"
  "d_Job (anon d) = d_Job d" "d_ValidatorIndex (anon d) = d_ValidatorIndex d" "d_Slot (anon d) = d_Slot d"
  "d_Result (anon d) = d_Result d"
  by (simp_all add: anon_def)

text \<open>
  C16: a plan for an epoch holds only pending duties of that epoch, with the fork the epoch is in,
  that start after the present; and it proposes blocks only for validators that are active at that
  epoch, whatever proposers the beacon node names.
\<close>

theorem HandleEpoch_own_duties:
  assumes "HandleEpoch s epoch = Ok plan" "d \<in> set (p_Duties plan)"
  shows "d_Epoch d = epoch \<and> d_State d = Duty_PENDING \<and> d_Fork d = duty_fork (sc_config s) epoch \<and>
    sc_now s < AsTime (d_ActiveTime d) \<and>
    (Duty_Type d = Ok DutyBlockProposal \<longrightarrow> (\<exists>vals v m. st_GetValidatorsActiveAt (sc_state s) epoch = Ok vals \<and>
       v \<in> set vals \<and> v_Metadata v = Some m \<and> vm_Index m = d_ValidatorIndex d))"
proof -
  obtain vals metas att pro com where h: "st_GetValidatorsActiveAt (sc_state s) epoch = Ok vals"
      "omap (\<lambda>val. deref (v_Metadata val)) vals = Ok metas"
      "Process s \<lparr>ev_Epoch = epoch, ev_Attestation = att,
         ev_Proposer = filter (\<lambda>d. pd_ValidatorIndex d \<in> set (map vm_Index metas)) pro, ev_Committee = com,
         ev_GenesisTime = st_Genesis (sc_state s)\<rparr> = Ok plan"
    using assms(1) by (auto simp: HandleEpoch_def outcome_simps Let_def)
  let ?eval = "\<lparr>ev_Epoch = epoch, ev_Attestation = att,
         ev_Proposer = filter (\<lambda>d. pd_ValidatorIndex d \<in> set (map vm_Index metas)) pro, ev_Committee = com,
         ev_GenesisTime = st_Genesis (sc_state s)\<rparr>"
  obtain e where e: "e \<in> set (wanted s ?eval)" "anon d = finishDuty (sc_config s) ?eval e"
      "After (AsTime (d_ActiveTime e)) (sc_now s)"
    using Process_member [OF h(3) assms(2)] by blast
  have f: "d_Epoch d = d_Epoch e" "d_State d = Duty_PENDING" "d_Fork d = duty_fork (sc_config s) epoch"
    "d_Job d = d_Job e" "d_ValidatorIndex d = d_ValidatorIndex e" "d_ActiveTime d = d_ActiveTime e"
    using e(2) anon_fields [of d] anon_frame(1) [of d] by (simp_all add: finishDuty_def)
  have "\<exists>v \<in> set vals. \<exists>m. v_Metadata v = Some m \<and> vm_Index m = d_ValidatorIndex d"
    if t: "Duty_Type d = Ok DutyBlockProposal"
  proof -
    obtain x where "d_Job e = Some (Job_BlockProposal x)" using Duty_Type_cases [OF t] f(4) by auto
    then obtain p where "p \<in> set (ev_Proposer ?eval)" "e = proposalDuty s ?eval p []"
      using wanted_proposal [OF e(1)] by blast
    then obtain m where m: "m \<in> set metas" "vm_Index m = d_ValidatorIndex d"
      by (auto simp: f(5) proposalDuty_def)
    then obtain k where "k < length metas" "metas ! k = m" by (auto simp: in_set_conv_nth)
    then have "k < length vals" "deref (v_Metadata (vals ! k)) = Ok m"
      using h(2) by (auto simp: omap_Ok_iff list_all2_conv_all_nth)
    then show ?thesis using m(2) by (auto simp: outcome_simps intro: nth_mem)
  qed
  then show ?thesis
    using f e(3) wanted_epoch [OF e(1)] h(1) by (auto simp: After_def)
qed

lemma demo_HandleEpoch: "HandleEpoch (demo_Scheduler now) 0 = Process (demo_Scheduler now) demo_eval"
  by (simp add: HandleEpoch_def demo_Scheduler_def demo_State_def demo_Api_def demo_eval_def)

theorem HandleEpoch_own_duties_witness:
  "\<exists>plan d. HandleEpoch (demo_Scheduler 0) 0 = Ok plan \<and> d \<in> set (p_Duties plan) \<and> d_State d = Duty_PENDING"
proof -
  have "After (AsTime (d_ActiveTime (proposalDuty (demo_Scheduler 0) demo_eval \<lparr>pd_ValidatorIndex = 7, pd_Slot = 2\<rparr> []))) 0"
    by (simp add: proposalDuty_def demo_Scheduler_def demo_eval_def atSlot_def demo_Spec_def After_def time_Add_def Second_def)
  then obtain plan d where "HandleEpoch (demo_Scheduler 0) 0 = Ok plan" "d \<in> set (p_Duties plan)"
    using demo_HandleEpoch [of 0] demo_Process [of 0] by (fastforce simp: cleanDuties_def)
  then show ?thesis using HandleEpoch_own_duties by blast
qed

end
