(* ===== verification/Bitlist.thy ===== *)
theory Bitlist
  imports Prelude
begin

unbundle bit_operations_syntax

text \<open>
  The SSZ bit list of \<open>internal/bitlist/bitlist.go\<close>: bytes in little-endian bit order whose
  most significant set bit of the last byte is a delimiter that marks the length.  The byte
  slice is mutated in place in Go; here \<open>SetBitAt\<close> returns the new slice.
\<close>

type_synonym BitList = bytes

text \<open>\<open>bits.Len8\<close> of the standard library: the number of bits needed to write the byte.\<close>

fun len_bits :: "nat \<Rightarrow> uint8 \<Rightarrow> nat" where
  "len_bits 0 w = 0"
| "len_bits (Suc k) w = (if bit w k then Suc k else len_bits k w)"

definition Len8 :: "uint8 \<Rightarrow> nat" where
  "Len8 w = len_bits 8 w"

definition bit_mask :: "uint64 \<Rightarrow> uint8" where
  "bit_mask i = push_bit (unat (i mod 8)) 1"

definition NewBitlist :: "uint64 \<Rightarrow> BitList" where
  "NewBitlist n =
     (let ret = replicate (unat (n div 8 + 1)) 0; k = unat (n div 8)
      in ret[k := ret ! k OR bit_mask n])"

definition Len :: "BitList \<Rightarrow> uint64" where
  "Len b =
     (if length b = 0 then 0
      else let msb = Len8 (b ! (length b - 1))
           in if msb = 0 then 0 else of_nat (8 * (length b - 1) + msb - 1))"

definition SetBitAt :: "BitList \<Rightarrow> uint64 \<Rightarrow> bool \<Rightarrow> BitList" where
  "SetBitAt b indx val =
     (if Len b \<le> indx then b
      else let k = unat (indx div 8); m = bit_mask indx
           in if val then b[k := b ! k OR m] else b[k := b ! k AND NOT m])"

definition BitAt :: "BitList \<Rightarrow> uint64 \<Rightarrow> bool" where
  "BitAt b indx =
     (if Len b \<le> indx then False
      else b ! unat (indx div 8) AND bit_mask indx = bit_mask indx)"

definition Copy :: "BitList \<Rightarrow> BitList" where
  "Copy b = b"

definition Equal :: "BitList \<Rightarrow> BitList \<Rightarrow> bool" where
  "Equal b bb \<longleftrightarrow> b = bb"

section \<open>Bytes and their bits\<close>

lemma len_bits_le: "len_bits n w \<le> n"
  by (induction n) auto

lemma len_bits_bit: "len_bits n w = Suc k \<Longrightarrow> bit w k"
  by (induction n) (auto split: if_splits)

lemma len_bits_above: "len_bits n w \<le> k \<Longrightarrow> k < n \<Longrightarrow> \<not> bit w k"
proof (induction n)
  case (Suc n)
  then show ?case by (cases "k = n") (auto split: if_splits)
qed simp

lemma len_bits_unique: "bit w k \<Longrightarrow> k < n \<Longrightarrow> (\<And>j. k < j \<Longrightarrow> j < n \<Longrightarrow> \<not> bit w j) \<Longrightarrow> len_bits n w = Suc k"
proof (induction n)
  case (Suc n)
  then show ?case by (cases "k = n") auto
qed simp

lemma bit_bit_mask: "bit (bit_mask i) k \<longleftrightarrow> k = unat (i mod 8)"
proof -
  have "unat (i mod 8) < 8"
    by (simp add: unat_mod)
  then show ?thesis
    by (auto simp: bit_mask_def bit_simps)
qed

lemma and_mask_eq: "w AND bit_mask i = bit_mask i \<longleftrightarrow> bit w (unat (i mod 8))"
proof
  assume "w AND bit_mask i = bit_mask i"
  then have "bit (w AND bit_mask i) (unat (i mod 8))"
    by (simp add: bit_bit_mask)
  then show "bit w (unat (i mod 8))"
    by (simp add: bit_simps)
next
  assume "bit w (unat (i mod 8))"
  then show "w AND bit_mask i = bit_mask i"
    by (auto intro!: bit_word_eqI simp: bit_simps bit_bit_mask)
qed

lemma BitAt_bit:
  "BitAt b i \<longleftrightarrow> i < Len b \<and> bit (b ! unat (i div 8)) (unat (i mod 8))"
  by (auto simp: BitAt_def and_mask_eq not_le)

lemma word_mod_8_less [simp]: "unat ((i :: uint64) mod 8) < 8"
  by (simp add: unat_mod)

lemma word_split_8: "8 * unat ((i :: uint64) div 8) + unat (i mod 8) = unat i"
  by (simp add: unat_div unat_mod)

section \<open>The length and the bits of a bit list\<close>

text \<open>The delimiter: the last byte holds its most significant bit at \<open>m\<close>.\<close>

lemma Len_delimiter:
  assumes "b \<noteq> []" "Len8 (b ! (length b - 1)) = Suc m"
  shows "Len b = of_nat (8 * (length b - 1) + m)"
  using assms by (simp add: Len_def)

lemma Len_pos_delimiter:
  assumes "i < Len b"
  obtains m where "b \<noteq> []" "Len8 (b ! (length b - 1)) = Suc m" "m < 8"
    "unat i < 8 * (length b - 1) + m"
proof -
  have ne: "b \<noteq> []"
    using assms by (auto simp: Len_def)
  have "Len8 (b ! (length b - 1)) \<noteq> 0"
  proof
    assume "Len8 (b ! (length b - 1)) = 0"
    then have "Len b = 0" by (simp add: Len_def Let_def)
    with assms show False by simp
  qed
  then obtain m where m: "Len8 (b ! (length b - 1)) = Suc m"
    by (cases "Len8 (b ! (length b - 1))") auto
  have "m < 8"
    using m len_bits_le [of 8 "b ! (length b - 1)"] by (simp add: Len8_def)
  moreover have "unat i < 8 * (length b - 1) + m"
  proof -
    have "unat i < unat (of_nat (8 * (length b - 1) + m) :: uint64)"
      using assms unfolding Len_delimiter [OF ne m] by (simp only: word_less_nat_alt)
    also have "\<dots> \<le> 8 * (length b - 1) + m"
      unfolding unat_of_nat by (rule mod_less_eq_dividend)
    finally show ?thesis .
  qed
  ultimately show thesis
    using that ne m by blast
qed

lemma index_in_bounds: "i < Len b \<Longrightarrow> unat (i div 8) < length b"
  by (erule Len_pos_delimiter) (use word_split_8 [of i] in \<open>cases b; fastforce\<close>)

lemma nth_SetBitAt:
  assumes "i < Len b" "k < length b"
  shows "SetBitAt b i v ! k =
    (if k = unat (i div 8) then (if v then b ! k OR bit_mask i else b ! k AND NOT (bit_mask i))
     else b ! k)"
  using assms by (auto simp: SetBitAt_def Let_def nth_list_update not_le)

lemma length_SetBitAt [simp]: "length (SetBitAt b i v) = length b"
  by (simp add: SetBitAt_def Let_def)

lemma bit_SetBitAt:
  assumes "i < Len b" "k < length b" "j < 8"
  shows "bit (SetBitAt b i v ! k) j =
    (if 8 * k + j = unat i then v else bit (b ! k) j)"
proof -
  have "8 * k + j = unat i \<longleftrightarrow> k = unat (i div 8) \<and> j = unat (i mod 8)"
  proof
    assume h: "8 * k + j = unat i"
    show "k = unat (i div 8) \<and> j = unat (i mod 8)"
      using assms(3) by (simp add: unat_div unat_mod flip: h)
  next
    assume "k = unat (i div 8) \<and> j = unat (i mod 8)"
    then show "8 * k + j = unat i"
      by (simp add: word_split_8)
  qed
  then show ?thesis
    using assms by (auto simp: nth_SetBitAt bit_simps bit_bit_mask)
qed

lemma Len_SetBitAt [simp]: "Len (SetBitAt b i v) = Len b"
proof (cases "i < Len b")
  case True
  then obtain m where m: "b \<noteq> []" "Len8 (b ! (length b - 1)) = Suc m" "m < 8"
    "unat i < 8 * (length b - 1) + m"
    by (rule Len_pos_delimiter)
  let ?w = "SetBitAt b i v ! (length b - 1)"
  have low: "bit ?w j = bit (b ! (length b - 1)) j" if "m \<le> j" "j < 8" for j
    using m True that by (subst bit_SetBitAt) auto
  have "bit (b ! (length b - 1)) m"
    using m(2) unfolding Len8_def by (rule len_bits_bit)
  moreover have "\<not> bit (b ! (length b - 1)) j" if "m < j" "j < 8" for j
    using m(2) that len_bits_above [of 8 "b ! (length b - 1)" j] by (simp add: Len8_def)
  ultimately have "Len8 ?w = Suc m"
    unfolding Len8_def using m(3) low by (intro len_bits_unique) auto
  moreover have "SetBitAt b i v \<noteq> []"
    using m(1) by (metis length_0_conv length_SetBitAt)
  ultimately show ?thesis
    using m by (simp add: Len_delimiter)
next
  case False
  then show ?thesis by (simp add: SetBitAt_def not_less)
qed

lemma length_NewBitlist [simp]: "length (NewBitlist n) = Suc (unat (n div 8))"
proof -
  have "unat (n div 8) < 2 ^ 63"
    using unat_less_64 [of n] by (simp add: unat_div)
  then show ?thesis
    by (simp add: NewBitlist_def Let_def unat_word_ariths del: replicate_Suc)
qed

lemma nth_NewBitlist:
  assumes "k \<le> unat (n div 8)"
  shows "NewBitlist n ! k = (if k = unat (n div 8) then bit_mask n else 0)"
proof -
  have "length (replicate (unat (n div 8 + 1)) (0 :: uint8)) = Suc (unat (n div 8))"
    using length_NewBitlist [of n] by (simp add: NewBitlist_def Let_def)
  then show ?thesis
    using assms by (simp add: NewBitlist_def Let_def nth_list_update del: replicate_Suc)
qed

section \<open>Reading back\<close>

lemma NewBitlist_empty: "Len (NewBitlist n) = n \<and> \<not> BitAt (NewBitlist n) i"
proof -
  let ?b = "NewBitlist n"
  have last: "?b ! (length ?b - 1) = bit_mask n" and ne: "?b \<noteq> []"
    by (simp_all add: nth_NewBitlist flip: length_0_conv)
  have "Len8 (bit_mask n) = Suc (unat (n mod 8))"
    unfolding Len8_def by (rule len_bits_unique) (auto simp: bit_bit_mask)
  then have "Len ?b = of_nat (8 * (length ?b - 1) + unat (n mod 8))"
    using ne last by (intro Len_delimiter) simp_all
  also have "\<dots> = n"
    by (simp add: word_split_8)
  finally have len: "Len ?b = n" .
  have "\<not> (i < n \<and> bit (?b ! unat (i div 8)) (unat (i mod 8)))"
  proof (intro notI, elim conjE)
    assume "i < n" and bt: "bit (?b ! unat (i div 8)) (unat (i mod 8))"
    then have lt: "8 * unat (i div 8) + unat (i mod 8) < 8 * unat (n div 8) + unat (n mod 8)"
      by (simp only: word_less_nat_alt word_split_8)
    then have "unat (i div 8) \<le> unat (n div 8)"
      using word_mod_8_less [of n] by linarith
    with bt lt show False
      by (auto simp: nth_NewBitlist bit_bit_mask split: if_splits)
  qed
  with len show ?thesis
    by (simp add: BitAt_bit)
qed

lemma BitAt_SetBitAt_cases:
  "BitAt (SetBitAt b i v) j = (if j = i \<and> i < Len b then v else BitAt b j)
   \<and> Len (SetBitAt b i v) = Len b \<and> (Len b \<le> i \<longrightarrow> SetBitAt b i v = b)"
proof -
  have "BitAt (SetBitAt b i v) j = (if j = i then v else BitAt b j)" if i: "i < Len b"
  proof (cases "j < Len b")
    case True
    have "8 * unat (j div 8) + unat (j mod 8) = unat j"
      using word_split_8 [of j] by simp
    then show ?thesis
      using True i index_in_bounds [OF True] word_mod_8_less [of j]
      by (auto simp: BitAt_bit bit_SetBitAt word_unat_eq_iff)
  next
    case False
    then show ?thesis using i by (auto simp: BitAt_bit)
  qed
  moreover have "SetBitAt b i v = b" if "\<not> i < Len b"
    using that by (simp add: SetBitAt_def not_less)
  ultimately show ?thesis
    by (cases "i < Len b") (auto simp: not_less)
qed

section \<open>Properties\<close>

text \<open>A new bit list has exactly the requested length, for every 64-bit length, and none of
  its bits is set: the delimiter bit is not one of them.\<close>

lemma NewBitlist_correct: "Len (NewBitlist n) = n \<and> \<not> BitAt (NewBitlist n) i"
  by (rule NewBitlist_empty)

text \<open>C29: reading back after a write: the written position holds the written value, every other
  position and the length are untouched, and a write outside the list changes nothing.\<close>

theorem BitAt_SetBitAt:
  "BitAt (SetBitAt b i v) j = (if j = i \<and> i < Len b then v else BitAt b j)
   \<and> Len (SetBitAt b i v) = Len b \<and> (Len b \<le> i \<longrightarrow> SetBitAt b i v = b)"
  by (rule BitAt_SetBitAt_cases)

theorem BitAt_SetBitAt_witness:
  "BitAt (SetBitAt (NewBitlist 10) 3 True) 3 \<and> SetBitAt (NewBitlist 10) 12 True = NewBitlist 10"
proof -
  have len: "Len (NewBitlist 10) = 10" by code_simp
  show ?thesis
    using BitAt_SetBitAt [of "NewBitlist 10" 3 True 3] BitAt_SetBitAt [of "NewBitlist 10" 12 True 3]
    by (simp add: len)
qed

end
