(* ===== verification/Duties.thy ===== *)
theory Duties
  imports Scheduler Bitlist
begin

text \<open>
  The handlers of \<open>internal/scheduler/duties.go\<close>, one for each kind of duty.  A handler asks the
  beacon node and the signer, then publishes a signed object.  It is modelled with the list of the
  signature requests and publications it makes, in order, and its result; queries of the beacon
  node and of the state are not listed.

  The hash tree roots and fixed-size conversions of the consensus library are parameters.
\<close>

section \<open>Actions\<close>

datatype event =
    Ev_Sign DomainType uint64 uint64 bytes
  | Ev_SubmitCommitteeDuties "SyncCommitteeMessage list"
  | Ev_PublishAttestations "Attestation list"
  | Ev_PublishAggregateAndProof "SignedAggregateAndProof list"
  | Ev_SubmitSignedContributionAndProof "SignedContributionAndProof list"
  | Ev_PublishSignedBlock SignedBeaconBlock

type_synonym 'a act = "event list \<times> 'a outcome"

fun abind :: "'a act \<Rightarrow> ('a \<Rightarrow> 'b act) \<Rightarrow> 'b act" where
  "abind (es, Ok v) f = (es @ fst (f v), snd (f v))"
| "abind (es, Err e) f = (es, Err e)"
| "abind (es, Panic m) f = (es, Panic m)"

definition ask :: "'a outcome \<Rightarrow> 'a act" where
  "ask r = ([], r)"

definition perform :: "event \<Rightarrow> 'a outcome \<Rightarrow> 'a act" where
  "perform e r = ([e], r)"

section \<open>The handlers\<close>

record ConsensusLib =
  lib_AttestationDataRoot :: "AttestationData \<Rightarrow> bytes outcome"
  lib_AggregateAndProofRoot :: "AggregateAndProof \<Rightarrow> bytes outcome"
  lib_ContributionAndProofRoot :: "ContributionAndProof \<Rightarrow> bytes outcome"
  lib_BlockRoot :: "BeaconBlock \<Rightarrow> bytes outcome"
  lib_ToBytes32 :: "bytes \<Rightarrow> bytes"
  lib_ToBytes96 :: "bytes \<Rightarrow> bytes"

record DutyLogic =
  du_client :: Api
  du_state :: SchedState
  du_lib :: ConsensusLib

definition NewDuty :: "ConsensusLib \<Rightarrow> Api \<Rightarrow> SchedState \<Rightarrow> DutyLogic" where
  "NewDuty lib client state = \<lparr>du_client = client, du_state = state, du_lib = lib\<rparr>"

definition duty_Sign :: "DutyLogic \<Rightarrow> DomainType \<Rightarrow> uint64 \<Rightarrow> uint64 \<Rightarrow> bytes \<Rightarrow> bytes act" where
  "duty_Sign d domain epoch accountIndex root =
     perform (Ev_Sign domain epoch accountIndex root) (st_Sign (du_state d) domain epoch accountIndex root)"

definition runSyncCommitteeAggregate :: "DutyLogic \<Rightarrow> Duty \<Rightarrow> Duty_Result act" where
  "runSyncCommitteeAggregate d duty =
     (let job = Duty_GetSyncCommitteeAggregate (Some duty) in
     abind (ask (wrap_err ''failed to get head block root'' (api_GetHeadBlockRoot (du_client d)))) (\<lambda>latestRoot.
     abind (ask (deref job)) (\<lambda>j.
     abind (ask (wrap_err ''failed to get sync committee contribution''
       (api_SyncCommitteeContribution (du_client d) (d_Slot duty) (sca_SubCommitteeIndex j) latestRoot))) (\<lambda>contribution.
     let contributionAggregate = \<lparr>cap_AggregatorIndex = d_ValidatorIndex duty, cap_Contribution = contribution,
           cap_SelectionProof = lib_ToBytes96 (du_lib d) (sca_SelectionProof j)\<rparr> in
     abind (ask (lib_ContributionAndProofRoot (du_lib d) contributionAggregate)) (\<lambda>root.
     abind (duty_Sign d DomainContributionAndProof (d_Epoch duty) (d_ValidatorIndex duty) root) (\<lambda>signature.
     let msg = \<lparr>scap_Message = contributionAggregate, scap_Signature = signature\<rparr> in
     abind (perform (Ev_SubmitSignedContributionAndProof [msg])
       (wrap_err ''failed to submit signed committee aggregate proof''
         (api_SubmitSignedContributionAndProof (du_client d) [msg]))) (\<lambda>_.
     ask (Ok (empty_Result\<lparr>res_SyncCommitteeAggregate := Some Duty_SyncCommitteeAggregateResult\<rparr>)))))))))"

definition runSyncCommittee :: "DutyLogic \<Rightarrow> Duty \<Rightarrow> Duty_Result act" where
  "runSyncCommittee d duty =
     abind (ask (wrap_err ''failed to get head block root'' (api_GetHeadBlockRoot (du_client d)))) (\<lambda>latestRoot.
     abind (duty_Sign d DomainSyncCommitteeType (d_Epoch duty) (d_ValidatorIndex duty) (RootSSZ latestRoot)) (\<lambda>signature.
     let committeeDuty = [\<lparr>scm_Slot = d_Slot duty, scm_BlockRoot = latestRoot,
           scm_ValidatorIndex = d_ValidatorIndex duty, scm_Signature = signature\<rparr>] in
     abind (perform (Ev_SubmitCommitteeDuties committeeDuty)
       (wrap_err ''failed to submit committee duties'' (api_SubmitCommitteeDuties (du_client d) committeeDuty))) (\<lambda>_.
     ask (Ok (empty_Result\<lparr>res_SyncCommittee := Some Duty_SyncCommitteeResult\<rparr>)))))"

definition proto_Checkpoint :: "con_Checkpoint \<Rightarrow> Checkpoint" where
  "proto_Checkpoint c = \<lparr>cp_Root = con_Root c, cp_Epoch = con_Epoch c\<rparr>"

definition runSingleAttestation :: "DutyLogic \<Rightarrow> Duty \<Rightarrow> Duty_Result act" where
  "runSingleAttestation d duty =
     (let job = Duty_GetAttestation (Some duty) in
     abind (ask (deref job)) (\<lambda>j.
     abind (ask (wrap_err ''failed to reuest attestation data''
       (api_RequestAttestationData (du_client d) (d_Slot duty) (att_CommitteeIndex j)))) (\<lambda>attestationData.
     abind (ask (lib_AttestationDataRoot (du_lib d) attestationData)) (\<lambda>attestationRoot.
     abind (duty_Sign d DomainBeaconAttesterType (d_Epoch duty) (d_ValidatorIndex duty) attestationRoot) (\<lambda>attestedSignature.
     let bitlist = SetBitAt (NewBitlist (att_CommitteeLength j)) (att_CommitteeIndex j) True;
         attestation = \<lparr>at_Data = attestationData, at_AggregationBits = bitlist, at_Signature = attestedSignature\<rparr> in
     abind (perform (Ev_PublishAttestations [attestation])
       (wrap_err ''failed to publish attestations'' (api_PublishAttestations (du_client d) [attestation]))) (\<lambda>_.
     ask (Ok (empty_Result\<lparr>res_Attestation := Some \<lparr>ar_Root = attestationRoot,
       ar_Source = Some (proto_Checkpoint (atd_Source attestationData)),
       ar_Target = Some (proto_Checkpoint (atd_Target attestationData))\<rparr>\<rparr>))))))))"

definition runAttestationAggregate :: "DutyLogic \<Rightarrow> Duty \<Rightarrow> Duty_Result act" where
  "runAttestationAggregate d duty =
     (let job = Duty_GetAttestationAggregate (Some duty) in
     abind (ask (case d_BlockedBy duty of [] \<Rightarrow> Panic ''index out of range'' | dep # _ \<Rightarrow> Ok dep)) (\<lambda>dep.
     abind (ask (st_DutyByID (du_state d) dep)) (\<lambda>attestation.
     abind (ask (obind (deref attestation) (\<lambda>a. obind (deref (d_Result a)) (\<lambda>r. deref (res_Attestation r))))) (\<lambda>ar.
     abind (ask (wrap_err ''failed to aggregate attestation''
       (api_AggregateAttestation (du_client d) (d_Slot duty) (lib_ToBytes32 (du_lib d) (ar_Root ar))))) (\<lambda>aggregateAttestation.
     abind (ask (deref job)) (\<lambda>j.
     let aggregateAndProof = \<lparr>aap_Index = d_ValidatorIndex duty, aap_Aggregate = aggregateAttestation,
           aap_SelectionProof = lib_ToBytes96 (du_lib d) (agg_SelectionProof j)\<rparr> in
     abind (ask (lib_AggregateAndProofRoot (du_lib d) aggregateAndProof)) (\<lambda>aggregateAndProofRoot.
     abind (duty_Sign d DomainAggregateAndProofType (d_Epoch duty) (d_ValidatorIndex duty) (RootSSZ aggregateAndProofRoot)) (\<lambda>signature.
     let req = [\<lparr>saap_Message = aggregateAndProof, saap_Signature = signature\<rparr>] in
     abind (perform (Ev_PublishAggregateAndProof req)
       (wrap_err ''failed to publish aggregate and proof'' (api_PublishAggregateAndProof (du_client d) req))) (\<lambda>_.
     ask (Ok (empty_Result\<lparr>res_AttestationAggregate := Some Duty_AttestationAggregateResult\<rparr>)))))))))))"

text \<open>The block is allocated for the fork of the duty and filled by \<open>GetBlock\<close>.\<close>

definition block_kind :: "Duty_Fork \<Rightarrow> BlockKind" where
  "block_kind fork = (case fork of Duty_Phase0 \<Rightarrow> BlockPhase0 | _ \<Rightarrow> BlockAltair)"

definition runBlockProposal :: "DutyLogic \<Rightarrow> Duty \<Rightarrow> Duty_Result act" where
  "runBlockProposal d duty =
     abind (duty_Sign d DomainRandaomType (d_Epoch duty) (d_ValidatorIndex duty) (Uint64SSZ (d_Epoch duty))) (\<lambda>randaoReveal.
     abind (ask (wrap_err ''failed to get block''
       (api_GetBlock (du_client d) (block_kind (d_Fork duty)) (d_Slot duty) randaoReveal))) (\<lambda>filled.
     let blk = filled\<lparr>bb_Kind := block_kind (d_Fork duty)\<rparr> in
     abind (ask (lib_BlockRoot (du_lib d) blk)) (\<lambda>blockRoot.
     abind (duty_Sign d DomainBeaconProposerType (d_Epoch duty) (d_ValidatorIndex duty) blockRoot) (\<lambda>blockSignature.
     let signedBlock = \<lparr>sbb_Block = blk, sbb_Signature = blockSignature\<rparr> in
     abind (perform (Ev_PublishSignedBlock signedBlock)
       (wrap_err ''failed to publish block'' (api_PublishSignedBlock (du_client d) signedBlock))) (\<lambda>_.
     ask (Ok (empty_Result\<lparr>res_BlockProposal := Some \<lparr>bpr_Root = bb_StateRoot blk, bpr_Signature = blockSignature\<rparr>\<rparr>)))))))"

definition to_some :: "'a act \<Rightarrow> 'a option act" where
  "to_some a = abind a (\<lambda>v. ask (Ok (Some v)))"

text \<open>Every error of a handler is turned into a panic; a duty without a job returns nil.\<close>

definition Handle :: "DutyLogic \<Rightarrow> Duty \<Rightarrow> Duty_Result option act" where
  "Handle d duty =
     (let (es, r) =
        (case d_Job duty of
           Some (Job_BlockProposal _) \<Rightarrow> to_some (runBlockProposal d duty)
         | Some (Job_Attestation _) \<Rightarrow> to_some (runSingleAttestation d duty)
         | Some (Job_AttestationAggregate _) \<Rightarrow> to_some (runAttestationAggregate d duty)
         | Some (Job_SyncCommittee _) \<Rightarrow> to_some (runSyncCommittee d duty)
         | Some (Job_SyncCommitteeAggregate _) \<Rightarrow> to_some (runSyncCommitteeAggregate d duty)
         | None \<Rightarrow> ask (Ok None))
      in (es, case r of Err e \<Rightarrow> Panic ''failed to handle'' | _ \<Rightarrow> r))"

section \<open>Reading a run\<close>

named_theorems act_simps \<open>events and results of actions\<close>

lemma abind_events [act_simps]:
  "ev \<in> set (fst (abind a f)) \<longleftrightarrow> ev \<in> set (fst a) \<or> (\<exists>v. snd a = Ok v \<and> ev \<in> set (fst (f v)))"
  by (cases a; cases "snd a") auto

lemma abind_Ok [act_simps]: "snd (abind a f) = Ok w \<longleftrightarrow> (\<exists>v. snd a = Ok v \<and> snd (f v) = Ok w)"
  by (cases a; cases "snd a") auto

lemma action_simps [act_simps]:
  "fst (ask r) = []" "snd (ask r) = r" "fst (perform e r) = [e]" "snd (perform e r) = r"
  by (simp_all add: ask_def perform_def)

lemma sign_simps [act_simps]:
  "fst (duty_Sign d dmn ep acct root) = [Ev_Sign dmn ep acct root]"
  "snd (duty_Sign d dmn ep acct root) = st_Sign (du_state d) dmn ep acct root"
  by (simp_all add: duty_Sign_def act_simps)

lemma Handle_events:
  "fst (Handle d duty) =
    (case d_Job duty of
       Some (Job_BlockProposal _) \<Rightarrow> fst (to_some (runBlockProposal d duty))
     | Some (Job_Attestation _) \<Rightarrow> fst (to_some (runSingleAttestation d duty))
     | Some (Job_AttestationAggregate _) \<Rightarrow> fst (to_some (runAttestationAggregate d duty))
     | Some (Job_SyncCommittee _) \<Rightarrow> fst (to_some (runSyncCommittee d duty))
     | Some (Job_SyncCommitteeAggregate _) \<Rightarrow> fst (to_some (runSyncCommitteeAggregate d duty))
     | None \<Rightarrow> [])"
  by (simp add: Handle_def act_simps split_beta Let_def split: option.split isDuty_Job.split)

lemma Handle_Ok:
  "snd (Handle d duty) = Ok res \<longleftrightarrow>
    (case d_Job duty of
       Some (Job_BlockProposal _) \<Rightarrow> snd (to_some (runBlockProposal d duty)) = Ok res
     | Some (Job_Attestation _) \<Rightarrow> snd (to_some (runSingleAttestation d duty)) = Ok res
     | Some (Job_AttestationAggregate _) \<Rightarrow> snd (to_some (runAttestationAggregate d duty)) = Ok res
     | Some (Job_SyncCommittee _) \<Rightarrow> snd (to_some (runSyncCommittee d duty)) = Ok res
     | Some (Job_SyncCommitteeAggregate _) \<Rightarrow> snd (to_some (runSyncCommitteeAggregate d duty)) = Ok res
     | None \<Rightarrow> res = None)"
  by (auto simp: Handle_def act_simps split_beta Let_def split: option.split isDuty_Job.split outcome.splits)

section \<open>What is signed and published\<close>

text \<open>
  Event by event: a signature is asked for the duty's epoch and validator under a domain of the
  kind of the duty; a published object carries the signer's answer for its own hash tree root.
\<close>

definition job_domains :: "Duty \<Rightarrow> DomainType set" where
  "job_domains duty =
     (case d_Job duty of
        Some (Job_BlockProposal _) \<Rightarrow> {DomainRandaomType, DomainBeaconProposerType}
      | Some (Job_Attestation _) \<Rightarrow> {DomainBeaconAttesterType}
      | Some (Job_AttestationAggregate _) \<Rightarrow> {DomainAggregateAndProofType}
      | Some (Job_SyncCommittee _) \<Rightarrow> {DomainSyncCommitteeType}
      | Some (Job_SyncCommitteeAggregate _) \<Rightarrow> {DomainContributionAndProof}
      | None \<Rightarrow> {})"

definition signed_as :: "DutyLogic \<Rightarrow> Duty \<Rightarrow> DomainType \<Rightarrow> bytes outcome \<Rightarrow> bytes \<Rightarrow> bool" where
  "signed_as d duty dmn root sig \<longleftrightarrow> dmn \<in> job_domains duty \<and>
     (\<exists>r. root = Ok r \<and> st_Sign (du_state d) dmn (d_Epoch duty) (d_ValidatorIndex duty) r = Ok sig)"

fun backed :: "DutyLogic \<Rightarrow> Duty \<Rightarrow> event \<Rightarrow> bool" where
  "backed d duty (Ev_Sign dmn epoch acct root) \<longleftrightarrow>
     dmn \<in> job_domains duty \<and> epoch = d_Epoch duty \<and> acct = d_ValidatorIndex duty"
| "backed d duty (Ev_SubmitCommitteeDuties ms) \<longleftrightarrow>
     (\<exists>m. ms = [m] \<and> scm_Slot m = d_Slot duty \<and> scm_ValidatorIndex m = d_ValidatorIndex duty \<and>
        signed_as d duty DomainSyncCommitteeType (Ok (scm_BlockRoot m)) (scm_Signature m))"
| "backed d duty (Ev_PublishAttestations as) \<longleftrightarrow>
     (\<exists>a. as = [a] \<and> signed_as d duty DomainBeaconAttesterType (lib_AttestationDataRoot (du_lib d) (at_Data a)) (at_Signature a))"
| "backed d duty (Ev_PublishAggregateAndProof ps) \<longleftrightarrow>
     (\<exists>p. ps = [p] \<and> aap_Index (saap_Message p) = d_ValidatorIndex duty \<and>
        signed_as d duty DomainAggregateAndProofType (lib_AggregateAndProofRoot (du_lib d) (saap_Message p)) (saap_Signature p))"
| "backed d duty (Ev_SubmitSignedContributionAndProof cs) \<longleftrightarrow>
     (\<exists>c. cs = [c] \<and> cap_AggregatorIndex (scap_Message c) = d_ValidatorIndex duty \<and>
        signed_as d duty DomainContributionAndProof (lib_ContributionAndProofRoot (du_lib d) (scap_Message c)) (scap_Signature c))"
| "backed d duty (Ev_PublishSignedBlock b) \<longleftrightarrow>
     bb_Kind (sbb_Block b) = block_kind (d_Fork duty) \<and>
     signed_as d duty DomainBeaconProposerType (lib_BlockRoot (du_lib d) (sbb_Block b)) (sbb_Signature b)"

lemmas run_defs = runBlockProposal_def runSingleAttestation_def runAttestationAggregate_def
  runSyncCommittee_def runSyncCommitteeAggregate_def to_some_def Let_def

lemma to_some_events: "fst (to_some a) = fst a"
  by (cases a; cases "snd a") (auto simp: to_some_def act_simps)

lemma backed_block:
  "d_Job duty = Some (Job_BlockProposal x) \<Longrightarrow> ev \<in> set (fst (runBlockProposal d duty)) \<Longrightarrow> backed d duty ev"
  by (auto simp: runBlockProposal_def Let_def act_simps outcome_simps job_domains_def signed_as_def)

lemma backed_attestation:
  "d_Job duty = Some (Job_Attestation x) \<Longrightarrow> ev \<in> set (fst (runSingleAttestation d duty)) \<Longrightarrow> backed d duty ev"
  by (auto simp: runSingleAttestation_def Let_def act_simps outcome_simps job_domains_def signed_as_def)

lemma backed_aggregate:
  "d_Job duty = Some (Job_AttestationAggregate x) \<Longrightarrow> ev \<in> set (fst (runAttestationAggregate d duty)) \<Longrightarrow> backed d duty ev"
  by (auto simp: runAttestationAggregate_def Let_def act_simps outcome_simps job_domains_def signed_as_def RootSSZ_def)

lemma backed_sync:
  "d_Job duty = Some (Job_SyncCommittee x) \<Longrightarrow> ev \<in> set (fst (runSyncCommittee d duty)) \<Longrightarrow> backed d duty ev"
  by (auto simp: runSyncCommittee_def Let_def act_simps outcome_simps job_domains_def signed_as_def RootSSZ_def)

lemma backed_contribution:
  "d_Job duty = Some (Job_SyncCommitteeAggregate x) \<Longrightarrow> ev \<in> set (fst (runSyncCommitteeAggregate d duty)) \<Longrightarrow> backed d duty ev"
  by (auto simp: runSyncCommitteeAggregate_def Let_def act_simps outcome_simps job_domains_def signed_as_def)

text \<open>
  C4: whatever the beacon node and the signer answer, a handler asks only for signatures of its own
  validator and epoch under the domains of its kind of duty, and everything it publishes is a single
  object of that validator carrying the signer's signature of that object's own root.
\<close>

theorem Handle_publishes_signed:
  assumes "ev \<in> set (fst (Handle d duty))"
  shows "backed d duty ev"
proof (cases "d_Job duty")
  case None
  then show ?thesis using assms by (simp add: Handle_events)
next
  case (Some j)
  note ev = assms [unfolded Handle_events to_some_events Some]
  show ?thesis
  proof (cases j)
    case (Job_BlockProposal x)
    then show ?thesis using ev Some by (intro backed_block) simp_all
  next
    case (Job_Attestation x)
    then show ?thesis using ev Some by (intro backed_attestation) simp_all
  next
    case (Job_AttestationAggregate x)
    then show ?thesis using ev Some by (intro backed_aggregate) simp_all
  next
    case (Job_SyncCommittee x)
    then show ?thesis using ev Some by (intro backed_sync) simp_all
  next
    case (Job_SyncCommitteeAggregate x)
    then show ?thesis using ev Some by (intro backed_contribution) simp_all
  qed
qed

text \<open>
  C33: \<open>Handle\<close> never returns an error, since it turns every error into a panic; it returns nil
  exactly for a duty without a job, and otherwise, when it returns, a result with the field of the
  kind of the duty set and no other.
\<close>

theorem Handle_result_kind:
  "(\<forall>e. snd (Handle d duty) \<noteq> Err e) \<and>
   (\<forall>res. snd (Handle d duty) = Ok res \<longrightarrow>
      (case d_Job duty of
         None \<Rightarrow> res = None
       | Some (Job_BlockProposal _) \<Rightarrow> (\<exists>b. res = Some (empty_Result\<lparr>res_BlockProposal := Some b\<rparr>))
       | Some (Job_Attestation _) \<Rightarrow> (\<exists>a. res = Some (empty_Result\<lparr>res_Attestation := Some a\<rparr>))
       | Some (Job_AttestationAggregate _) \<Rightarrow>
           res = Some (empty_Result\<lparr>res_AttestationAggregate := Some Duty_AttestationAggregateResult\<rparr>)
       | Some (Job_SyncCommittee _) \<Rightarrow> res = Some (empty_Result\<lparr>res_SyncCommittee := Some Duty_SyncCommitteeResult\<rparr>)
       | Some (Job_SyncCommitteeAggregate _) \<Rightarrow>
           res = Some (empty_Result\<lparr>res_SyncCommitteeAggregate := Some Duty_SyncCommitteeAggregateResult\<rparr>)))"
proof (intro conjI allI impI)
  show "snd (Handle d duty) \<noteq> Err e" for e
    by (simp add: Handle_def Let_def split_beta split: outcome.split)
next
  fix res assume "snd (Handle d duty) = Ok res"
  then show "case d_Job duty of
         None \<Rightarrow> res = None
       | Some (Job_BlockProposal _) \<Rightarrow> (\<exists>b. res = Some (empty_Result\<lparr>res_BlockProposal := Some b\<rparr>))
       | Some (Job_Attestation _) \<Rightarrow> (\<exists>a. res = Some (empty_Result\<lparr>res_Attestation := Some a\<rparr>))
       | Some (Job_AttestationAggregate _) \<Rightarrow>
           res = Some (empty_Result\<lparr>res_AttestationAggregate := Some Duty_AttestationAggregateResult\<rparr>)
       | Some (Job_SyncCommittee _) \<Rightarrow> res = Some (empty_Result\<lparr>res_SyncCommittee := Some Duty_SyncCommitteeResult\<rparr>)
       | Some (Job_SyncCommitteeAggregate _) \<Rightarrow>
           res = Some (empty_Result\<lparr>res_SyncCommitteeAggregate := Some Duty_SyncCommitteeAggregateResult\<rparr>)"
    unfolding Handle_Ok
    by (auto simp: run_defs act_simps split: option.splits isDuty_Job.splits)
qed

lemma GetAttestation_job [simp]:
  "d_Job duty = Some (Job_Attestation p) \<Longrightarrow> Duty_GetAttestation (Some duty) = p"
  by (simp add: Duty_GetAttestation_def Duty_GetJob_def)

text \<open>
  C34: an attestation duty that returns published one attestation, whose data has the root, source and
  target that the result records; its bit list has the length of the committee and exactly the bit at
  the index of the committee set, if that index is below the length, and no bit otherwise.
\<close>

theorem attestation_recorded:
  assumes "snd (Handle d duty) = Ok (Some res)" "d_Job duty = Some (Job_Attestation (Some job))"
  shows "\<exists>a root. Ev_PublishAttestations [a] \<in> set (fst (Handle d duty)) \<and>
    lib_AttestationDataRoot (du_lib d) (at_Data a) = Ok root \<and>
    res_Attestation res = Some \<lparr>ar_Root = root, ar_Source = Some (proto_Checkpoint (atd_Source (at_Data a))),
      ar_Target = Some (proto_Checkpoint (atd_Target (at_Data a)))\<rparr> \<and>
    Len (at_AggregationBits a) = att_CommitteeLength job \<and>
    (\<forall>k. BitAt (at_AggregationBits a) k \<longleftrightarrow> k = att_CommitteeIndex job \<and> k < att_CommitteeLength job)"
proof -
  let ?bits = "SetBitAt (NewBitlist (att_CommitteeLength job)) (att_CommitteeIndex job) True"
  have "snd (to_some (runSingleAttestation d duty)) = Ok (Some res)"
    using assms by (simp add: Handle_Ok)
  then obtain data root sig u where run:
      "api_RequestAttestationData (du_client d) (d_Slot duty) (att_CommitteeIndex job) = Ok data"
      "lib_AttestationDataRoot (du_lib d) data = Ok root"
      "st_Sign (du_state d) DomainBeaconAttesterType (d_Epoch duty) (d_ValidatorIndex duty) root = Ok sig"
      "res = empty_Result\<lparr>res_Attestation := Some \<lparr>ar_Root = root, ar_Source = Some (proto_Checkpoint (atd_Source data)),
         ar_Target = Some (proto_Checkpoint (atd_Target data))\<rparr>\<rparr>"
    using assms(2) by (auto simp: to_some_def runSingleAttestation_def Let_def act_simps outcome_simps)
  let ?a = "\<lparr>at_Data = data, at_AggregationBits = ?bits, at_Signature = sig\<rparr>"
  have "Ev_PublishAttestations [?a] \<in> set (fst (Handle d duty))"
    using assms(2) run(1-3)
    by (simp add: Handle_events to_some_events runSingleAttestation_def Let_def act_simps outcome_simps)
  moreover have "Len ?bits = att_CommitteeLength job"
    using BitAt_SetBitAt_cases NewBitlist_empty by simp
  moreover have "BitAt ?bits k \<longleftrightarrow> k = att_CommitteeIndex job \<and> k < att_CommitteeLength job" for k
    using BitAt_SetBitAt_cases [of "NewBitlist (att_CommitteeLength job)" "att_CommitteeIndex job" True k]
      NewBitlist_empty [of "att_CommitteeLength job"] by auto
  ultimately show ?thesis
    using run(2,4) by (intro exI [of _ ?a] exI [of _ root]) simp
qed

text \<open>
  C35: a block proposal that returns has asked for the randao signature of its epoch, and published one
  block of the type of its fork, Altair for Bellatrix as well; the root that the result records is
  the state root of that block, not the root that was signed.
\<close>

theorem block_recorded:
  assumes "snd (Handle d duty) = Ok (Some res)" "d_Job duty = Some (Job_BlockProposal job)"
  shows "\<exists>b root. Ev_Sign DomainRandaomType (d_Epoch duty) (d_ValidatorIndex duty) (Uint64SSZ (d_Epoch duty)) \<in> set (fst (Handle d duty)) \<and>
    Ev_PublishSignedBlock b \<in> set (fst (Handle d duty)) \<and>
    bb_Kind (sbb_Block b) = (if d_Fork duty = Duty_Phase0 then BlockPhase0 else BlockAltair) \<and>
    lib_BlockRoot (du_lib d) (sbb_Block b) = Ok root \<and>
    Ev_Sign DomainBeaconProposerType (d_Epoch duty) (d_ValidatorIndex duty) root \<in> set (fst (Handle d duty)) \<and>
    res_BlockProposal res = Some \<lparr>bpr_Root = bb_StateRoot (sbb_Block b), bpr_Signature = sbb_Signature b\<rparr>"
proof -
  have "snd (to_some (runBlockProposal d duty)) = Ok (Some res)"
    using assms by (simp add: Handle_Ok)
  then obtain reveal filled root sig where run:
      "st_Sign (du_state d) DomainRandaomType (d_Epoch duty) (d_ValidatorIndex duty) (Uint64SSZ (d_Epoch duty)) = Ok reveal"
      "api_GetBlock (du_client d) (block_kind (d_Fork duty)) (d_Slot duty) reveal = Ok filled"
      "lib_BlockRoot (du_lib d) (filled\<lparr>bb_Kind := block_kind (d_Fork duty)\<rparr>) = Ok root"
      "st_Sign (du_state d) DomainBeaconProposerType (d_Epoch duty) (d_ValidatorIndex duty) root = Ok sig"
      "res = empty_Result\<lparr>res_BlockProposal := Some \<lparr>bpr_Root = bb_StateRoot filled, bpr_Signature = sig\<rparr>\<rparr>"
    by (auto simp: to_some_def runBlockProposal_def Let_def act_simps outcome_simps)
  let ?b = "\<lparr>sbb_Block = filled\<lparr>bb_Kind := block_kind (d_Fork duty)\<rparr>, sbb_Signature = sig\<rparr>"
  have "block_kind (d_Fork duty) = (if d_Fork duty = Duty_Phase0 then BlockPhase0 else BlockAltair)"
    by (simp add: block_kind_def split: Duty_Fork.split)
  then show ?thesis
    using assms(2) run
    by (intro exI [of _ ?b] exI [of _ root])
      (simp add: Handle_events to_some_events runBlockProposal_def Let_def act_simps outcome_simps)
qed

section \<open>Concrete runs\<close>

definition demo_data :: AttestationData where
  "demo_data = \<lparr>atd_Source = \<lparr>con_Epoch = 3, con_Root = [1]\<rparr>, atd_Target = \<lparr>con_Epoch = 4, con_Root = [2]\<rparr>, atd_rest = []\<rparr>"

definition demo_Logic :: DutyLogic where
  "demo_Logic = \<lparr>du_client = NullAPI\<lparr>
       api_RequestAttestationData := \<lambda>_ _. Ok demo_data, api_PublishAttestations := \<lambda>_. Ok (),
       api_GetBlock := \<lambda>k _ _. Ok \<lparr>bb_Kind = k, bb_StateRoot = [9], bb_rest = []\<rparr>, api_PublishSignedBlock := \<lambda>_. Ok ()\<rparr>,
     du_state = demo_State,
     du_lib = \<lparr>lib_AttestationDataRoot = \<lambda>_. Ok [5], lib_AggregateAndProofRoot = \<lambda>_. Ok [6],
       lib_ContributionAndProofRoot = \<lambda>_. Ok [7], lib_BlockRoot = \<lambda>_. Ok [8], lib_ToBytes32 = \<lambda>x. x, lib_ToBytes96 = \<lambda>x. x\<rparr>\<rparr>"

definition demo_job :: Duty_Attestation where
  "demo_job = \<lparr>att_CommitteeIndex = 3, att_CommitteeLength = 5, att_CommitteesAtSlot = 4\<rparr>"

definition demo_attestation :: Duty where
  "demo_attestation = proto_NewDuty\<lparr>d_ValidatorIndex := 7, d_Job := Some (Job_Attestation (Some demo_job))\<rparr>"

definition demo_proposal :: Duty where
  "demo_proposal = proto_NewDuty\<lparr>d_ValidatorIndex := 7, d_Fork := Duty_Bellatrix, d_Job := Some (Job_BlockProposal None)\<rparr>"

lemma demo_attestation_run:
  "Handle demo_Logic demo_attestation =
    ([Ev_Sign DomainBeaconAttesterType 0 7 [5],
      Ev_PublishAttestations [\<lparr>at_Data = demo_data, at_AggregationBits = SetBitAt (NewBitlist 5) 3 True, at_Signature = replicate 96 1\<rparr>]],
     Ok (Some (empty_Result\<lparr>res_Attestation := Some \<lparr>ar_Root = [5], ar_Source = Some \<lparr>cp_Root = [1], cp_Epoch = 3\<rparr>,
        ar_Target = Some \<lparr>cp_Root = [2], cp_Epoch = 4\<rparr>\<rparr>\<rparr>)))"
  by (simp add: Handle_def run_defs ask_def perform_def duty_Sign_def demo_Logic_def demo_attestation_def demo_State_def
      Duty_GetAttestation_def Duty_GetJob_def demo_job_def proto_NewDuty_def proto_Checkpoint_def demo_data_def)

lemma demo_proposal_run:
  "Handle demo_Logic demo_proposal =
    ([Ev_Sign DomainRandaomType 0 7 (Uint64SSZ 0), Ev_Sign DomainBeaconProposerType 0 7 [8],
      Ev_PublishSignedBlock \<lparr>sbb_Block = \<lparr>bb_Kind = BlockAltair, bb_StateRoot = [9], bb_rest = []\<rparr>, sbb_Signature = replicate 96 1\<rparr>],
     Ok (Some (empty_Result\<lparr>res_BlockProposal := Some \<lparr>bpr_Root = [9], bpr_Signature = replicate 96 1\<rparr>\<rparr>)))"
  by (simp add: Handle_def run_defs ask_def perform_def duty_Sign_def demo_Logic_def demo_proposal_def demo_State_def
      proto_NewDuty_def block_kind_def)

theorem Handle_publishes_signed_witness:
  "backed demo_Logic demo_proposal (Ev_PublishSignedBlock \<lparr>sbb_Block = \<lparr>bb_Kind = BlockAltair, bb_StateRoot = [9], bb_rest = []\<rparr>,
     sbb_Signature = replicate 96 1\<rparr>)"
  by (rule Handle_publishes_signed) (simp add: demo_proposal_run)

theorem Handle_result_kind_witness:
  "snd (Handle demo_Logic demo_proposal) = Ok (Some (empty_Result\<lparr>res_BlockProposal := Some \<lparr>bpr_Root = [9], bpr_Signature = replicate 96 1\<rparr>\<rparr>)) \<and>
   (\<exists>b. Some (empty_Result\<lparr>res_BlockProposal := Some \<lparr>bpr_Root = [9], bpr_Signature = replicate 96 1\<rparr>\<rparr>)
      = Some (empty_Result\<lparr>res_BlockProposal := Some b\<rparr>))"
proof -
  have run: "snd (Handle demo_Logic demo_proposal) = Ok (Some (empty_Result\<lparr>res_BlockProposal := Some \<lparr>bpr_Root = [9], bpr_Signature = replicate 96 1\<rparr>\<rparr>))"
    by (simp add: demo_proposal_run)
  moreover have "d_Job demo_proposal = Some (Job_BlockProposal None)" by (simp add: demo_proposal_def)
  ultimately show ?thesis
    using Handle_result_kind [of demo_Logic demo_proposal, THEN conjunct2, rule_format, OF run] by simp
qed

theorem attestation_recorded_witness:
  "\<exists>a. Ev_PublishAttestations [a] \<in> set (fst (Handle demo_Logic demo_attestation)) \<and>
    BitAt (at_AggregationBits a) 3 \<and> \<not> BitAt (at_AggregationBits a) 0"
proof -
  have "snd (Handle demo_Logic demo_attestation) = Ok (Some (empty_Result\<lparr>res_Attestation := Some \<lparr>ar_Root = [5],
      ar_Source = Some \<lparr>cp_Root = [1], cp_Epoch = 3\<rparr>, ar_Target = Some \<lparr>cp_Root = [2], cp_Epoch = 4\<rparr>\<rparr>\<rparr>))"
    by (simp add: demo_attestation_run)
  moreover have "d_Job demo_attestation = Some (Job_Attestation (Some demo_job))" by (simp add: demo_attestation_def)
  ultimately obtain a where "Ev_PublishAttestations [a] \<in> set (fst (Handle demo_Logic demo_attestation))"
      "\<forall>k. BitAt (at_AggregationBits a) k \<longleftrightarrow> k = att_CommitteeIndex demo_job \<and> k < att_CommitteeLength demo_job"
    using attestation_recorded [of demo_Logic demo_attestation] by blast
  then show ?thesis by (intro exI [of _ a]) (simp add: demo_job_def)
qed

theorem block_recorded_witness:
  "\<exists>b. Ev_PublishSignedBlock b \<in> set (fst (Handle demo_Logic demo_proposal)) \<and> bb_Kind (sbb_Block b) = BlockAltair"
proof -
  have "snd (Handle demo_Logic demo_proposal) = Ok (Some (empty_Result\<lparr>res_BlockProposal := Some \<lparr>bpr_Root = [9], bpr_Signature = replicate 96 1\<rparr>\<rparr>))"
    by (simp add: demo_proposal_run)
  moreover have "d_Job demo_proposal = Some (Job_BlockProposal None)" "d_Fork demo_proposal = Duty_Bellatrix"
    by (simp_all add: demo_proposal_def)
  ultimately show ?thesis
    using block_recorded [of demo_Logic demo_proposal] by fastforce
qed

end
