(* ===== verification/GoHeap.thy ===== *)
theory GoHeap
  imports Prelude
begin

text \<open>
  The algorithms of Go's \<open>container/heap\<close>, which \<open>internal/delayheap\<close> drives through the
  \<open>heap.Interface\<close> methods \<open>Len\<close>, \<open>Less\<close>, \<open>Swap\<close>, \<open>Push\<close> and \<open>Pop\<close>.  As in Go they are
  written once over any container; the locale \<open>heap_container\<close> states what the container's
  methods promise, and the heap property is proved from that.
\<close>

section \<open>The algorithms\<close>

definition parent :: "nat \<Rightarrow> nat" where
  "parent j = (j - 1) div 2"

function heap_up :: "('h \<Rightarrow> nat \<Rightarrow> nat \<Rightarrow> bool) \<Rightarrow> ('h \<Rightarrow> nat \<Rightarrow> nat \<Rightarrow> 'h) \<Rightarrow> 'h \<Rightarrow> nat \<Rightarrow> 'h" where
  "heap_up lss swp h j =
     (let i = parent j
      in if i = j \<or> \<not> lss h j i then h else heap_up lss swp (swp h i j) i)"
  by pat_completeness auto
termination
  by (relation "measure (\<lambda>(lss, swp, h, j). j)") (auto simp: parent_def)

text \<open>\<open>down\<close> returns the container and the final position; Go returns whether that is greater
  than the first one.\<close>

function heap_down :: "('h \<Rightarrow> nat \<Rightarrow> nat \<Rightarrow> bool) \<Rightarrow> ('h \<Rightarrow> nat \<Rightarrow> nat \<Rightarrow> 'h) \<Rightarrow> 'h \<Rightarrow> nat \<Rightarrow> nat \<Rightarrow> 'h \<times> nat" where
  "heap_down lss swp h i n =
     (let j1 = 2 * i + 1
      in if n \<le> j1 then (h, i)
         else let j2 = j1 + 1; j = (if j2 < n \<and> lss h j2 j1 then j2 else j1)
              in if \<not> lss h j i then (h, i) else heap_down lss swp (swp h i j) j n)"
  by pat_completeness auto
termination
  by (relation "measure (\<lambda>(lss, swp, h, i, n). n - i)") auto

declare heap_up.simps [simp del] heap_down.simps [simp del]

definition heap_fix :: "('h \<Rightarrow> nat \<Rightarrow> nat \<Rightarrow> bool) \<Rightarrow> ('h \<Rightarrow> nat \<Rightarrow> nat \<Rightarrow> 'h) \<Rightarrow> 'h \<Rightarrow> nat \<Rightarrow> nat \<Rightarrow> 'h" where
  "heap_fix lss swp h i n =
     (let (h', i') = heap_down lss swp h i n
      in if i < i' then h' else heap_up lss swp h' i)"

text \<open>What a swap keeps, the algorithms keep.\<close>

lemma heap_up_preserves:
  "(\<And>h i j. P h \<Longrightarrow> P (swp h i j)) \<Longrightarrow> P h \<Longrightarrow> P (heap_up lss swp h j)"
proof (induction lss swp h j rule: heap_up.induct)
  case (1 lss swp h j)
  then show ?case
    by (subst heap_up.simps) (simp add: Let_def)
qed

lemma heap_down_preserves:
  "(\<And>h i j. P h \<Longrightarrow> P (swp h i j)) \<Longrightarrow> P h \<Longrightarrow> P (fst (heap_down lss swp h i n))"
proof (induction lss swp h i n rule: heap_down.induct)
  case (1 lss swp h i n)
  then show ?case
    by (subst heap_down.simps) (simp add: Let_def)
qed

section \<open>The heap order on a list of keys\<close>

definition heap_upto :: "'k::linorder list \<Rightarrow> nat \<Rightarrow> bool" where
  "heap_upto ks n \<longleftrightarrow> (\<forall>m < n. 0 < m \<longrightarrow> ks ! parent m \<le> ks ! m)"

definition is_heap :: "'k::linorder list \<Rightarrow> bool" where
  "is_heap ks \<longleftrightarrow> heap_upto ks (length ks)"

text \<open>The order holds except between \<open>i\<close> and its neighbours, whose own order across \<open>i\<close> holds.\<close>

definition heap_except :: "'k::linorder list \<Rightarrow> nat \<Rightarrow> nat \<Rightarrow> bool" where
  "heap_except ks n i \<longleftrightarrow>
     (\<forall>m < n. 0 < m \<longrightarrow> m \<noteq> i \<longrightarrow> parent m \<noteq> i \<longrightarrow> ks ! parent m \<le> ks ! m) \<and>
     (\<forall>m < n. 0 < m \<longrightarrow> parent m = i \<longrightarrow> 0 < i \<longrightarrow> ks ! parent i \<le> ks ! m)"

definition above_ok :: "'k::linorder list \<Rightarrow> nat \<Rightarrow> bool" where
  "above_ok ks i \<longleftrightarrow> (0 < i \<longrightarrow> ks ! parent i \<le> ks ! i)"

definition below_ok :: "'k::linorder list \<Rightarrow> nat \<Rightarrow> nat \<Rightarrow> bool" where
  "below_ok ks n i \<longleftrightarrow> (\<forall>m < n. 0 < m \<longrightarrow> parent m = i \<longrightarrow> ks ! i \<le> ks ! m)"

lemma parent_less [simp]: "0 < m \<Longrightarrow> parent m < m"
  by (auto simp: parent_def)

lemma parent_eq_iff: "0 < m \<Longrightarrow> parent m = i \<longleftrightarrow> m = 2 * i + 1 \<or> m = 2 * i + 2"
  by (auto simp: parent_def)

lemma heap_upto_split:
  assumes "i < n" "heap_except ks n i" "above_ok ks i" "below_ok ks n i"
  shows "heap_upto ks n"
  unfolding heap_upto_def
proof (intro allI impI)
  fix m assume m: "m < n" "0 < m"
  consider "m = i" | "parent m = i" | "m \<noteq> i" "parent m \<noteq> i" by blast
  then show "ks ! parent m \<le> ks ! m"
    by cases (use assms m in \<open>auto simp: heap_except_def above_ok_def below_ok_def\<close>)
qed

lemma heap_upto_except:
  assumes "i < n" "heap_upto ks n"
  shows "heap_except ks n i"
  unfolding heap_except_def
proof (intro conjI allI impI)
  fix m assume m: "m < n" "0 < m" "parent m = i" "0 < i"
  have "ks ! parent i \<le> ks ! i"
    using assms m(4) by (simp add: heap_upto_def)
  also have "\<dots> = ks ! parent m"
    using m(3) by simp
  also have "\<dots> \<le> ks ! m"
    using assms m(1,2) unfolding heap_upto_def by blast
  finally show "ks ! parent i \<le> ks ! m" .
qed (use assms in \<open>simp add: heap_upto_def\<close>)

lemma heap_except_cong:
  assumes "heap_except ls n i" "i < n" "\<And>m. m < n \<Longrightarrow> m \<noteq> i \<Longrightarrow> ks ! m = ls ! m"
  shows "heap_except ks n i"
proof -
  have pm: "parent m < n" if "m < n" "0 < m" for m
    using that by (meson less_trans parent_less)
  have pi: "parent i \<noteq> i" if "0 < i"
    using parent_less [OF that] by simp
  show ?thesis
    unfolding heap_except_def
  proof (intro conjI allI impI)
    fix m assume "m < n" "0 < m" "m \<noteq> i" "parent m \<noteq> i"
    then show "ks ! parent m \<le> ks ! m"
      using assms(1) assms(3) [of m] assms(3) [of "parent m"] pm [of m] by (simp add: heap_except_def)
  next
    fix m assume m: "m < n" "0 < m" "parent m = i" "0 < i"
    then have "m \<noteq> i" "parent i < n"
      using pi pm [of i] assms(2) by auto
    then show "ks ! parent i \<le> ks ! m"
      using assms(1) assms(3) [of m] assms(3) [of "parent i"] pi m by (simp add: heap_except_def)
  qed
qed

lemma heap_upto_above: "heap_upto ks n \<Longrightarrow> i < n \<Longrightarrow> above_ok ks i"
  by (auto simp: heap_upto_def above_ok_def)

lemma heap_upto_below: "heap_upto ks n \<Longrightarrow> below_ok ks n i"
  by (auto simp: heap_upto_def below_ok_def)

lemma heap_upto_mono: "heap_upto ks n \<Longrightarrow> m \<le> n \<Longrightarrow> heap_upto ks m"
  by (auto simp: heap_upto_def)

lemma heap_upto_min: "heap_upto ks n \<Longrightarrow> i < n \<Longrightarrow> ks ! 0 \<le> ks ! i"
proof (induction i rule: less_induct)
  case (less i)
  show ?case
  proof (cases "i = 0")
    case False
    then have "ks ! 0 \<le> ks ! parent i"
      using less by (intro less.IH) (auto intro: less_trans [OF parent_less])
    also have "\<dots> \<le> ks ! i"
      using less.prems False by (auto simp: heap_upto_def)
    finally show ?thesis .
  qed simp
qed

lemma is_heap_hd: "is_heap ks \<Longrightarrow> k \<in> set ks \<Longrightarrow> ks ! 0 \<le> k"
  by (auto simp: is_heap_def in_set_conv_nth intro: heap_upto_min)

lemma heap_upto_cong: "(\<And>m. m < n \<Longrightarrow> ks ! m = ls ! m) \<Longrightarrow> heap_upto ks n = heap_upto ls n"
  unfolding heap_upto_def by (metis less_trans parent_less)

text \<open>One exchange with the parent, and one with the smaller child.\<close>

lemma up_step:
  assumes "i < n" "n \<le> length ks" "0 < i" "heap_except ks n i" "below_ok ks n i"
    "ks ! i < ks ! parent i"
  shows "heap_except (swap_at ks (parent i) i) n (parent i)"
    and "below_ok (swap_at ks (parent i) i) n (parent i)"
proof -
  let ?p = "parent i"
  have p: "?p < i" using assms(3) by simp
  have nth: "swap_at ks ?p i ! m = (if m = i then ks ! ?p else if m = ?p then ks ! i else ks ! m)"
    if "m < n" for m
    using that assms(1,2) p by (subst nth_swap_at) auto
  have E: "ks ! parent m \<le> ks ! m" if "m < n" "0 < m" "m \<noteq> i" "parent m \<noteq> i" for m
    using assms(4) that by (auto simp: heap_except_def)
  have C: "ks ! ?p \<le> ks ! m" if "m < n" "0 < m" "parent m = i" for m
    using assms(3,4) that by (auto simp: heap_except_def)
  have pm: "parent m < n" if "m < n" "0 < m" for m
    using that by (meson less_trans parent_less)
  show "heap_except (swap_at ks ?p i) n ?p"
    unfolding heap_except_def
  proof (intro conjI allI impI)
    fix m assume m: "m < n" "0 < m" "m \<noteq> ?p" "parent m \<noteq> ?p"
    then show "swap_at ks ?p i ! parent m \<le> swap_at ks ?p i ! m"
      using nth [OF m(1)] nth [OF pm [OF m(1,2)]] E [OF m(1,2)] C [OF m(1,2)] by auto
  next
    fix m assume m: "m < n" "0 < m" "parent m = ?p" "0 < ?p"
    have pp: "parent ?p < ?p" "?p < n" using m p assms(1) by simp_all
    have up: "ks ! parent ?p \<le> ks ! ?p"
      using E [of ?p] pp m(4) p by auto
    have "ks ! ?p \<le> ks ! m" if "m \<noteq> i"
      using E [of m] m that p by auto
    then show "swap_at ks ?p i ! parent ?p \<le> swap_at ks ?p i ! m"
      using up nth [OF m(1)] nth [of "parent ?p"] pp p m by auto
  qed
  show "below_ok (swap_at ks ?p i) n ?p"
    unfolding below_ok_def
  proof (intro allI impI)
    fix m assume m: "m < n" "0 < m" "parent m = ?p"
    have "ks ! ?p \<le> ks ! m" if "m \<noteq> i"
      using E [of m] m that p by auto
    then show "swap_at ks ?p i ! ?p \<le> swap_at ks ?p i ! m"
      using nth [OF m(1)] nth [of ?p] p assms(1,6) m by auto
  qed
qed

lemma down_step:
  assumes "j < n" "n \<le> length ks" "0 < j" "parent j = i" "heap_except ks n i" "above_ok ks i"
    "ks ! j < ks ! i" "\<And>m. m < n \<Longrightarrow> 0 < m \<Longrightarrow> parent m = i \<Longrightarrow> ks ! j \<le> ks ! m"
  shows "heap_except (swap_at ks i j) n j" and "above_ok (swap_at ks i j) j"
proof -
  have ij: "i < j" using assms(3,4) by auto
  have nth: "swap_at ks i j ! m = (if m = j then ks ! i else if m = i then ks ! j else ks ! m)"
    if "m < n" for m
    using that assms(1,2) ij by (subst nth_swap_at) auto
  have E: "ks ! parent m \<le> ks ! m" if "m < n" "0 < m" "m \<noteq> i" "parent m \<noteq> i" for m
    using assms(5) that by (auto simp: heap_except_def)
  have C: "ks ! parent i \<le> ks ! m" if "m < n" "0 < m" "parent m = i" "0 < i" for m
    using assms(5) that by (auto simp: heap_except_def)
  have pm: "parent m < n" if "m < n" "0 < m" for m
    using that by (meson less_trans parent_less)
  have self: "m \<noteq> parent m" if "0 < m" for m
    using parent_less [OF that] by simp
  show "heap_except (swap_at ks i j) n j"
    unfolding heap_except_def
  proof (intro conjI allI impI)
    fix m assume m: "m < n" "0 < m" "m \<noteq> j" "parent m \<noteq> j"
    show "swap_at ks i j ! parent m \<le> swap_at ks i j ! m"
    proof (cases "m = i")
      case True
      then show ?thesis
        using nth [OF m(1)] nth [OF pm [OF m(1,2)]] C [of j] assms(1,3,4) m self [of m] by auto
    next
      case False
      then show ?thesis
        using nth [OF m(1)] nth [OF pm [OF m(1,2)]] E [OF m(1,2)] assms(8) [of m] m by auto
    qed
  next
    fix m assume m: "m < n" "0 < m" "parent m = j" "0 < j"
    then show "swap_at ks i j ! parent j \<le> swap_at ks i j ! m"
      using nth [OF m(1)] nth [of i] E [OF m(1,2)] ij assms(1,4) self [of m] parent_less [of m]
      by auto
  qed
  show "above_ok (swap_at ks i j) j"
    using nth [of i] nth [of j] assms(1,3,4,7) ij by (auto simp: above_ok_def)
qed

section \<open>What a container promises, and what the algorithms then guarantee\<close>

text \<open>
  \<open>items h\<close> is the container's sequence, \<open>key\<close> the sort key of an item and \<open>ok\<close> the container's own
  well-formedness.  \<open>Less\<close> compares keys and \<open>Swap\<close> exchanges two items.
\<close>

locale heap_container =
  fixes ok :: "'h \<Rightarrow> bool"
    and items :: "'h \<Rightarrow> 'e list"
    and key :: "'e \<Rightarrow> 'k::linorder"
    and Less :: "'h \<Rightarrow> nat \<Rightarrow> nat \<Rightarrow> bool"
    and Swap :: "'h \<Rightarrow> nat \<Rightarrow> nat \<Rightarrow> 'h"
  assumes Less_key: "ok h \<Longrightarrow> i < length (items h) \<Longrightarrow> j < length (items h) \<Longrightarrow>
      Less h i j \<longleftrightarrow> key (items h ! i) < key (items h ! j)"
    and Swap_ok: "ok h \<Longrightarrow> i < length (items h) \<Longrightarrow> j < length (items h) \<Longrightarrow> ok (Swap h i j)"
    and Swap_items: "ok h \<Longrightarrow> i < length (items h) \<Longrightarrow> j < length (items h) \<Longrightarrow>
      items (Swap h i j) = swap_at (items h) i j"
begin

text \<open>What every run keeps: the items, as a multiset, and the tail from \<open>n\<close> on.\<close>

lemma heap_up_frame:
  "ok h \<Longrightarrow> i < length (items h) \<Longrightarrow>
   ok (heap_up Less Swap h i) \<and> mset (items (heap_up Less Swap h i)) = mset (items h)"
proof (induction i arbitrary: h rule: less_induct)
  case (less i)
  show ?case
  proof (cases "parent i = i \<or> \<not> Less h i (parent i)")
    case False
    then have "parent i < i"
      by (metis parent_def parent_less diff_0_eq_0 div_0 gr0I)
    with less False show ?thesis
      using less.IH [of "parent i" "Swap h (parent i) i"]
      by (simp add: heap_up.simps [of Less Swap h i] Let_def Swap_ok Swap_items)
  qed (use less.prems in \<open>simp add: heap_up.simps [of Less Swap h i] Let_def\<close>)
qed

lemma heap_up_tail:
  "ok h \<Longrightarrow> i < n \<Longrightarrow> n \<le> m \<Longrightarrow> m < length (items h) \<Longrightarrow>
   items (heap_up Less Swap h i) ! m = items h ! m"
proof (induction i arbitrary: h rule: less_induct)
  case (less i)
  show ?case
  proof (cases "parent i = i \<or> \<not> Less h i (parent i)")
    case False
    then have "parent i < i"
      by (metis parent_def parent_less diff_0_eq_0 div_0 gr0I)
    with less False show ?thesis
      using less.IH [of "parent i" "Swap h (parent i) i"]
      by (simp add: heap_up.simps [of Less Swap h i] Let_def Swap_ok Swap_items nth_swap_at)
  qed (use less.prems in \<open>simp add: heap_up.simps [of Less Swap h i] Let_def\<close>)
qed

lemma heap_up_heap:
  "ok h \<Longrightarrow> i < n \<Longrightarrow> n \<le> length (items h) \<Longrightarrow> heap_except (map key (items h)) n i \<Longrightarrow>
   below_ok (map key (items h)) n i \<Longrightarrow> heap_upto (map key (items (heap_up Less Swap h i))) n"
proof (induction i arbitrary: h rule: less_induct)
  case (less i)
  let ?ks = "map key (items h)" and ?p = "parent i"
  have len: "i < length (items h)" "?p < length (items h)"
    using less.prems by (auto simp: parent_def)
  show ?case
  proof (cases "?p = i \<or> \<not> Less h i ?p")
    case True
    then have "above_ok ?ks i"
      using less.prems(1) len
      by (cases "i = 0") (auto simp: above_ok_def Less_key dest: parent_less)
    then have "heap_upto ?ks n"
      using less.prems by (intro heap_upto_split)
    with True show ?thesis
      by (simp add: heap_up.simps [of Less Swap h i] Let_def)
  next
    case False
    then have i: "0 < i"
      by (metis parent_def diff_0_eq_0 div_0 gr0I)
    have lt: "?ks ! i < ?ks ! ?p"
      using False less.prems(1) len by (simp add: Less_key)
    have "map key (items (Swap h ?p i)) = swap_at ?ks ?p i"
      using less.prems(1) len by (simp add: Swap_items map_swap_at)
    then have "heap_upto (map key (items (heap_up Less Swap (Swap h ?p i) ?p))) n"
      using less.prems len i lt up_step [of i n ?ks]
      by (intro less.IH) (auto simp: Swap_ok Swap_items intro: less_trans [OF parent_less])
    with False show ?thesis
      by (simp add: heap_up.simps [of Less Swap h i] Let_def)
  qed
qed

text \<open>The child that \<open>down\<close> picks is a smallest one.\<close>

definition small_child :: "'h \<Rightarrow> nat \<Rightarrow> nat \<Rightarrow> nat" where
  "small_child h i n =
     (if 2 * i + 2 < n \<and> Less h (2 * i + 2) (2 * i + 1) then 2 * i + 2 else 2 * i + 1)"

lemma heap_down_unfold:
  "heap_down Less Swap h i n =
     (if n \<le> 2 * i + 1 \<or> \<not> Less h (small_child h i n) i then (h, i)
      else heap_down Less Swap (Swap h i (small_child h i n)) (small_child h i n) n)"
  by (subst heap_down.simps) (simp add: small_child_def Let_def)

lemma small_child:
  assumes "ok h" "n \<le> length (items h)" "\<not> n \<le> 2 * i + 1"
  shows "small_child h i n < n" "0 < small_child h i n" "i < small_child h i n"
    "parent (small_child h i n) = i"
    "m < n \<Longrightarrow> 0 < m \<Longrightarrow> parent m = i \<Longrightarrow>
      key (items h ! small_child h i n) \<le> key (items h ! m)"
proof -
  show "small_child h i n < n" "0 < small_child h i n" "i < small_child h i n"
    "parent (small_child h i n) = i"
    using assms(3) by (auto simp: small_child_def parent_def)
  assume "m < n" "0 < m" "parent m = i"
  then show "key (items h ! small_child h i n) \<le> key (items h ! m)"
    using assms by (auto simp: small_child_def parent_eq_iff Less_key split: if_splits)
qed

lemma heap_down_frame:
  "ok h \<Longrightarrow> i < n \<Longrightarrow> n \<le> length (items h) \<Longrightarrow> heap_down Less Swap h i n = (h', i') \<Longrightarrow>
   ok h' \<and> mset (items h') = mset (items h) \<and> i \<le> i' \<and> (i = i' \<longrightarrow> h' = h) \<and>
   (\<forall>m. n \<le> m \<longrightarrow> m < length (items h) \<longrightarrow> items h' ! m = items h ! m)"
proof (induction "n - i" arbitrary: h i rule: less_induct)
  case less
  let ?j = "small_child h i n"
  show ?case
  proof (cases "n \<le> 2 * i + 1 \<or> \<not> Less h ?j i")
    case False
    then have j: "?j < n" "i < ?j"
      using small_child less.prems by auto
    have sw: "ok (Swap h i ?j)" "items (Swap h i ?j) = swap_at (items h) i ?j"
      using less.prems j by (auto intro!: Swap_ok Swap_items)
    have "heap_down Less Swap (Swap h i ?j) ?j n = (h', i')"
      using less.prems(4) False heap_down_unfold [of h i n] by simp
    moreover have "n - ?j < n - i"
      using j by arith
    ultimately show ?thesis
      using less.hyps [of ?j "Swap h i ?j"] less.prems j sw by (auto simp: nth_swap_at)
  next
    case True
    then show ?thesis
      using less.prems heap_down_unfold [of h i n] by auto
  qed
qed

lemma heap_down_heap:
  "ok h \<Longrightarrow> i < n \<Longrightarrow> n \<le> length (items h) \<Longrightarrow> heap_except (map key (items h)) n i \<Longrightarrow>
   above_ok (map key (items h)) i \<Longrightarrow> heap_down Less Swap h i n = (h', i') \<Longrightarrow>
   heap_upto (map key (items h')) n"
proof (induction "n - i" arbitrary: h i rule: less_induct)
  case less
  let ?j = "small_child h i n" and ?ks = "map key (items h)"
  show ?case
  proof (cases "n \<le> 2 * i + 1")
    case True
    then have "below_ok ?ks n i"
      by (auto simp: below_ok_def parent_eq_iff)
    then show ?thesis
      using True less.prems heap_down_unfold [of h i n] heap_upto_split [of i n ?ks] by auto
  next
    case inner: False
    note sc = small_child [OF less.prems(1,3) inner]
    show ?thesis
    proof (cases "Less h ?j i")
      case True
      have eq: "map key (items (Swap h i ?j)) = swap_at ?ks i ?j"
        using less.prems sc by (simp add: Swap_items map_swap_at)
      have "heap_down Less Swap (Swap h i ?j) ?j n = (h', i')"
        using less.prems(6) True inner heap_down_unfold [of h i n] by simp
      moreover have "?ks ! ?j < ?ks ! i"
        using True less.prems sc by (simp add: Less_key)
      moreover have "heap_except (swap_at ?ks i ?j) n ?j" "above_ok (swap_at ?ks i ?j) ?j"
        using less.prems sc \<open>?ks ! ?j < ?ks ! i\<close> by (auto intro!: down_step)
      ultimately show ?thesis
        using less.prems sc eq by (intro less.hyps [of ?j "Swap h i ?j"]) (auto simp: Swap_ok Swap_items)
    next
      case False
      then have le: "?ks ! i \<le> ?ks ! ?j"
        using less.prems sc by (simp add: Less_key not_less)
      have "below_ok ?ks n i"
        unfolding below_ok_def
      proof (intro allI impI)
        fix m assume "m < n" "0 < m" "parent m = i"
        then show "?ks ! i \<le> ?ks ! m"
          using sc(5) [of m] le less.prems sc(1) by simp
      qed
      then show ?thesis
        using False less.prems heap_down_unfold [of h i n] heap_upto_split [of i n ?ks] by auto
    qed
  qed
qed

text \<open>\<open>Fix\<close>, and the repair step of \<open>Remove\<close>: the item at \<open>i\<close> may be out of order both ways.\<close>

lemma heap_fix_frame:
  assumes "ok h" "i < n" "n \<le> length (items h)"
  shows "ok (heap_fix Less Swap h i n)"
    "mset (items (heap_fix Less Swap h i n)) = mset (items h)"
    "n \<le> m \<Longrightarrow> m < length (items h) \<Longrightarrow> items (heap_fix Less Swap h i n) ! m = items h ! m"
proof -
  obtain h' i' where d: "heap_down Less Swap h i n = (h', i')"
    by fastforce
  note fr = heap_down_frame [OF assms d]
  then have l: "length (items h') = length (items h)"
    by (metis size_mset)
  show "ok (heap_fix Less Swap h i n)"
    "mset (items (heap_fix Less Swap h i n)) = mset (items h)"
    using d fr assms l heap_up_frame [of h i] by (auto simp: heap_fix_def)
  assume "n \<le> m" "m < length (items h)"
  then show "items (heap_fix Less Swap h i n) ! m = items h ! m"
    using d fr assms l heap_up_tail [of h i n m] by (auto simp: heap_fix_def)
qed

lemma heap_fix_heap:
  assumes "ok h" "i < n" "n \<le> length (items h)" "heap_except (map key (items h)) n i"
  shows "heap_upto (map key (items (heap_fix Less Swap h i n))) n"
proof -
  obtain h' i' where d: "heap_down Less Swap h i n = (h', i')"
    by fastforce
  note fr = heap_down_frame [OF assms(1-3) d]
  let ?ks = "map key (items h)"
  show ?thesis
  proof (cases "above_ok ?ks i")
    case True
    then have hp: "heap_upto (map key (items h')) n"
      using assms d by (intro heap_down_heap)
    show ?thesis
    proof (cases "i < i'")
      case False
      then have eq: "i' = i" "h' = h"
        using fr by auto
      then have "heap_upto (map key (items (heap_up Less Swap h i))) n"
        using hp assms by (intro heap_up_heap) (auto intro: heap_upto_below)
      then show ?thesis
        using d eq by (simp add: heap_fix_def)
    qed (use hp d in \<open>simp add: heap_fix_def\<close>)
  next
    case False
    have below: "below_ok ?ks n i"
      using assms(4) False by (auto simp: below_ok_def above_ok_def heap_except_def not_le intro: less_imp_le order_less_le_trans)
    have "n \<le> 2 * i + 1 \<or> \<not> Less h (small_child h i n) i"
    proof (rule ccontr)
      assume "\<not> ?thesis"
      then have n: "\<not> n \<le> 2 * i + 1" and l: "Less h (small_child h i n) i"
        by auto
      note sc = small_child [OF assms(1,3) n]
      have "?ks ! i \<le> ?ks ! small_child h i n"
        using below sc by (simp add: below_ok_def)
      then show False
        using l sc assms by (simp add: Less_key)
    qed
    then have "h' = h" "i' = i"
      using d heap_down_unfold [of h i n] by auto
    then show ?thesis
      using d heap_up_heap [OF assms(1-4) below] by (simp add: heap_fix_def)
  qed
qed

end

end
