(* ===== verification/DelayHeap.thy ===== *)
theory DelayHeap
  imports GoTime GoHeap
begin

text \<open>
  The delay heap of \<open>internal/delayheap/delayheap.go\<close>: a binary heap of nodes ordered by
  waiting time, with an index from node ids to nodes so that a node can be found, updated
  and removed by id.

  The Go code shares each \<open>*delayHeapNode\<close> between the heap slice and the index map and
  writes its position into it at every swap.  The model keeps that sharing: nodes live in a
  store and are named by their address; \<open>dh_heap\<close> is the slice of pointers and \<open>dh_index\<close> the
  map of pointers.  Nodes are of any type \<open>'n\<close>; its \<open>ID\<close> method is a parameter, as
  \<open>HeapNode\<close> is an interface in Go.
\<close>

section \<open>Data\<close>

type_synonym addr = nat

record 'n delayHeapNode =
  dn_Node :: 'n
  dn_WaitUntil :: gotime
  dn_index :: int

record 'n DelayHeap =
  dh_store :: "'n delayHeapNode list"
  dh_index :: "string \<rightharpoonup> addr"
  dh_heap :: "addr list"

definition node_at :: "'n DelayHeap \<Rightarrow> addr \<Rightarrow> 'n delayHeapNode" where
  "node_at h a = dh_store h ! a"

definition set_node :: "'n DelayHeap \<Rightarrow> addr \<Rightarrow> 'n delayHeapNode \<Rightarrow> 'n DelayHeap" where
  "set_node h a n = h\<lparr>dh_store := (dh_store h)[a := n]\<rparr>"

section \<open>The \<open>heap.Interface\<close> methods of \<open>delayedHeapImp\<close>\<close>

definition imp_Len :: "'n DelayHeap \<Rightarrow> nat" where
  "imp_Len h = length (dh_heap h)"

definition imp_Less :: "'n DelayHeap \<Rightarrow> nat \<Rightarrow> nat \<Rightarrow> bool" where
  "imp_Less h i j =
     (let wi = dn_WaitUntil (node_at h (dh_heap h ! i)); wj = dn_WaitUntil (node_at h (dh_heap h ! j))
      in if IsZero wi then False else if IsZero wj then True else Before wi wj)"

definition imp_Swap :: "'n DelayHeap \<Rightarrow> nat \<Rightarrow> nat \<Rightarrow> 'n DelayHeap" where
  "imp_Swap h i j =
     (let hp = swap_at (dh_heap h) i j;
          h1 = h\<lparr>dh_heap := hp\<rparr>;
          h2 = set_node h1 (hp ! i) ((node_at h1 (hp ! i))\<lparr>dn_index := int i\<rparr>)
      in set_node h2 (hp ! j) ((node_at h2 (hp ! j))\<lparr>dn_index := int j\<rparr>))"

definition imp_Push :: "'n DelayHeap \<Rightarrow> addr \<Rightarrow> 'n DelayHeap" where
  "imp_Push h a =
     (let h1 = set_node h a ((node_at h a)\<lparr>dn_index := int (length (dh_heap h))\<rparr>)
      in h1\<lparr>dh_heap := dh_heap h @ [a]\<rparr>)"

definition imp_Pop :: "'n DelayHeap \<Rightarrow> addr \<times> 'n DelayHeap" where
  "imp_Pop h =
     (let n = length (dh_heap h); a = dh_heap h ! (n - 1);
          h1 = set_node h a ((node_at h a)\<lparr>dn_index := - 1\<rparr>)
      in (a, h1\<lparr>dh_heap := take (n - 1) (dh_heap h)\<rparr>))"

text \<open>\<open>heap.Push\<close>, \<open>heap.Pop\<close>, \<open>heap.Fix\<close> and \<open>heap.Remove\<close> of \<open>container/heap\<close> over these methods.\<close>

definition heap_Push :: "'n DelayHeap \<Rightarrow> addr \<Rightarrow> 'n DelayHeap" where
  "heap_Push h a = (let h1 = imp_Push h a in heap_up imp_Less imp_Swap h1 (imp_Len h1 - 1))"

definition heap_Pop :: "'n DelayHeap \<Rightarrow> addr \<times> 'n DelayHeap" where
  "heap_Pop h = (let n = imp_Len h - 1; h1 = imp_Swap h 0 n
                 in imp_Pop (fst (heap_down imp_Less imp_Swap h1 0 n)))"

definition heap_Fix :: "'n DelayHeap \<Rightarrow> nat \<Rightarrow> 'n DelayHeap" where
  "heap_Fix h i = heap_fix imp_Less imp_Swap h i (imp_Len h)"

definition heap_Remove :: "'n DelayHeap \<Rightarrow> nat \<Rightarrow> addr \<times> 'n DelayHeap" where
  "heap_Remove h i =
     (let n = imp_Len h - 1
      in imp_Pop (if n = i then h else heap_fix imp_Less imp_Swap (imp_Swap h i n) i n))"

section \<open>The operations of \<open>DelayHeap\<close>\<close>

definition NewDelayHeap :: "'n DelayHeap" where
  "NewDelayHeap = \<lparr>dh_store = [], dh_index = Map.empty, dh_heap = []\<rparr>"

text \<open>An operation that returns an error leaves it beside the state: \<open>None\<close> is a nil error.\<close>

definition dh_Push :: "('n \<Rightarrow> string) \<Rightarrow> 'n DelayHeap \<Rightarrow> 'n \<Rightarrow> gotime \<Rightarrow> go_error option \<times> 'n DelayHeap" where
  "dh_Push ID h dataNode nxt =
     (let i = ID dataNode
      in if dh_index h i \<noteq> None then (Some (NodeExists i), h)
         else let a = length (dh_store h);
                  n = \<lparr>dn_Node = dataNode, dn_WaitUntil = nxt, dn_index = 0\<rparr>;
                  h1 = h\<lparr>dh_store := dh_store h @ [n], dh_index := (dh_index h)(i \<mapsto> a)\<rparr>
              in (None, heap_Push h1 a))"

definition dh_Pop :: "('n \<Rightarrow> string) \<Rightarrow> 'n DelayHeap \<Rightarrow> 'n delayHeapNode option \<times> 'n DelayHeap" where
  "dh_Pop ID h =
     (if length (dh_heap h) = 0 then (None, h)
      else let (a, h1) = heap_Pop h
           in (Some (node_at h1 a),
               h1\<lparr>dh_index := (dh_index h1)(ID (dn_Node (node_at h1 a)) := None)\<rparr>))"

definition dh_Peek :: "'n DelayHeap \<Rightarrow> 'n delayHeapNode option" where
  "dh_Peek h = (if length (dh_heap h) = 0 then None else Some (node_at h (dh_heap h ! 0)))"

definition dh_ContainsID :: "'n DelayHeap \<Rightarrow> string \<Rightarrow> bool" where
  "dh_ContainsID h i \<longleftrightarrow> dh_index h i \<noteq> None"

definition dh_Contains :: "('n \<Rightarrow> string) \<Rightarrow> 'n DelayHeap \<Rightarrow> 'n \<Rightarrow> bool" where
  "dh_Contains ID h heapNode \<longleftrightarrow> dh_index h (ID heapNode) \<noteq> None"

definition dh_Update :: "('n \<Rightarrow> string) \<Rightarrow> 'n DelayHeap \<Rightarrow> 'n \<Rightarrow> gotime \<Rightarrow> go_error option \<times> 'n DelayHeap" where
  "dh_Update ID h heapNode waitUntil =
     (case dh_index h (ID heapNode) of
        Some a \<Rightarrow>
          let h1 = set_node h a ((node_at h a)\<lparr>dn_Node := heapNode, dn_WaitUntil := waitUntil\<rparr>)
          in (None, heap_Fix h1 (nat (dn_index (node_at h1 a))))
      | None \<Rightarrow> (Some (NodeMissing (ID heapNode)), h))"

definition dh_Remove :: "('n \<Rightarrow> string) \<Rightarrow> 'n DelayHeap \<Rightarrow> 'n \<Rightarrow> go_error option \<times> 'n DelayHeap" where
  "dh_Remove ID h heapNode =
     (case dh_index h (ID heapNode) of
        Some a \<Rightarrow>
          let (_, h1) = heap_Remove h (nat (dn_index (node_at h a)))
          in (None, h1\<lparr>dh_index := (dh_index h1)(ID heapNode := None)\<rparr>)
      | None \<Rightarrow> (Some (NodeMissing (ID heapNode)), h))"

definition dh_Length :: "'n DelayHeap \<Rightarrow> nat" where
  "dh_Length h = length (dh_heap h)"

section \<open>Well-formedness, and the heap methods as a container\<close>

text \<open>
  The heap slice holds distinct, allocated nodes, and every node knows its position.  An item
  is a node's address with the fields that the heap algorithms never write.
\<close>

definition heap_ok :: "'n DelayHeap \<Rightarrow> bool" where
  "heap_ok h \<longleftrightarrow> distinct (dh_heap h) \<and> (\<forall>a \<in> set (dh_heap h). a < length (dh_store h)) \<and>
     (\<forall>i < length (dh_heap h). dn_index (node_at h (dh_heap h ! i)) = int i)"

type_synonym 'n item = "addr \<times> 'n \<times> gotime"

definition item_of :: "'n DelayHeap \<Rightarrow> addr \<Rightarrow> 'n item" where
  "item_of h a = (a, dn_Node (node_at h a), dn_WaitUntil (node_at h a))"

definition heap_items :: "'n DelayHeap \<Rightarrow> 'n item list" where
  "heap_items h = map (item_of h) (dh_heap h)"

definition item_key :: "'n item \<Rightarrow> bool \<times> int" where
  "item_key = (\<lambda>(a, n, w). wait_rank w)"

lemma length_heap_items [simp]: "length (heap_items h) = length (dh_heap h)"
  by (simp add: heap_items_def)

lemma item_key_item_of [simp]: "item_key (item_of h a) = wait_rank (dn_WaitUntil (node_at h a))"
  by (simp add: item_key_def item_of_def)

lemma node_at_set_node:
  "node_at (set_node h a n) b = (if a = b \<and> a < length (dh_store h) then n else node_at h b)"
  by (cases "a < length (dh_store h)")
    (auto simp: node_at_def set_node_def nth_list_update list_update_beyond)

lemma set_node_simps [simp]:
  "dh_heap (set_node h a n) = dh_heap h" "dh_index (set_node h a n) = dh_index h"
  "length (dh_store (set_node h a n)) = length (dh_store h)"
  by (simp_all add: set_node_def)

lemma node_at_heap_update [simp]:
  "node_at (h\<lparr>dh_heap := hp\<rparr>) a = node_at h a" "node_at (h\<lparr>dh_index := ix\<rparr>) a = node_at h a"
  by (simp_all add: node_at_def)

lemma item_of_update [simp]:
  "item_of (h\<lparr>dh_heap := hp\<rparr>) = item_of h" "item_of (h\<lparr>dh_index := ix\<rparr>) = item_of h"
  by (simp_all add: item_of_def fun_eq_iff)

lemma imp_Swap_frame [simp]:
  "dh_heap (imp_Swap h i j) = swap_at (dh_heap h) i j" "dh_index (imp_Swap h i j) = dh_index h"
  "length (dh_store (imp_Swap h i j)) = length (dh_store h)"
  by (simp_all add: imp_Swap_def Let_def)

lemma item_of_imp_Swap [simp]: "item_of (imp_Swap h i j) a = item_of h a"
  by (simp add: imp_Swap_def Let_def item_of_def node_at_set_node)

lemma heap_items_imp_Swap:
  "i < length (dh_heap h) \<Longrightarrow> j < length (dh_heap h) \<Longrightarrow>
   heap_items (imp_Swap h i j) = swap_at (heap_items h) i j"
  by (simp add: heap_items_def map_swap_at cong: map_cong)

lemma index_imp_Swap:
  "heap_ok h \<Longrightarrow> i < length (dh_heap h) \<Longrightarrow> j < length (dh_heap h) \<Longrightarrow> k < length (dh_heap h) \<Longrightarrow>
   dn_index (node_at (imp_Swap h i j) (swap_at (dh_heap h) i j ! k)) = int k"
  by (auto simp: imp_Swap_def Let_def node_at_set_node heap_ok_def nth_swap_at
      nth_eq_iff_index_eq)

lemma heap_ok_imp_Swap:
  "heap_ok h \<Longrightarrow> i < length (dh_heap h) \<Longrightarrow> j < length (dh_heap h) \<Longrightarrow> heap_ok (imp_Swap h i j)"
  using index_imp_Swap [of h i j] by (auto simp: heap_ok_def)

interpretation dh: heap_container heap_ok heap_items item_key imp_Less imp_Swap
proof unfold_locales
  fix h :: "'n DelayHeap" and i j
  assume "heap_ok h" "i < length (heap_items h)" "j < length (heap_items h)"
  then show "imp_Less h i j \<longleftrightarrow> item_key (heap_items h ! i) < item_key (heap_items h ! j)"
    by (simp add: imp_Less_def Let_def heap_items_def wait_rank_less_iff)
qed (simp_all add: heap_ok_imp_Swap heap_items_imp_Swap)

section \<open>The heap operations on a well-formed heap\<close>

text \<open>The swaps of the algorithms touch neither the index nor the nodes' own fields.\<close>

definition same_nodes :: "'n DelayHeap \<Rightarrow> 'n DelayHeap \<Rightarrow> bool" where
  "same_nodes h h' \<longleftrightarrow> dh_index h' = dh_index h \<and> length (dh_store h') = length (dh_store h) \<and>
     (\<forall>a. item_of h' a = item_of h a)"

lemma same_nodes_refl [simp]: "same_nodes h h"
  by (simp add: same_nodes_def)

lemma same_nodes_trans: "same_nodes h h1 \<Longrightarrow> same_nodes h1 h2 \<Longrightarrow> same_nodes h h2"
  by (simp add: same_nodes_def)

lemma same_nodes_swap: "same_nodes g h \<Longrightarrow> same_nodes g (imp_Swap h i j)"
  by (simp add: same_nodes_def)

lemma same_nodes_up: "same_nodes g h \<Longrightarrow> same_nodes g (heap_up imp_Less imp_Swap h i)"
  by (rule heap_up_preserves [where P = "same_nodes g", OF same_nodes_swap])

lemma same_nodes_down: "same_nodes g h \<Longrightarrow> same_nodes g (fst (heap_down imp_Less imp_Swap h i n))"
  by (rule heap_down_preserves [where P = "same_nodes g", OF same_nodes_swap])

lemma same_nodes_fix: "same_nodes g h \<Longrightarrow> same_nodes g (heap_fix imp_Less imp_Swap h i n)"
  by (simp add: heap_fix_def same_nodes_down same_nodes_up split: prod.split)
    (metis fst_conv same_nodes_down same_nodes_up)

lemma same_nodes_fields:
  "same_nodes h h' \<Longrightarrow> dn_Node (node_at h' a) = dn_Node (node_at h a) \<and>
     dn_WaitUntil (node_at h' a) = dn_WaitUntil (node_at h a)"
  by (auto simp: same_nodes_def item_of_def)

abbreviation keys_of :: "'n DelayHeap \<Rightarrow> (bool \<times> int) list" where
  "keys_of h \<equiv> map item_key (heap_items h)"

text \<open>A heap in good order: well-formed nodes, keys in heap order.\<close>

definition heap_good :: "'n DelayHeap \<Rightarrow> bool" where
  "heap_good h \<longleftrightarrow> heap_ok h \<and> is_heap (keys_of h)"

lemma imp_Push_facts:
  assumes "heap_ok h" "a \<notin> set (dh_heap h)" "a < length (dh_store h)"
  shows "heap_ok (imp_Push h a)" "same_nodes h (imp_Push h a)" "dh_heap (imp_Push h a) = dh_heap h @ [a]"
proof -
  show "dh_heap (imp_Push h a) = dh_heap h @ [a]"
    by (simp add: imp_Push_def Let_def)
  show "same_nodes h (imp_Push h a)"
    by (simp add: same_nodes_def imp_Push_def Let_def item_of_def node_at_set_node)
  show "heap_ok (imp_Push h a)"
    using assms unfolding heap_ok_def
    by (auto simp: imp_Push_def Let_def node_at_set_node nth_append less_Suc_eq)
qed

lemma heap_items_append:
  "same_nodes h h' \<Longrightarrow> dh_heap h' = dh_heap h @ [a] \<Longrightarrow> heap_items h' = heap_items h @ [item_of h a]"
  by (simp add: heap_items_def same_nodes_def)

lemma heap_items_set:
  "same_nodes h h' \<Longrightarrow> mset (heap_items h') = mset (map (item_of h) as) \<Longrightarrow>
   mset (dh_heap h') = mset as"
proof -
  assume "same_nodes h h'" and eq: "mset (heap_items h') = mset (map (item_of h) as)"
  have "map fst (map (item_of g) bs) = bs" for g :: "'n DelayHeap" and bs
    by (simp add: item_of_def comp_def)
  then show ?thesis
    using eq by (metis heap_items_def mset_map)
qed

lemma heap_Push_facts:
  assumes "heap_good h" "a \<notin> set (dh_heap h)" "a < length (dh_store h)"
  shows "heap_good (heap_Push h a)" "same_nodes h (heap_Push h a)"
    "mset (dh_heap (heap_Push h a)) = add_mset a (mset (dh_heap h))"
proof -
  let ?h1 = "imp_Push h a" and ?n = "length (dh_heap h)"
  have ok: "heap_ok h" and hp: "heap_upto (keys_of h) ?n"
    using assms(1) by (simp_all add: heap_good_def is_heap_def)
  note p = imp_Push_facts [OF ok assms(2,3)]
  have len: "length (dh_heap ?h1) = Suc ?n"
    using p(3) by simp
  have keys: "keys_of ?h1 = keys_of h @ [item_key (item_of h a)]"
    using heap_items_append [OF p(2,3)] by simp
  have lt: "parent m < ?n" if "0 < m" "m < Suc ?n" for m
    using that parent_less [of m] by linarith
  have "heap_except (keys_of ?h1) (Suc ?n) ?n"
    unfolding heap_except_def
  proof (intro conjI allI impI)
    fix m assume "m < Suc ?n" "0 < m" "m \<noteq> ?n"
    then have m: "m < ?n" "parent m < ?n" using lt [of m] by auto
    have "keys_of h ! parent m \<le> keys_of h ! m"
      using hp m(1) \<open>0 < m\<close> unfolding heap_upto_def by blast
    then show "keys_of ?h1 ! parent m \<le> keys_of ?h1 ! m"
      unfolding keys using m by (simp add: nth_append)
  next
    fix m assume m: "m < Suc ?n" "0 < m" "parent m = ?n"
    have False
      using lt [OF m(2,1)] m(3) by linarith
    then show "keys_of ?h1 ! parent ?n \<le> keys_of ?h1 ! m" ..
  qed
  moreover have "below_ok (keys_of ?h1) (Suc ?n) ?n"
    using lt unfolding below_ok_def by (metis less_irrefl)
  ultimately have up: "heap_upto (keys_of (heap_up imp_Less imp_Swap ?h1 ?n)) (Suc ?n)"
    using p(1) len by (intro dh.heap_up_heap) auto
  have fr: "heap_ok (heap_up imp_Less imp_Swap ?h1 ?n)"
    "mset (heap_items (heap_up imp_Less imp_Swap ?h1 ?n)) = mset (heap_items ?h1)"
    using dh.heap_up_frame [of ?h1 ?n] p(1) len by auto
  then have "length (dh_heap (heap_up imp_Less imp_Swap ?h1 ?n)) = Suc ?n"
    by (metis len length_heap_items size_mset)
  then show "heap_good (heap_Push h a)"
    using up fr len by (simp add: heap_Push_def imp_Len_def heap_good_def is_heap_def)
  show sn: "same_nodes h (heap_Push h a)"
    using p(2) by (simp add: heap_Push_def Let_def same_nodes_up)
  have "mset (heap_items ?h1) = mset (map (item_of h) (a # dh_heap h))"
    unfolding heap_items_append [OF p(2,3)] by (simp add: heap_items_def)
  moreover have "heap_Push h a = heap_up imp_Less imp_Swap ?h1 ?n"
    using len by (simp add: heap_Push_def imp_Len_def Let_def)
  ultimately have "mset (heap_items (heap_Push h a)) = mset (map (item_of h) (a # dh_heap h))"
    using fr(2) by simp
  from heap_items_set [OF sn this]
  show "mset (dh_heap (heap_Push h a)) = add_mset a (mset (dh_heap h))"
    by simp
qed

text \<open>\<open>Pop\<close> of the interface takes the last node off.\<close>

lemma imp_Pop_facts:
  assumes "heap_ok h" "dh_heap h = as @ [a]" "imp_Pop h = (b, h')"
  shows "b = a" "heap_ok h'" "same_nodes h h'" "dh_heap h' = as"
proof -
  have h': "b = a" "h' = (set_node h a ((node_at h a)\<lparr>dn_index := - 1\<rparr>))\<lparr>dh_heap := as\<rparr>"
    using assms(2,3) by (auto simp: imp_Pop_def Let_def)
  then show "b = a" "dh_heap h' = as" by simp_all
  show "same_nodes h h'"
    by (simp add: h' same_nodes_def item_of_def node_at_set_node)
  show "heap_ok h'"
    using assms(1,2) unfolding heap_ok_def h'
    by (auto simp: node_at_set_node nth_append split: if_splits)
qed

lemma pop_last_facts:
  assumes "heap_ok h" "heap_upto (keys_of h) n" "length (dh_heap h) = Suc n" "imp_Pop h = (b, h')"
  shows "b = dh_heap h ! n" "heap_good h'" "same_nodes h h'"
    "mset (dh_heap h) = add_mset b (mset (dh_heap h'))"
proof -
  obtain as a where as: "dh_heap h = as @ [a]"
    using assms(3) by (cases "dh_heap h" rule: rev_cases) auto
  note pf = imp_Pop_facts [OF assms(1) as assms(4)]
  have n: "length as = n"
    using as assms(3) by simp
  then show "b = dh_heap h ! n" "mset (dh_heap h) = add_mset b (mset (dh_heap h'))"
    using pf as by (simp_all add: nth_append)
  have "heap_items h = heap_items h' @ [item_of h a]"
    using pf(3,4) as by (simp add: heap_items_def same_nodes_def)
  then have "heap_upto (keys_of h') n"
    using assms(2) n pf(4) heap_upto_cong [of n "keys_of h'" "keys_of h"]
    by (simp add: nth_append)
  then show "heap_good h'"
    using pf n by (simp add: heap_good_def is_heap_def)
  show "same_nodes h h'" by (rule pf(3))
qed

lemma heap_Remove_facts:
  assumes "heap_good h" "i < length (dh_heap h)" "heap_Remove h i = (a, h')"
  shows "a = dh_heap h ! i" "heap_good h'" "same_nodes h h'"
    "mset (dh_heap h) = add_mset a (mset (dh_heap h'))"
proof -
  define n where "n = length (dh_heap h) - 1"
  define h1 where "h1 = (if n = i then h else heap_fix imp_Less imp_Swap (imp_Swap h i n) i n)"
  have len: "length (dh_heap h) = Suc n" and i: "i \<le> n" and n: "n < length (dh_heap h)"
    using assms(2) by (auto simp: n_def)
  have ok: "heap_ok h" and hp: "heap_upto (keys_of h) (Suc n)"
    using assms(1) len by (simp_all add: heap_good_def is_heap_def)
  have pop: "imp_Pop h1 = (a, h')"
    using assms(3) by (auto simp: heap_Remove_def imp_Len_def Let_def n_def h1_def)
  have "heap_ok h1 \<and> heap_upto (keys_of h1) n \<and> same_nodes h h1 \<and> heap_items h1 ! n = heap_items h ! i
    \<and> mset (heap_items h1) = mset (heap_items h)"
  proof (cases "n = i")
    case True
    then show ?thesis
      using ok hp by (simp add: h1_def heap_upto_mono)
  next
    case False
    with i have i: "i < n" by simp
    let ?h = "imp_Swap h i n"
    have sw: "heap_ok ?h" "heap_items ?h = swap_at (heap_items h) i n"
      using ok assms(2) n by (simp_all add: heap_ok_imp_Swap heap_items_imp_Swap)
    have same: "keys_of ?h ! m = keys_of h ! m" if "m \<noteq> i" "m < n" for m
      using that sw(2) i n len by (auto simp: nth_swap_at)
    have "heap_except (keys_of h) n i"
      using hp i by (simp add: heap_upto_except heap_upto_mono)
    then have "heap_except (keys_of ?h) n i"
      using i same by (rule heap_except_cong)
    then have "heap_upto (keys_of (heap_fix imp_Less imp_Swap ?h i n)) n"
      using sw i len by (intro dh.heap_fix_heap) auto
    moreover have "heap_items ?h ! n = heap_items h ! i"
      using sw(2) i n by (simp add: nth_swap_at)
    ultimately show ?thesis
      using dh.heap_fix_frame [OF sw(1) i] False sw i n len assms(2)
      by (simp add: h1_def same_nodes_fix same_nodes_swap)
  qed
  then have h1: "heap_ok h1" "heap_upto (keys_of h1) n" "same_nodes h h1"
    "heap_items h1 ! n = heap_items h ! i" "mset (heap_items h1) = mset (heap_items h)"
    by auto
  have ms: "mset (dh_heap h1) = mset (dh_heap h)"
    using h1(5) by (intro heap_items_set [OF h1(3)]) (simp add: heap_items_def)
  then have len1: "length (dh_heap h1) = Suc n"
    using len by (metis size_mset)
  note pf = pop_last_facts [OF h1(1,2) len1 pop]
  show "heap_good h'" by (rule pf(2))
  show "same_nodes h h'" using h1(3) pf(3) by (rule same_nodes_trans)
  show "mset (dh_heap h) = add_mset a (mset (dh_heap h'))" using pf(4) ms by simp
  show "a = dh_heap h ! i"
    using h1(4) pf(1) len1 assms(2) by (simp add: heap_items_def item_of_def)
qed

lemma heap_Pop_facts:
  assumes "heap_good h" "0 < length (dh_heap h)" "heap_Pop h = (a, h')"
  shows "a = dh_heap h ! 0" "heap_good h'" "same_nodes h h'"
    "mset (dh_heap h) = add_mset a (mset (dh_heap h'))"
proof -
  define n where "n = length (dh_heap h) - 1"
  define h0 where "h0 = imp_Swap h 0 n"
  obtain h1 k where d: "heap_down imp_Less imp_Swap h0 0 n = (h1, k)"
    by fastforce
  have len: "length (dh_heap h) = Suc n" and n: "n < length (dh_heap h)"
    using assms(2) by (auto simp: n_def)
  have ok: "heap_ok h" and hp: "heap_upto (keys_of h) (Suc n)"
    using assms(1) len by (simp_all add: heap_good_def is_heap_def)
  have pop: "imp_Pop h1 = (a, h')"
    using assms(3) d by (simp add: heap_Pop_def imp_Len_def Let_def n_def h0_def)
  have sw: "heap_ok h0" "heap_items h0 = swap_at (heap_items h) 0 n"
    using ok assms(2) n by (simp_all add: h0_def heap_ok_imp_Swap heap_items_imp_Swap)
  have sn: "same_nodes h h1"
    using same_nodes_down [of h h0 0 n] d by (simp add: h0_def same_nodes_swap)
  have h1: "heap_ok h1 \<and> heap_upto (keys_of h1) n \<and> heap_items h1 ! n = heap_items h ! 0
    \<and> mset (heap_items h1) = mset (heap_items h)"
  proof (cases "n = 0")
    case True
    then have "h1 = h0"
      using d by (simp add: heap_down.simps [of imp_Less imp_Swap h0])
    then show ?thesis
      using sw True len by (simp add: heap_upto_def nth_swap_at)
  next
    case False
    have same: "keys_of h0 ! m = keys_of h ! m" if "m \<noteq> 0" "m < n" for m
      using that sw(2) n len by (auto simp: nth_swap_at)
    have "keys_of h ! parent m \<le> keys_of h ! m" if "m < n" "0 < m" for m
      using hp that by (simp add: heap_upto_def)
    then have "heap_except (keys_of h0) n 0"
      using same unfolding heap_except_def
      by (metis less_irrefl less_trans parent_less)
    then have "heap_upto (keys_of h1) n"
      using sw(1) False len d by (intro dh.heap_down_heap) (auto simp: above_ok_def h0_def)
    then show ?thesis
      using dh.heap_down_frame [OF sw(1) _ _ d] False sw n len by (simp add: nth_swap_at)
  qed
  have ms: "mset (dh_heap h1) = mset (dh_heap h)"
    using h1 by (intro heap_items_set [OF sn]) (simp add: heap_items_def)
  then have len1: "length (dh_heap h1) = Suc n"
    using len by (metis size_mset)
  note pf = pop_last_facts [OF _ _ len1 pop]
  show "heap_good h'" "mset (dh_heap h) = add_mset a (mset (dh_heap h'))"
    using pf h1 ms by auto
  show "same_nodes h h'"
    using sn pf(3) h1 by (meson same_nodes_trans)
  show "a = dh_heap h ! 0"
    using h1 pf(1) len1 assms(2) by (simp add: heap_items_def item_of_def)
qed

lemma heap_Fix_facts:
  assumes "heap_ok h" "i < length (dh_heap h)" "heap_except (keys_of h) (length (dh_heap h)) i"
  shows "heap_good (heap_Fix h i)" "same_nodes h (heap_Fix h i)"
    "mset (dh_heap (heap_Fix h i)) = mset (dh_heap h)"
proof -
  let ?h' = "heap_Fix h i"
  show sn: "same_nodes h ?h'"
    by (simp add: heap_Fix_def same_nodes_fix)
  have fr: "heap_ok ?h'" "mset (heap_items ?h') = mset (heap_items h)"
    using dh.heap_fix_frame [of h i "length (dh_heap h)"] assms
    by (simp_all add: heap_Fix_def imp_Len_def)
  then show ms: "mset (dh_heap ?h') = mset (dh_heap h)"
    by (intro heap_items_set [OF sn]) (simp add: heap_items_def)
  then have "length (dh_heap ?h') = length (dh_heap h)"
    by (metis size_mset)
  then show "heap_good ?h'"
    using fr dh.heap_fix_heap [of h i "length (dh_heap h)"] assms
    by (simp add: heap_good_def is_heap_def heap_Fix_def imp_Len_def)
qed

section \<open>What the delay heap promises its clients\<close>

text \<open>
  The invariant: the heap is in good order, and the index maps an id to the address of the one
  node in the heap with that id.  Abstractly a delay heap is a finite map from ids to a node
  and its waiting time.
\<close>

definition dh_inv :: "('n \<Rightarrow> string) \<Rightarrow> 'n DelayHeap \<Rightarrow> bool" where
  "dh_inv ID h \<longleftrightarrow> heap_good h \<and>
     (\<forall>i a. dh_index h i = Some a \<longleftrightarrow> a \<in> set (dh_heap h) \<and> ID (dn_Node (node_at h a)) = i)"

definition dh_abs :: "'n DelayHeap \<Rightarrow> string \<rightharpoonup> 'n \<times> gotime" where
  "dh_abs h i = map_option (\<lambda>a. (dn_Node (node_at h a), dn_WaitUntil (node_at h a))) (dh_index h i)"

lemma dh_inv_lookup:
  "dh_inv ID h \<Longrightarrow> dh_index h i = Some a \<Longrightarrow>
   a \<in> set (dh_heap h) \<and> a < length (dh_store h) \<and> ID (dn_Node (node_at h a)) = i"
  by (auto simp: dh_inv_def heap_good_def heap_ok_def)

lemma dh_inv_dom: "dh_inv ID h \<Longrightarrow> dom (dh_abs h) = (\<lambda>a. ID (dn_Node (node_at h a))) ` set (dh_heap h)"
  by (auto simp: dh_inv_def dh_abs_def dom_def image_iff)

text \<open>A step that keeps the nodes and only re-arranges the heap keeps the map.\<close>

lemma dh_abs_same_nodes:
  assumes "same_nodes h h'"
  shows "dh_abs h' = dh_abs h"
proof -
  have "dh_index h' = dh_index h"
    using assms by (simp add: same_nodes_def)
  then show ?thesis
    by (simp add: dh_abs_def fun_eq_iff same_nodes_fields [OF assms])
qed

lemma dh_inv_rearranged:
  assumes "dh_inv ID h" "same_nodes h h'" "heap_good h'" "mset (dh_heap h') = mset (dh_heap h)"
  shows "dh_inv ID h'"
  using assms mset_eq_setD [OF assms(4)] same_nodes_fields [OF assms(2)]
  by (simp add: dh_inv_def same_nodes_def)

lemma dh_Push_new:
  assumes "dh_inv ID h" "dh_abs h (ID n) = None"
  shows "dh_inv ID (snd (dh_Push ID h n t)) \<and> fst (dh_Push ID h n t) = None \<and>
    dh_abs (snd (dh_Push ID h n t)) = (dh_abs h)(ID n \<mapsto> (n, t)) \<and>
    dh_Length (snd (dh_Push ID h n t)) = Suc (dh_Length h)"
proof -
  define a where "a = length (dh_store h)"
  define h1 where "h1 = h\<lparr>dh_store := dh_store h @ [\<lparr>dn_Node = n, dn_WaitUntil = t, dn_index = 0\<rparr>],
    dh_index := (dh_index h)(ID n \<mapsto> a)\<rparr>"
  have free: "dh_index h (ID n) = None"
    using assms(2) by (simp add: dh_abs_def)
  then have push: "dh_Push ID h n t = (None, heap_Push h1 a)"
    by (simp add: dh_Push_def Let_def a_def h1_def)
  have good: "heap_good h" and lt: "b < a" if "b \<in> set (dh_heap h)" for b
    using assms(1) that by (auto simp: dh_inv_def heap_good_def heap_ok_def a_def)
  have old: "node_at h1 b = node_at h b" if "b < a" for b
    using that by (simp add: node_at_def h1_def a_def nth_append)
  have new: "node_at h1 a = \<lparr>dn_Node = n, dn_WaitUntil = t, dn_index = 0\<rparr>"
    by (simp add: node_at_def h1_def a_def)
  have good1: "heap_good h1"
  proof -
    have "heap_good h" using assms(1) by (simp add: dh_inv_def)
    moreover have "heap_items h1 = heap_items h"
      using old lt by (auto simp: heap_items_def item_of_def h1_def)
    ultimately show ?thesis
      using old lt by (auto simp: heap_good_def heap_ok_def h1_def)
  qed
  have a: "a \<notin> set (dh_heap h1)" "a < length (dh_store h1)"
    using lt by (auto simp: h1_def a_def)
  note facts = heap_Push_facts [OF good1 a]
  have set: "set (dh_heap (heap_Push h1 a)) = insert a (set (dh_heap h))"
    using facts(3) by (metis set_mset_mset set_mset_add_mset_insert h1_def DelayHeap.select_convs(3) DelayHeap.surjective DelayHeap.update_convs(1,2))
  have idx: "dh_index (heap_Push h1 a) = (dh_index h)(ID n \<mapsto> a)"
    using facts(2) by (simp add: same_nodes_def h1_def)
  have nodes: "dn_Node (node_at (heap_Push h1 a) b) = dn_Node (node_at h1 b)"
     "dn_WaitUntil (node_at (heap_Push h1 a) b) = dn_WaitUntil (node_at h1 b)" for b
    using same_nodes_fields [OF facts(2)] by auto
  have ix: "dh_index h i = Some b \<longleftrightarrow> b \<in> set (dh_heap h) \<and> ID (dn_Node (node_at h b)) = i" for i b
    using assms(1) by (simp add: dh_inv_def)
  have no: "ID (dn_Node (node_at h b)) \<noteq> ID n" if "b \<in> set (dh_heap h)" for b
    using ix [of "ID n" b] free that by simp
  have "dh_inv ID (heap_Push h1 a)"
    unfolding dh_inv_def idx nodes set
    using facts(1) ix old new lt no by (auto simp: order_less_irrefl)
  moreover have "dh_abs (heap_Push h1 a) = (dh_abs h)(ID n \<mapsto> (n, t))"
  proof
    fix i
    show "dh_abs (heap_Push h1 a) i = ((dh_abs h)(ID n \<mapsto> (n, t))) i"
    proof (cases "dh_index h i")
      case (Some b)
      then have "b < a" using ix [of i b] lt by simp
      with Some show ?thesis
        by (simp add: dh_abs_def idx nodes old new)
    qed (simp add: dh_abs_def idx nodes new)
  qed
  moreover have "dh_Length (heap_Push h1 a) = Suc (dh_Length h)"
    using arg_cong [OF facts(3), of size] by (simp add: dh_Length_def h1_def)
  ultimately show ?thesis
    by (simp add: push)
qed

lemma dh_Push_dup: "dh_abs h (ID n) \<noteq> None \<Longrightarrow> dh_Push ID h n t = (Some (NodeExists (ID n)), h)"
  by (simp add: dh_Push_def dh_abs_def Let_def)

text \<open>Taking a node out: the common end of \<open>Pop\<close> and \<open>Remove\<close>.\<close>

lemma dh_take_out:
  assumes "dh_inv ID h" "same_nodes h h'" "heap_good h'"
    "mset (dh_heap h) = add_mset a (mset (dh_heap h'))" "ID (dn_Node (node_at h a)) = i"
  shows "dh_inv ID (h'\<lparr>dh_index := (dh_index h')(i := None)\<rparr>) \<and>
    dh_abs (h'\<lparr>dh_index := (dh_index h')(i := None)\<rparr>) = (dh_abs h)(i := None) \<and>
    dh_Length h = Suc (dh_Length h')"
proof -
  have dist: "distinct (dh_heap h)" and ix: "\<And>j b. dh_index h j = Some b \<longleftrightarrow>
      b \<in> set (dh_heap h) \<and> ID (dn_Node (node_at h b)) = j"
    using assms(1) by (auto simp: dh_inv_def heap_good_def heap_ok_def)
  have set: "set (dh_heap h) = insert a (set (dh_heap h'))"
    using assms(4) by (metis set_mset_mset set_mset_add_mset_insert)
  have gone: "a \<notin> set (dh_heap h')"
    using dist assms(4) by (metis distinct.simps(2) mset.simps(2) mset_eq_imp_distinct_iff)
  have only: "b = a" if "b \<in> set (dh_heap h)" "ID (dn_Node (node_at h b)) = i" for b
  proof -
    have "dh_index h i = Some b" "dh_index h i = Some a"
      using that ix assms(5) set by auto
    then show ?thesis by simp
  qed
  have sn: "dh_index h' = dh_index h"
    using assms(2) by (simp add: same_nodes_def)
  have nd: "dn_Node (node_at h' b) = dn_Node (node_at h b)"
    "dn_WaitUntil (node_at h' b) = dn_WaitUntil (node_at h b)" for b
    using same_nodes_fields [OF assms(2)] by auto
  have "heap_good (h'\<lparr>dh_index := (dh_index h')(i := None)\<rparr>)"
    using assms(3) by (simp add: heap_good_def heap_ok_def heap_items_def)
  moreover have "((dh_index h)(i := None)) j = Some b \<longleftrightarrow>
      b \<in> set (dh_heap h') \<and> ID (dn_Node (node_at h b)) = j" for j b
  proof (cases "j = i")
    case True
    then show ?thesis
      using only [of b] gone set by auto
  next
    case False
    then have "b \<noteq> a" if "ID (dn_Node (node_at h b)) = j"
      using that assms(5) by auto
    with False show ?thesis
      using ix [of j b] set by auto
  qed
  ultimately have "dh_inv ID (h'\<lparr>dh_index := (dh_index h')(i := None)\<rparr>)"
    by (simp add: dh_inv_def sn nd)
  moreover have "dh_abs (h'\<lparr>dh_index := (dh_index h')(i := None)\<rparr>) = (dh_abs h)(i := None)"
    by (simp add: dh_abs_def fun_eq_iff sn nd)
  moreover have "dh_Length h = Suc (dh_Length h')"
    using arg_cong [OF assms(4), of size] by (simp add: dh_Length_def)
  ultimately show ?thesis by blast
qed

lemma dh_Remove_present:
  assumes "dh_inv ID h" "dh_abs h (ID n) \<noteq> None"
  shows "dh_inv ID (snd (dh_Remove ID h n)) \<and> fst (dh_Remove ID h n) = None \<and>
    dh_abs (snd (dh_Remove ID h n)) = (dh_abs h)(ID n := None) \<and>
    dh_Length h = Suc (dh_Length (snd (dh_Remove ID h n)))"
proof -
  obtain a where a: "dh_index h (ID n) = Some a"
    using assms(2) by (auto simp: dh_abs_def)
  then have mem: "a \<in> set (dh_heap h)" "ID (dn_Node (node_at h a)) = ID n"
    using dh_inv_lookup [OF assms(1)] by auto
  then obtain k where k: "k < length (dh_heap h)" "dh_heap h ! k = a"
    by (auto simp: in_set_conv_nth)
  then have "nat (dn_index (node_at h a)) = k"
    using assms(1) by (auto simp: dh_inv_def heap_good_def heap_ok_def)
  moreover obtain b h' where r: "heap_Remove h k = (b, h')"
    by fastforce
  ultimately have rm: "dh_Remove ID h n = (None, h'\<lparr>dh_index := (dh_index h')(ID n := None)\<rparr>)"
    using a by (simp add: dh_Remove_def Let_def)
  have "heap_good h"
    using assms(1) by (simp add: dh_inv_def)
  note facts = heap_Remove_facts [OF this k(1) r]
  show ?thesis
    using dh_take_out [OF assms(1) facts(3,2,4)] facts(1) k(2) mem(2)
    by (simp add: rm dh_Length_def)
qed

lemma dh_Remove_absent:
  "dh_abs h (ID n) = None \<Longrightarrow> dh_Remove ID h n = (Some (NodeMissing (ID n)), h)"
  by (simp add: dh_Remove_def dh_abs_def)

text \<open>The node on top has a least waiting time.\<close>

lemma dh_top_least:
  assumes "dh_inv ID h" "dh_heap h \<noteq> []" "dh_abs h i = Some (m, u)"
  shows "wait_rank (dn_WaitUntil (node_at h (dh_heap h ! 0))) \<le> wait_rank u"
proof -
  obtain b where b: "b \<in> set (dh_heap h)" "u = dn_WaitUntil (node_at h b)"
    using assms(1,3) dh_inv_lookup [OF assms(1)] by (fastforce simp: dh_abs_def)
  then have "wait_rank u \<in> set (keys_of h)"
    by (auto simp: heap_items_def)
  moreover have "is_heap (keys_of h)"
    using assms(1) by (simp add: dh_inv_def heap_good_def)
  ultimately have "keys_of h ! 0 \<le> wait_rank u"
    by (intro is_heap_hd)
  then show ?thesis
    using assms(2) by (simp add: heap_items_def)
qed

lemma dh_top_present:
  assumes "dh_inv ID h" "dh_heap h \<noteq> []"
  shows "dh_abs h (ID (dn_Node (node_at h (dh_heap h ! 0)))) =
    Some (dn_Node (node_at h (dh_heap h ! 0)), dn_WaitUntil (node_at h (dh_heap h ! 0)))"
proof -
  have "dh_heap h ! 0 \<in> set (dh_heap h)"
    using assms(2) by simp
  then have "dh_index h (ID (dn_Node (node_at h (dh_heap h ! 0)))) = Some (dh_heap h ! 0)"
    using assms(1) by (simp add: dh_inv_def)
  then show ?thesis by (simp add: dh_abs_def)
qed

lemma dh_Peek_Some:
  assumes "dh_inv ID h" "dh_Peek h = Some n"
  shows "dh_abs h (ID (dn_Node n)) = Some (dn_Node n, dn_WaitUntil n) \<and>
    (\<forall>i m u. dh_abs h i = Some (m, u) \<longrightarrow> wait_rank (dn_WaitUntil n) \<le> wait_rank u)"
proof -
  have "dh_heap h \<noteq> []" "n = node_at h (dh_heap h ! 0)"
    using assms(2) by (auto simp: dh_Peek_def split: if_splits)
  then show ?thesis
    using dh_top_least [OF assms(1)] dh_top_present [OF assms(1)] by blast
qed

lemma dh_empty_iff:
  assumes "dh_inv ID h"
  shows "dh_heap h = [] \<longleftrightarrow> dh_abs h = Map.empty"
proof -
  have "dh_heap h = [] \<longleftrightarrow> dom (dh_abs h) = {}"
    by (simp add: dh_inv_dom [OF assms])
  then show ?thesis by simp
qed

lemma dh_Peek_None: "dh_inv ID h \<Longrightarrow> dh_Peek h = None \<longleftrightarrow> dh_abs h = Map.empty"
  by (simp add: dh_Peek_def dh_empty_iff)

lemma dh_Pop_None: "dh_inv ID h \<Longrightarrow> dh_abs h = Map.empty \<Longrightarrow> dh_Pop ID h = (None, h)"
  by (simp add: dh_Pop_def dh_empty_iff)

lemma dh_Pop_Some:
  assumes "dh_inv ID h" "dh_Peek h = Some n"
  shows "\<exists>n' h'. dh_Pop ID h = (Some n', h') \<and> dn_Node n' = dn_Node n \<and>
    dn_WaitUntil n' = dn_WaitUntil n \<and> dh_inv ID h' \<and>
    dh_abs h' = (dh_abs h)(ID (dn_Node n) := None) \<and> dh_Length h = Suc (dh_Length h')"
proof -
  have ne: "dh_heap h \<noteq> []" and n: "n = node_at h (dh_heap h ! 0)"
    using assms(2) by (auto simp: dh_Peek_def split: if_splits)
  obtain a h1 where p: "heap_Pop h = (a, h1)" by fastforce
  have "heap_good h" using assms(1) by (simp add: dh_inv_def)
  note facts = heap_Pop_facts [OF this _ p]
  have fld: "dn_Node (node_at h1 a) = dn_Node n" "dn_WaitUntil (node_at h1 a) = dn_WaitUntil n"
    using facts ne n same_nodes_fields [of h h1 a] by auto
  show ?thesis
    using dh_take_out [OF assms(1) facts(3,2,4), of "ID (dn_Node n)"] ne p fld facts(1) n
    by (simp add: dh_Pop_def dh_Length_def)
qed

text \<open>\<open>Update\<close> replaces the node and its time, and puts it where it belongs.\<close>

lemma dh_Update_present:
  assumes "dh_inv ID h" "dh_abs h (ID n) \<noteq> None"
  shows "dh_inv ID (snd (dh_Update ID h n t)) \<and> fst (dh_Update ID h n t) = None \<and>
    dh_abs (snd (dh_Update ID h n t)) = (dh_abs h)(ID n \<mapsto> (n, t))"
proof -
  obtain a where a: "dh_index h (ID n) = Some a"
    using assms(2) by (auto simp: dh_abs_def)
  then have mem: "a \<in> set (dh_heap h)" "a < length (dh_store h)" "ID (dn_Node (node_at h a)) = ID n"
    using dh_inv_lookup [OF assms(1)] by auto
  define h1 where "h1 = set_node h a ((node_at h a)\<lparr>dn_Node := n, dn_WaitUntil := t\<rparr>)"
  obtain k where k: "k < length (dh_heap h)" "dh_heap h ! k = a"
    using mem(1) by (auto simp: in_set_conv_nth)
  have good: "heap_ok h" "heap_upto (keys_of h) (length (dh_heap h))" "distinct (dh_heap h)"
    using assms(1) by (auto simp: dh_inv_def heap_good_def is_heap_def heap_ok_def)
  have at: "node_at h1 b = (if b = a then (node_at h a)\<lparr>dn_Node := n, dn_WaitUntil := t\<rparr> else node_at h b)" for b
    using mem(2) by (auto simp: h1_def node_at_set_node)
  have "nat (dn_index (node_at h1 a)) = k"
    using good(1) k by (auto simp: heap_ok_def at)
  then have upd: "dh_Update ID h n t = (None, heap_Fix h1 k)"
    using a by (simp add: dh_Update_def Let_def h1_def)
  have hp1: "dh_heap h1 = dh_heap h" "dh_index h1 = dh_index h"
    by (simp_all add: h1_def)
  have ok1: "heap_ok h1"
    using good(1) by (auto simp: heap_ok_def hp1 at) (simp_all add: h1_def)
  have same: "keys_of h1 ! m = keys_of h ! m" if "m < length (dh_heap h)" "m \<noteq> k" for m
    using that k good(3) by (auto simp: heap_items_def hp1 at nth_eq_iff_index_eq)
  have "heap_except (keys_of h) (length (dh_heap h)) k"
    using good(2) k(1) by (intro heap_upto_except)
  then have "heap_except (keys_of h1) (length (dh_heap h1)) k"
    unfolding hp1(1) using k(1) same by (rule heap_except_cong)
  note facts = heap_Fix_facts [OF ok1 _ this]
  have k1: "k < length (dh_heap h1)" using k(1) hp1 by simp
  have inv1: "dh_index h1 i = Some b \<longleftrightarrow> b \<in> set (dh_heap h1) \<and> ID (dn_Node (node_at h1 b)) = i" for i b
    using assms(1) mem by (auto simp: dh_inv_def hp1 at)
  have "dh_inv ID (heap_Fix h1 k)"
    using facts [OF k1] inv1 same_nodes_fields [OF facts(2) [OF k1]] mset_eq_setD [OF facts(3) [OF k1]]
    by (simp add: dh_inv_def same_nodes_def)
  moreover have "dh_abs (heap_Fix h1 k) = (dh_abs h)(ID n \<mapsto> (n, t))"
  proof -
    have "dh_abs h1 i = ((dh_abs h)(ID n \<mapsto> (n, t))) i" for i
      using a mem dh_inv_lookup [OF assms(1), of i a]
      by (cases "dh_index h i") (auto simp: dh_abs_def hp1 at)
    then show ?thesis
      using dh_abs_same_nodes [OF facts(2) [OF k1]] by auto
  qed
  ultimately show ?thesis by (simp add: upd)
qed

lemma dh_Update_absent:
  "dh_abs h (ID n) = None \<Longrightarrow> dh_Update ID h n t = (Some (NodeMissing (ID n)), h)"
  by (simp add: dh_Update_def dh_abs_def)

lemma dh_New: "dh_inv ID NewDelayHeap \<and> dh_abs (NewDelayHeap :: 'n DelayHeap) = Map.empty"
  for ID :: "'n \<Rightarrow> string"
  by (simp add: NewDelayHeap_def dh_inv_def heap_good_def heap_ok_def heap_items_def is_heap_def
      heap_upto_def dh_abs_def fun_eq_iff)

lemma dh_size:
  assumes "dh_inv ID h"
  shows "finite (dom (dh_abs h)) \<and> card (dom (dh_abs h)) = dh_Length h"
proof -
  have ix: "dh_index h (ID (dn_Node (node_at h b))) = Some b" if "b \<in> set (dh_heap h)" for b
    using assms that by (simp add: dh_inv_def)
  have "inj_on (\<lambda>a. ID (dn_Node (node_at h a))) (set (dh_heap h))"
    by (rule inj_onI) (metis ix option.inject)
  moreover have "distinct (dh_heap h)"
    using assms by (simp add: dh_inv_def heap_good_def heap_ok_def)
  ultimately show ?thesis
    by (simp add: dh_inv_dom [OF assms] card_image dh_Length_def distinct_card)
qed

section \<open>The contract of a delay queue\<close>

text \<open>
  What a client such as the duty queue relies on, whatever the implementation: \<open>abs\<close> is the
  finite map the queue stands for, \<open>peek\<close> shows a node with the least waiting time.
\<close>

locale delay_queue =
  fixes ID :: "'n \<Rightarrow> string"
    and inv :: "'q \<Rightarrow> bool"
    and abs :: "'q \<Rightarrow> string \<rightharpoonup> 'n \<times> gotime"
    and len :: "'q \<Rightarrow> nat"
    and push :: "'q \<Rightarrow> 'n \<Rightarrow> gotime \<Rightarrow> go_error option \<times> 'q"
    and peek :: "'q \<Rightarrow> ('n \<times> gotime) option"
    and remove :: "'q \<Rightarrow> 'n \<Rightarrow> go_error option \<times> 'q"
  assumes push_new: "inv q \<Longrightarrow> abs q (ID n) = None \<Longrightarrow>
      inv (snd (push q n t)) \<and> fst (push q n t) = None \<and> abs (snd (push q n t)) = (abs q)(ID n \<mapsto> (n, t))"
    and push_dup: "abs q (ID n) \<noteq> None \<Longrightarrow> snd (push q n t) = q \<and> fst (push q n t) = Some (NodeExists (ID n))"
    and remove_present: "inv q \<Longrightarrow> abs q (ID n) \<noteq> None \<Longrightarrow>
      inv (snd (remove q n)) \<and> fst (remove q n) = None \<and> abs (snd (remove q n)) = (abs q)(ID n := None)"
    and remove_absent: "abs q (ID n) = None \<Longrightarrow> snd (remove q n) = q \<and> fst (remove q n) = Some (NodeMissing (ID n))"
    and peek_None: "inv q \<Longrightarrow> peek q = None \<longleftrightarrow> abs q = Map.empty"
    and peek_Some: "inv q \<Longrightarrow> peek q = Some (n, t) \<Longrightarrow> abs q (ID n) = Some (n, t) \<and>
      (\<forall>i m u. abs q i = Some (m, u) \<longrightarrow> wait_rank t \<le> wait_rank u)"
    and len_card: "inv q \<Longrightarrow> finite (dom (abs q)) \<and> card (dom (abs q)) = len q"
begin

lemma push_inv: "inv q \<Longrightarrow> inv (snd (push q n t))"
  using push_new push_dup by (cases "abs q (ID n)") auto

lemma push_abs: "inv q \<Longrightarrow> abs (snd (push q n t)) =
   (if abs q (ID n) = None then (abs q)(ID n \<mapsto> (n, t)) else abs q)"
  using push_new push_dup by auto

lemma remove_inv: "inv q \<Longrightarrow> inv (snd (remove q n))"
  using remove_present remove_absent by (cases "abs q (ID n)") auto

lemma remove_abs: "inv q \<Longrightarrow> abs (snd (remove q n)) = (abs q)(ID n := None)"
  using remove_present remove_absent by (cases "abs q (ID n)") (auto simp: fun_upd_idem)

lemma push_len: "inv q \<Longrightarrow> abs q (ID n) = None \<Longrightarrow> len (snd (push q n t)) = Suc (len q)"
proof -
  assume q: "inv q" "abs q (ID n) = None"
  have "card (dom (abs (snd (push q n t)))) = Suc (card (dom (abs q)))"
    using q len_card [OF q(1)] by (simp add: push_abs domIff)
  then show ?thesis
    using len_card [OF push_inv [OF q(1)]] len_card [OF q(1)] by simp
qed

lemma remove_len:
  assumes "inv q" "abs q (ID n) \<noteq> None"
  shows "len q = Suc (len (snd (remove q n)))"
proof -
  have "ID n \<in> dom (abs q)" and fin: "finite (dom (abs q))"
    using assms(2) len_card [OF assms(1)] by (simp_all add: domIff)
  then have "card (dom (abs q)) = Suc (card (dom (abs q) - {ID n}))"
    by (metis card.remove)
  then have "card (dom (abs q)) = Suc (card (dom (abs (snd (remove q n)))))"
    unfolding remove_abs [OF assms(1)] by simp
  then show ?thesis
    using len_card [OF remove_inv [OF assms(1), of n]] len_card [OF assms(1)] by linarith
qed

lemma empty_len:
  assumes "inv q"
  shows "peek q = None \<longleftrightarrow> len q = 0"
proof -
  have fin: "finite (dom (abs q))" and c: "card (dom (abs q)) = len q"
    using len_card [OF assms] by auto
  have "peek q = None \<longleftrightarrow> dom (abs q) = {}"
    using peek_None [OF assms] by simp
  then show ?thesis
    unfolding c [symmetric] card_0_eq [OF fin] .
qed

text \<open>The order in which a client that repeatedly takes the top node out sees the nodes.\<close>

fun launch_order :: "nat \<Rightarrow> 'q \<Rightarrow> ('n \<times> gotime) list" where
  "launch_order 0 q = []"
| "launch_order (Suc k) q =
     (case peek q of None \<Rightarrow> [] | Some (n, t) \<Rightarrow> (n, t) # launch_order k (snd (remove q n)))"

lemma launch_order_set:
  "inv q \<Longrightarrow> len q \<le> k \<Longrightarrow> set (launch_order k q) = ran (abs q)"
proof (induction k arbitrary: q)
  case 0
  then have "abs q = Map.empty"
    using len_card [of q] by auto
  then show ?case by simp
next
  case (Suc k)
  show ?case
  proof (cases "peek q")
    case None
    then have "abs q = Map.empty"
      using Suc.prems peek_None by blast
    with None show ?thesis by simp
  next
    case (Some p)
    obtain n t where p: "p = (n, t)" by fastforce
    have top: "abs q (ID n) = Some (n, t)"
      using Some p Suc.prems(1) peek_Some by blast
    have "set (launch_order k (snd (remove q n))) = ran (abs (snd (remove q n)))"
      using Suc.prems top remove_len [of q n] by (intro Suc.IH) (auto simp: remove_inv)
    moreover have "ran (abs q) = insert (n, t) (ran ((abs q)(ID n := None)))"
      using top by (rule ran_upd_split)
    ultimately show ?thesis
      using Some p Suc.prems(1) by (simp add: remove_abs)
  qed
qed

lemma launch_order_sorted:
  "inv q \<Longrightarrow> len q \<le> k \<Longrightarrow> sorted (map (wait_rank \<circ> snd) (launch_order k q))"
proof (induction k arbitrary: q)
  case (Suc k)
  show ?case
  proof (cases "peek q")
    case (Some p)
    obtain n t where p: "p = (n, t)" by fastforce
    have top: "abs q (ID n) = Some (n, t)" "\<And>i m u. abs q i = Some (m, u) \<Longrightarrow> wait_rank t \<le> wait_rank u"
      using Some p Suc.prems(1) peek_Some by blast+
    have r: "inv (snd (remove q n))" "len (snd (remove q n)) \<le> k"
      using Suc.prems top(1) remove_len [of q n] by (auto simp: remove_inv)
    have "wait_rank t \<le> wait_rank u" if "(m, u) \<in> set (launch_order k (snd (remove q n)))" for m u
      using that launch_order_set [OF r] Suc.prems(1) top(2)
      by (auto simp: remove_abs ran_def split: if_splits)
    then show ?thesis
      using Some p Suc.IH [OF r] by auto
  qed simp
qed simp

end

abbreviation dh_top :: "'n DelayHeap \<Rightarrow> ('n \<times> gotime) option" where
  "dh_top h \<equiv> map_option (\<lambda>n. (dn_Node n, dn_WaitUntil n)) (dh_Peek h)"

interpretation dq: delay_queue ID "dh_inv ID" dh_abs dh_Length "dh_Push ID" dh_top "dh_Remove ID"
  for ID :: "'n \<Rightarrow> string"
proof unfold_locales
  fix q :: "'n DelayHeap" and n t
  assume "dh_inv ID q" "dh_top q = Some (n, t)"
  then show "dh_abs q (ID n) = Some (n, t) \<and>
      (\<forall>i m u. dh_abs q i = Some (m, u) \<longrightarrow> wait_rank t \<le> wait_rank u)"
    using dh_Peek_Some by fastforce
qed (simp_all add: dh_Push_new dh_Push_dup dh_Remove_present dh_Remove_absent dh_Peek_None dh_size
    del: not_None_eq)

section \<open>Properties\<close>

text \<open>The nodes in the order in which the delay loop of the duty queue takes them: it peeks at the
  top node and later removes it.\<close>

fun launch_all :: "('n \<Rightarrow> string) \<Rightarrow> nat \<Rightarrow> 'n DelayHeap \<Rightarrow> ('n \<times> gotime) list" where
  "launch_all ID 0 h = []"
| "launch_all ID (Suc k) h =
     (case dh_Peek h of
        None \<Rightarrow> []
      | Some n \<Rightarrow> (dn_Node n, dn_WaitUntil n) # launch_all ID k (snd (dh_Remove ID h (dn_Node n))))"

lemma launch_all_eq: "launch_all ID k h = dq.launch_order ID k h"
  by (induction k arbitrary: h) (auto split: option.split)

text \<open>A heap with one node, for the examples.\<close>

definition one_node :: "string DelayHeap" where
  "one_node = snd (dh_Push id NewDelayHeap ''a'' 7)"

lemma one_node: "dh_inv id one_node" "dh_abs one_node = [''a'' \<mapsto> (''a'', 7)]"
proof -
  have "dh_inv id (NewDelayHeap :: string DelayHeap)"
    "dh_abs (NewDelayHeap :: string DelayHeap) (id ''a'') = None"
    using dh_New [of "id :: string \<Rightarrow> string"] by auto
  note p = dh_Push_new [of id NewDelayHeap "''a''" 7, OF this]
  then show "dh_inv id one_node" "dh_abs one_node = [''a'' \<mapsto> (''a'', 7)]"
    using dh_New [of "id :: string \<Rightarrow> string"] by (simp_all add: one_node_def)
qed



text \<open>C28: the top of the heap.  \<open>Peek\<close> and \<open>Pop\<close> return nil exactly on the empty heap; otherwise they
  return the same node, its waiting time is least (a zero time counts as latest), and \<open>Pop\<close> takes
  exactly that node out.\<close>

theorem dh_Pop_takes_earliest:
  assumes "dh_inv ID h"
  shows "(dh_abs h = Map.empty \<longrightarrow> dh_Peek h = None \<and> dh_Pop ID h = (None, h)) \<and>
    (dh_abs h \<noteq> Map.empty \<longrightarrow> (\<exists>n m h'. dh_Peek h = Some n \<and> dh_Pop ID h = (Some m, h') \<and>
       dn_Node m = dn_Node n \<and> dn_WaitUntil m = dn_WaitUntil n \<and>
       dh_abs h (ID (dn_Node n)) = Some (dn_Node n, dn_WaitUntil n) \<and>
       (\<forall>i k u. dh_abs h i = Some (k, u) \<longrightarrow> wait_rank (dn_WaitUntil n) \<le> wait_rank u) \<and>
       dh_inv ID h' \<and> dh_abs h' = (dh_abs h)(ID (dn_Node n) := None)))"
proof (cases "dh_Peek h")
  case None
  then show ?thesis
    using dh_Peek_None [OF assms] dh_Pop_None [OF assms] by simp
next
  case (Some n)
  then have "dh_abs h \<noteq> Map.empty"
    using dh_Peek_None [OF assms] by force
  then show ?thesis
    using Some dh_Pop_Some [OF assms Some] dh_Peek_Some [OF assms Some] by auto
qed

theorem dh_Pop_takes_earliest_witness:
  "\<exists>n. dh_Peek one_node = Some n \<and> dn_Node n = ''a''"
  using dh_Pop_takes_earliest [OF one_node(1)] by (auto simp: one_node(2) split: if_splits)

text \<open>Taking the top node out until the heap is empty yields every node exactly as stored, in
  order of waiting time, zero times last.\<close>

lemma launch_all_sorted:
  assumes "dh_inv ID h"
  shows "sorted (map (wait_rank \<circ> snd) (launch_all ID (dh_Length h) h)) \<and>
    set (launch_all ID (dh_Length h) h) = ran (dh_abs h)"
  unfolding launch_all_eq
  using dq.launch_order_sorted [OF assms order_refl] dq.launch_order_set [OF assms order_refl]
  by simp

lemma launch_all_sorted_one:
  "set (launch_all id (dh_Length one_node) one_node) = {(''a'', 7)}"
  using launch_all_sorted [OF one_node(1)] by (simp add: one_node(2))

end
