(* ===== verification/DutyQueue.thy ===== *)
theory DutyQueue
  imports DelayHeap Proto
begin

text \<open>
  The duty queue of \<open>internal/server/duty_queue.go\<close>.  A duty waits in \<open>blocked\<close> until the
  duties it depends on are acknowledged, then in the delay heap until its time, then in the
  \<open>ready\<close> list until a worker dequeues it, and it stays in \<open>unack\<close> until it is acknowledged.

  Every operation below is the body of a method between \<open>Lock\<close> and \<open>Unlock\<close>; the sends on
  \<open>delayUpdateCh\<close> and \<open>updateCh\<close> are reported as a Boolean; QueueLoop gives the first its meaning.  A trace context has any type \<open>'c\<close>.
\<close>

section \<open>State\<close>

record EvalStats =
  TotalReady :: int
  TotalUnacked :: int
  TotalBlocked :: int
  TotalWaiting :: int
  DelayedEvals :: "string \<rightharpoonup> Duty"

record blockedDuty =
  bd_Duty :: Duty
  bd_Blocked :: "string set"

record 'c DutyQueue =
  q_delayHeap :: "Duty DelayHeap"
  q_stats :: EvalStats
  q_unack :: "string \<rightharpoonup> Duty"
  q_ctxMap :: "string \<rightharpoonup> 'c"
  q_blocked :: "string \<rightharpoonup> blockedDuty"
  q_reverse :: "string \<rightharpoonup> string list"
  q_ready :: "Duty list"

definition new_EvalStats :: EvalStats where
  "new_EvalStats = \<lparr>TotalReady = 0, TotalUnacked = 0, TotalBlocked = 0, TotalWaiting = 0, DelayedEvals = Map.empty\<rparr>"

definition NewEvalQueue :: "'c DutyQueue" where
  "NewEvalQueue = \<lparr>q_delayHeap = NewDelayHeap, q_stats = new_EvalStats, q_unack = Map.empty,
     q_ctxMap = Map.empty, q_blocked = Map.empty, q_reverse = Map.empty, q_ready = []\<rparr>"

section \<open>Operations\<close>

definition duty_time :: "Duty \<Rightarrow> gotime" where
  "duty_time d = AsTime (d_ActiveTime d)"

text \<open>\<open>p.delayHeap.Push(&dutyWrapper{duty}, duty.ActiveTime.AsTime())\<close>, its error dropped as in the code.\<close>

definition push_delayed :: "Duty \<Rightarrow> 'c DutyQueue \<Rightarrow> 'c DutyQueue" where
  "push_delayed d q = q\<lparr>q_delayHeap := snd (dh_Push d_Id (q_delayHeap q) d (duty_time d))\<rparr>"

text \<open>One turn of the loop over \<open>duty.BlockedBy\<close>: an entry that already exists is emptied first.\<close>

definition add_reverse :: "string \<Rightarrow> string \<Rightarrow> (string \<rightharpoonup> string list) \<Rightarrow> (string \<rightharpoonup> string list)" where
  "add_reverse i dep m =
     (let m1 = (if m dep \<noteq> None then m(dep \<mapsto> []) else m)
      in m1(dep \<mapsto> (case m1 dep of None \<Rightarrow> [] | Some l \<Rightarrow> l) @ [i]))"

definition enqueue_blocked :: "Duty \<Rightarrow> 'c DutyQueue \<Rightarrow> 'c DutyQueue" where
  "enqueue_blocked d q =
     q\<lparr>q_blocked := (q_blocked q)(d_Id d \<mapsto> \<lparr>bd_Duty = d, bd_Blocked = set (d_BlockedBy d)\<rparr>),
       q_reverse := fold (add_reverse (d_Id d)) (d_BlockedBy d) (q_reverse q),
       q_stats := (q_stats q)\<lparr>TotalBlocked := TotalBlocked (q_stats q) + int (length (d_BlockedBy d))\<rparr>\<rparr>"

definition enqueue_free :: "Duty \<Rightarrow> 'c DutyQueue \<Rightarrow> 'c DutyQueue" where
  "enqueue_free d q =
     (push_delayed d q)\<lparr>q_stats := (q_stats q)\<lparr>TotalWaiting := TotalWaiting (q_stats q) + 1\<rparr>\<rparr>"

definition enqueue_one :: "'c \<Rightarrow> Duty \<Rightarrow> 'c DutyQueue \<Rightarrow> 'c DutyQueue" where
  "enqueue_one ctx d q =
     (let q1 = (if length (d_BlockedBy d) \<noteq> 0 then enqueue_blocked d q else enqueue_free d q)
      in q1\<lparr>q_ctxMap := (q_ctxMap q1)(d_Id d \<mapsto> ctx)\<rparr>)"

definition Enqueue :: "'c \<Rightarrow> Duty list \<Rightarrow> 'c DutyQueue \<Rightarrow> bool \<times> 'c DutyQueue" where
  "Enqueue ctx duties q =
     (if length duties = 0 then (False, q) else (True, fold (enqueue_one ctx) duties q))"

text \<open>One pass of \<open>Dequeue\<close> under the lock: \<open>None\<close> means that nothing is ready and the caller waits.\<close>

definition Dequeue :: "'c DutyQueue \<Rightarrow> (Duty \<times> 'c) outcome option \<times> 'c DutyQueue" where
  "Dequeue q =
     (case q_ready q of
        [] \<Rightarrow> (None, q)
      | duty # rest \<Rightarrow>
          let q1 = q\<lparr>q_ready := rest, q_unack := (q_unack q)(d_Id duty \<mapsto> duty)\<rparr>
          in (case q_ctxMap q1 (d_Id duty) of
                None \<Rightarrow> (Some (Err (ContextNotFound (d_Id duty))), q1)
              | Some ctx \<Rightarrow>
                  (Some (Ok (duty, ctx)),
                   q1\<lparr>q_stats := (q_stats q1)\<lparr>TotalUnacked := TotalUnacked (q_stats q1) + 1,
                      TotalReady := TotalReady (q_stats q1) - 1\<rparr>\<rparr>)))"

text \<open>One turn of the loop of \<open>Ack\<close> over the duties that wait for \<open>dutyID\<close>.\<close>

definition unblock_one :: "string \<Rightarrow> string \<Rightarrow> 'c DutyQueue \<Rightarrow> go_error option \<times> bool \<times> 'c DutyQueue" where
  "unblock_one dutyID i q =
     (case q_blocked q i of
        None \<Rightarrow> (Some (UnblockNotFound i), False, q)
      | Some found \<Rightarrow>
          if dutyID \<notin> bd_Blocked found then (Some (NotADependency dutyID (d_Id (bd_Duty found))), False, q)
          else let left = bd_Blocked found - {dutyID};
                   q1 = q\<lparr>q_blocked := (q_blocked q)(i \<mapsto> found\<lparr>bd_Blocked := left\<rparr>)\<rparr>
               in if left = {}
                  then (None, True,
                    push_delayed (bd_Duty found)
                      (q1\<lparr>q_blocked := (q_blocked q1)(i := None),
                          q_stats := (q_stats q1)\<lparr>TotalBlocked := TotalBlocked (q_stats q1) - 1,
                            TotalWaiting := TotalWaiting (q_stats q1) + 1\<rparr>\<rparr>))
                  else (None, False, q1))"

fun unblock_all :: "string \<Rightarrow> string list \<Rightarrow> 'c DutyQueue \<Rightarrow> go_error option \<times> bool \<times> 'c DutyQueue" where
  "unblock_all dutyID [] q = (None, False, q)"
| "unblock_all dutyID (i # is) q =
     (case unblock_one dutyID i q of
        (Some e, sig, q1) \<Rightarrow> (Some e, sig, q1)
      | (None, sig, q1) \<Rightarrow>
          (case unblock_all dutyID is q1 of (r, sig2, q2) \<Rightarrow> (r, sig \<or> sig2, q2)))"

definition Ack :: "string \<Rightarrow> 'c DutyQueue \<Rightarrow> go_error option \<times> bool \<times> 'c DutyQueue" where
  "Ack dutyID q =
     (case q_unack q dutyID of
        None \<Rightarrow> (Some (DutyNotFound dutyID), False, q)
      | Some _ \<Rightarrow>
          let q1 = q\<lparr>q_unack := (q_unack q)(dutyID := None), q_ctxMap := (q_ctxMap q)(dutyID := None),
                q_stats := (q_stats q)\<lparr>TotalUnacked := TotalUnacked (q_stats q) - 1\<rparr>\<rparr>
          in (case q_reverse q1 dutyID of
                None \<Rightarrow> (None, False, q1)
              | Some blockedDuties \<Rightarrow> unblock_all dutyID blockedDuties q1))"

definition enqueueLocked :: "Duty \<Rightarrow> 'c DutyQueue \<Rightarrow> 'c DutyQueue" where
  "enqueueLocked d q =
     q\<lparr>q_stats := (q_stats q)\<lparr>TotalReady := TotalReady (q_stats q) + 1\<rparr>, q_ready := q_ready q @ [d]\<rparr>"

definition nextDelayedEval :: "'c DutyQueue \<Rightarrow> Duty option \<times> gotime" where
  "nextDelayedEval q =
     (if dh_Length (q_delayHeap q) = 0 then (None, zero_time)
      else case dh_Peek (q_delayHeap q) of
             None \<Rightarrow> (None, zero_time)
           | Some n \<Rightarrow> (Some (dn_Node n), dn_WaitUntil n))"

text \<open>The timer branch of \<open>runDelayHeap\<close>.\<close>

definition fire_delayed :: "Duty \<Rightarrow> 'c DutyQueue \<Rightarrow> 'c DutyQueue" where
  "fire_delayed d q =
     enqueueLocked d
       (q\<lparr>q_delayHeap := snd (dh_Remove d_Id (q_delayHeap q) d),
          q_stats := (q_stats q)\<lparr>TotalWaiting := TotalWaiting (q_stats q) - 1\<rparr>\<rparr>)"

definition Stats :: "'c DutyQueue \<Rightarrow> EvalStats" where
  "Stats q = \<lparr>TotalReady = TotalReady (q_stats q), TotalUnacked = TotalUnacked (q_stats q),
     TotalBlocked = TotalBlocked (q_stats q), TotalWaiting = TotalWaiting (q_stats q),
     DelayedEvals = (\<lambda>i. map_option Duty_Copy (DelayedEvals (q_stats q) i))\<rparr>"

text \<open>
  One turn of \<open>EmitStats\<close>: the gauges it sets, the counters first and then one for each delayed duty, with
  the time left until it starts.  The order of the range over the map is a parameter, and the
  conversion to \<open>float32\<close> is left to the metrics library.
\<close>

datatype gauge = QueueGauge string int | WaitingGauge string Duration

definition EmitStats_turn :: "gotime \<Rightarrow> string list \<Rightarrow> 'c DutyQueue \<Rightarrow> gauge list" where
  "EmitStats_turn now order q =
     (let stats = Stats q in
      [QueueGauge ''total_ready'' (TotalReady stats), QueueGauge ''total_unacked'' (TotalUnacked stats),
       QueueGauge ''total_blocked'' (TotalBlocked stats), QueueGauge ''total_waiting'' (TotalWaiting stats)] @
      [WaitingGauge (d_Id duty) (time_Sub (duty_time duty) now). Some duty \<leftarrow> map (DelayedEvals stats) order])"

section \<open>Where a duty is\<close>

definition waiting_ids :: "'c DutyQueue \<Rightarrow> string set" where
  "waiting_ids q = dom (dh_abs (q_delayHeap q))"

definition ready_ids :: "'c DutyQueue \<Rightarrow> string set" where
  "ready_ids q = d_Id ` set (q_ready q)"

definition queue_ids :: "'c DutyQueue \<Rightarrow> string set" where
  "queue_ids q = waiting_ids q \<union> ready_ids q \<union> dom (q_unack q) \<union> dom (q_blocked q)"

text \<open>
  The structural invariant: every id is in exactly one place and is the id of the duty found
  there, a waiting duty waits for its own time, the contexts are those of the duties in the
  queue, and three of the four counters count what their names say.
\<close>

definition queue_wf :: "'c DutyQueue \<Rightarrow> bool" where
  "queue_wf q \<longleftrightarrow>
     dh_inv d_Id (q_delayHeap q) \<and>
     (\<forall>i d t. dh_abs (q_delayHeap q) i = Some (d, t) \<longrightarrow> d_Id d = i \<and> t = duty_time d) \<and>
     (\<forall>i d. q_unack q i = Some d \<longrightarrow> d_Id d = i) \<and>
     (\<forall>i b. q_blocked q i = Some b \<longrightarrow> d_Id (bd_Duty b) = i) \<and>
     distinct (map d_Id (q_ready q)) \<and> finite (dom (q_unack q))"

definition queue_apart :: "'c DutyQueue \<Rightarrow> bool" where
  "queue_apart q \<longleftrightarrow>
     apart (waiting_ids q) (ready_ids q) (dom (q_unack q)) (dom (q_blocked q))"

definition queue_counts :: "'c DutyQueue \<Rightarrow> bool" where
  "queue_counts q \<longleftrightarrow>
     TotalReady (q_stats q) = int (length (q_ready q)) \<and>
     TotalUnacked (q_stats q) = int (card (dom (q_unack q))) \<and>
     TotalWaiting (q_stats q) = int (dh_Length (q_delayHeap q))"

definition queue_inv :: "'c DutyQueue \<Rightarrow> bool" where
  "queue_inv q \<longleftrightarrow> queue_wf q \<and> queue_apart q \<and> queue_counts q \<and> dom (q_ctxMap q) = queue_ids q"

lemmas queue_inv_defs = queue_inv_def queue_wf_def queue_apart_def queue_counts_def

section \<open>Each operation keeps the structural invariant\<close>

lemma push_delayed_frame [simp]:
  "q_stats (push_delayed d q) = q_stats q" "q_unack (push_delayed d q) = q_unack q"
  "q_ctxMap (push_delayed d q) = q_ctxMap q" "q_blocked (push_delayed d q) = q_blocked q"
  "q_reverse (push_delayed d q) = q_reverse q" "q_ready (push_delayed d q) = q_ready q"
  by (simp_all add: push_delayed_def)

lemma push_delayed_heap:
  assumes "dh_inv d_Id (q_delayHeap q)" "d_Id d \<notin> waiting_ids q"
  shows "dh_inv d_Id (q_delayHeap (push_delayed d q))"
    "dh_abs (q_delayHeap (push_delayed d q)) = (dh_abs (q_delayHeap q))(d_Id d \<mapsto> (d, duty_time d))"
    "dh_Length (q_delayHeap (push_delayed d q)) = Suc (dh_Length (q_delayHeap q))"
proof -
  have new: "dh_abs (q_delayHeap q) (d_Id d) = None"
    using assms(2) unfolding waiting_ids_def domIff by blast
  show "dh_inv d_Id (q_delayHeap (push_delayed d q))"
    "dh_abs (q_delayHeap (push_delayed d q)) = (dh_abs (q_delayHeap q))(d_Id d \<mapsto> (d, duty_time d))"
    "dh_Length (q_delayHeap (push_delayed d q)) = Suc (dh_Length (q_delayHeap q))"
    using assms(1) new by (simp_all add: push_delayed_def dq.push_inv dq.push_abs dq.push_len)
qed

lemma fire_delayed_heap:
  assumes "dh_inv d_Id (q_delayHeap q)" "d_Id d \<in> waiting_ids q"
  shows "dh_inv d_Id (q_delayHeap (fire_delayed d q))"
    "dh_abs (q_delayHeap (fire_delayed d q)) = (dh_abs (q_delayHeap q))(d_Id d := None)"
    "dh_Length (q_delayHeap q) = Suc (dh_Length (q_delayHeap (fire_delayed d q)))"
proof -
  have old: "dh_abs (q_delayHeap q) (d_Id d) \<noteq> None"
    using assms(2) unfolding waiting_ids_def domIff by blast
  show "dh_inv d_Id (q_delayHeap (fire_delayed d q))"
    "dh_abs (q_delayHeap (fire_delayed d q)) = (dh_abs (q_delayHeap q))(d_Id d := None)"
    using assms(1) by (simp_all add: fire_delayed_def enqueueLocked_def dq.remove_inv dq.remove_abs)
  show "dh_Length (q_delayHeap q) = Suc (dh_Length (q_delayHeap (fire_delayed d q)))"
    using dq.remove_len [OF assms(1) old] by (simp add: fire_delayed_def enqueueLocked_def)
qed

lemma fire_delayed_frame [simp]:
  "q_unack (fire_delayed d q) = q_unack q" "q_ctxMap (fire_delayed d q) = q_ctxMap q"
  "q_blocked (fire_delayed d q) = q_blocked q" "q_reverse (fire_delayed d q) = q_reverse q"
  "q_ready (fire_delayed d q) = q_ready q @ [d]"
  "q_stats (fire_delayed d q) = (q_stats q)\<lparr>TotalWaiting := TotalWaiting (q_stats q) - 1,
     TotalReady := TotalReady (q_stats q) + 1\<rparr>"
  by (simp_all add: fire_delayed_def enqueueLocked_def)

lemma NewEvalQueue_inv: "queue_inv NewEvalQueue"
proof -
  have "dh_Length (NewDelayHeap :: Duty DelayHeap) = 0"
    by (simp add: NewDelayHeap_def dh_Length_def)
  then show ?thesis
    using dh_New [of d_Id]
    by (auto simp: queue_inv_defs apart_def NewEvalQueue_def new_EvalStats_def waiting_ids_def ready_ids_def queue_ids_def)
qed

lemma queue_inv_heap: "queue_inv q \<Longrightarrow> dh_inv d_Id (q_delayHeap q)"
  by (simp add: queue_inv_def queue_wf_def)

lemma queue_inv_entry: "queue_inv q \<Longrightarrow> dh_abs (q_delayHeap q) i = Some (d, t) \<Longrightarrow> d_Id d = i \<and> t = duty_time d"
  unfolding queue_inv_def queue_wf_def by blast

lemma waiting_idsI: "dh_abs (q_delayHeap q) i = Some p \<Longrightarrow> i \<in> waiting_ids q"
  unfolding waiting_ids_def by (rule domI)

text \<open>How the four sets of ids change.\<close>

lemma ids_enqueue_blocked [simp]:
  "waiting_ids (enqueue_blocked d q) = waiting_ids q" "ready_ids (enqueue_blocked d q) = ready_ids q"
  "dom (q_unack (enqueue_blocked d q)) = dom (q_unack q)"
  "dom (q_blocked (enqueue_blocked d q)) = insert (d_Id d) (dom (q_blocked q))"
  by (simp_all add: enqueue_blocked_def waiting_ids_def ready_ids_def)

lemma ids_push_delayed:
  assumes "dh_inv d_Id (q_delayHeap q)" "d_Id d \<notin> waiting_ids q"
  shows "waiting_ids (push_delayed d q) = insert (d_Id d) (waiting_ids q)"
    "ready_ids (push_delayed d q) = ready_ids q"
  using push_delayed_heap(2) [OF assms] by (auto simp: waiting_ids_def ready_ids_def)

lemma ids_fire:
  assumes "dh_inv d_Id (q_delayHeap q)" "d_Id d \<in> waiting_ids q"
  shows "waiting_ids (fire_delayed d q) = waiting_ids q - {d_Id d}"
    "ready_ids (fire_delayed d q) = insert (d_Id d) (ready_ids q)"
  using fire_delayed_heap(2) [OF assms] by (auto simp: waiting_ids_def ready_ids_def)

lemma ids_update [simp]:
  "waiting_ids (q\<lparr>q_ctxMap := c\<rparr>) = waiting_ids q" "ready_ids (q\<lparr>q_ctxMap := c\<rparr>) = ready_ids q"
  "waiting_ids (q\<lparr>q_stats := st\<rparr>) = waiting_ids q" "ready_ids (q\<lparr>q_stats := st\<rparr>) = ready_ids q"
  "waiting_ids (q\<lparr>q_unack := u\<rparr>) = waiting_ids q" "ready_ids (q\<lparr>q_unack := u\<rparr>) = ready_ids q"
  "waiting_ids (q\<lparr>q_blocked := bl\<rparr>) = waiting_ids q" "ready_ids (q\<lparr>q_blocked := bl\<rparr>) = ready_ids q"
  "waiting_ids (q\<lparr>q_ready := r\<rparr>) = waiting_ids q" "ready_ids (q\<lparr>q_ready := r\<rparr>) = d_Id ` set r"
  by (simp_all add: waiting_ids_def ready_ids_def)

lemma queue_inv_enqueue_one:
  assumes inv: "queue_inv q" and fresh: "d_Id d \<notin> queue_ids q"
  shows "queue_inv (enqueue_one ctx d q)"
    "queue_ids (enqueue_one ctx d q) = insert (d_Id d) (queue_ids q)"
proof -
  have w: "dh_inv d_Id (q_delayHeap q)" "d_Id d \<notin> waiting_ids q"
    using inv fresh by (auto simp: queue_inv_defs queue_ids_def)
  let ?q = "enqueue_one ctx d q"
  have free: "?q = (push_delayed d q)\<lparr>q_stats := (q_stats q)\<lparr>TotalWaiting := TotalWaiting (q_stats q) + 1\<rparr>,
      q_ctxMap := (q_ctxMap q)(d_Id d \<mapsto> ctx)\<rparr>" if "d_BlockedBy d = []"
    using that by (simp add: enqueue_one_def enqueue_free_def Let_def)
  have blk: "?q = (enqueue_blocked d q)\<lparr>q_ctxMap := (q_ctxMap q)(d_Id d \<mapsto> ctx)\<rparr>" if "d_BlockedBy d \<noteq> []"
    using that by (simp add: enqueue_one_def enqueue_blocked_def Let_def)
  show ids: "queue_ids ?q = insert (d_Id d) (queue_ids q)"
    by (cases "d_BlockedBy d = []") (auto simp: free blk queue_ids_def ids_push_delayed [OF w])
  have "queue_wf ?q"
    using inv w by (cases "d_BlockedBy d = []")
      (auto simp: free blk queue_inv_def queue_wf_def push_delayed_heap enqueue_blocked_def)
  moreover have "queue_apart ?q"
    using inv fresh apart_insert [of "waiting_ids q" "ready_ids q" "dom (q_unack q)" "dom (q_blocked q)" "d_Id d"]
    unfolding queue_inv_def queue_apart_def queue_ids_def
    by (cases "d_BlockedBy d = []") (simp_all add: free blk ids_push_delayed [OF w])
  moreover have "queue_counts ?q"
    using inv w by (cases "d_BlockedBy d = []")
      (auto simp: free blk queue_inv_def queue_counts_def push_delayed_heap enqueue_blocked_def)
  moreover have "dom (q_ctxMap ?q) = queue_ids ?q"
    using inv ids by (cases "d_BlockedBy d = []") (auto simp: free blk queue_inv_def)
  ultimately show "queue_inv ?q"
    by (simp add: queue_inv_def)
qed

lemma queue_inv_fire:
  assumes inv: "queue_inv q" and d: "dh_abs (q_delayHeap q) (d_Id d) = Some (d, t)"
  shows "queue_inv (fire_delayed d q)" "queue_ids (fire_delayed d q) = queue_ids q"
proof -
  have w: "dh_inv d_Id (q_delayHeap q)" "d_Id d \<in> waiting_ids q"
    using queue_inv_heap [OF inv] waiting_idsI [OF d] by blast+
  let ?q = "fire_delayed d q"
  show ids: "queue_ids ?q = queue_ids q"
    using w(2) by (auto simp: queue_ids_def ids_fire [OF w])
  have ap: "queue_apart q"
    using inv by (simp add: queue_inv_def)
  then have "waiting_ids q \<inter> ready_ids q = {}"
    by (simp add: queue_apart_def apart_def)
  then have nr: "d_Id d \<notin> d_Id ` set (q_ready q)"
    using w(2) unfolding ready_ids_def by blast
  have "queue_wf ?q"
    unfolding queue_wf_def
  proof (intro conjI allI impI)
    fix i e u assume "dh_abs (q_delayHeap ?q) i = Some (e, u)"
    then have "dh_abs (q_delayHeap q) i = Some (e, u)"
      by (simp add: fire_delayed_heap(2) [OF w] split: if_splits)
    then show "d_Id e = i" "u = duty_time e"
      using queue_inv_entry [OF inv] by auto
  qed (use inv nr fire_delayed_heap(1) [OF w] in \<open>auto simp: queue_inv_def queue_wf_def\<close>)
  moreover have "queue_apart ?q"
    using ap w(2) unfolding queue_apart_def ids_fire [OF w] fire_delayed_frame by (rule apart_move)
  moreover have "queue_counts ?q"
    using inv fire_delayed_heap(3) [OF w] by (auto simp: queue_inv_def queue_counts_def)
  moreover have "dom (q_ctxMap ?q) = queue_ids ?q"
    using inv ids by (simp add: queue_inv_def)
  ultimately show "queue_inv ?q"
    by (simp add: queue_inv_def)
qed

lemma queue_inv_Dequeue:
  assumes inv: "queue_inv q" and deq: "Dequeue q = (Some r, q')"
  shows "queue_inv q'" "queue_ids q' = queue_ids q"
    "\<exists>d ctx. q_ready q = d # q_ready q' \<and> r = Ok (d, ctx) \<and> q_ctxMap q (d_Id d) = Some ctx \<and>
      q_unack q' = (q_unack q)(d_Id d \<mapsto> d) \<and> q_delayHeap q' = q_delayHeap q \<and>
      q_blocked q' = q_blocked q \<and> q_reverse q' = q_reverse q \<and> q_ctxMap q' = q_ctxMap q"
proof -
  obtain d rest where rd: "q_ready q = d # rest"
    using deq by (auto simp: Dequeue_def split: list.splits)
  have mem: "d_Id d \<in> ready_ids q"
    using rd by (simp add: ready_ids_def)
  have ap: "queue_apart q"
    using inv by (simp add: queue_inv_def)
  then have un: "d_Id d \<notin> dom (q_unack q)"
    using mem unfolding queue_apart_def apart_def by blast
  have "d_Id d \<in> queue_ids q"
    using rd by (auto simp: queue_ids_def ready_ids_def)
  then have "d_Id d \<in> dom (q_ctxMap q)"
    using inv by (simp add: queue_inv_def)
  then obtain ctx where ctx: "q_ctxMap q (d_Id d) = Some ctx" by auto
  have q': "q' = q\<lparr>q_ready := rest, q_unack := (q_unack q)(d_Id d \<mapsto> d),
      q_stats := (q_stats q)\<lparr>TotalUnacked := TotalUnacked (q_stats q) + 1,
        TotalReady := TotalReady (q_stats q) - 1\<rparr>\<rparr>" "r = Ok (d, ctx)"
    using deq rd ctx by (auto simp: Dequeue_def Let_def)
  have "d_Id d \<notin> d_Id ` set rest"
    using inv rd by (simp add: queue_inv_def queue_wf_def)
  then have rids: "ready_ids q' = ready_ids q - {d_Id d}"
    using rd by (auto simp: q' ready_ids_def)
  have other: "waiting_ids q' = waiting_ids q" "dom (q_unack q') = insert (d_Id d) (dom (q_unack q))"
    "q_blocked q' = q_blocked q"
    by (simp_all add: q' waiting_ids_def)
  show ids: "queue_ids q' = queue_ids q"
    unfolding queue_ids_def rids other using mem by blast
  have "queue_wf q'"
    using inv rd unfolding queue_inv_def queue_wf_def by (simp add: q')
  moreover have "queue_apart q'"
    using ap mem unfolding queue_apart_def rids other by (rule apart_move)
  moreover have "queue_counts q'"
    using inv rd un by (simp add: q' queue_inv_def queue_counts_def queue_wf_def)
  moreover have "dom (q_ctxMap q') = queue_ids q'"
    using inv ids by (simp add: q' queue_inv_def)
  ultimately show "queue_inv q'"
    by (simp add: queue_inv_def)
  show "\<exists>d ctx. q_ready q = d # q_ready q' \<and> r = Ok (d, ctx) \<and> q_ctxMap q (d_Id d) = Some ctx \<and>
      q_unack q' = (q_unack q)(d_Id d \<mapsto> d) \<and> q_delayHeap q' = q_delayHeap q \<and>
      q_blocked q' = q_blocked q \<and> q_reverse q' = q_reverse q \<and> q_ctxMap q' = q_ctxMap q"
    using q' rd ctx by simp
qed

section \<open>Dependencies\<close>

text \<open>The duties that left \<open>blocked\<close>, or never were there, and are not yet acknowledged.\<close>

definition launched :: "'c DutyQueue \<Rightarrow> Duty \<Rightarrow> bool" where
  "launched q d \<longleftrightarrow> (\<exists>i t. dh_abs (q_delayHeap q) i = Some (d, t)) \<or> d \<in> set (q_ready q) \<or> (\<exists>i. q_unack q i = Some d)"

text \<open>
  With \<open>acked\<close> the ids acknowledged so far: a launched duty has all its dependencies acknowledged;
  a blocked duty still waits for something and has been released from acknowledged duties only;
  the reverse map names one dependent, which really waits as long as the dependency is open.
\<close>

definition deps_inv :: "'c DutyQueue \<Rightarrow> string set \<Rightarrow> bool" where
  "deps_inv q acked \<longleftrightarrow>
     (\<forall>d. launched q d \<longrightarrow> set (d_BlockedBy d) \<subseteq> acked) \<and>
     (\<forall>i b. q_blocked q i = Some b \<longrightarrow> bd_Blocked b \<noteq> {} \<and> bd_Blocked b \<subseteq> set (d_BlockedBy (bd_Duty b)) \<and>
        set (d_BlockedBy (bd_Duty b)) - bd_Blocked b \<subseteq> acked) \<and>
     (\<forall>dep l. q_reverse q dep = Some l \<longrightarrow> (\<exists>i. l = [i] \<and>
        (dep \<notin> acked \<longrightarrow> (\<exists>b. q_blocked q i = Some b \<and> dep \<in> bd_Blocked b))))"

lemma add_reverse_eq: "add_reverse i dep m = m(dep \<mapsto> [i])"
  by (auto simp: add_reverse_def Let_def)

lemma fold_add_reverse:
  "fold (add_reverse i) deps m dep = (if dep \<in> set deps then Some [i] else m dep)"
  by (induction deps arbitrary: m) (auto simp: add_reverse_eq)

lemma launched_push_delayed:
  assumes "dh_inv d_Id (q_delayHeap q)" "d_Id d \<notin> waiting_ids q"
  shows "launched (push_delayed d q) e \<longleftrightarrow> e = d \<or> launched q e"
proof -
  have "dh_abs (q_delayHeap q) (d_Id d) = None"
    using assms(2) by (metis waiting_idsI not_None_eq)
  then show ?thesis
    unfolding launched_def push_delayed_frame push_delayed_heap(2) [OF assms]
    by (metis fun_upd_apply option.distinct(1) option.inject prod.inject)
qed

lemma launched_fire:
  assumes "dh_inv d_Id (q_delayHeap q)" "dh_abs (q_delayHeap q) (d_Id d) = Some (d, t)"
  shows "launched (fire_delayed d q) e \<longleftrightarrow> launched q e"
proof -
  have heap: "(\<exists>i t. ((dh_abs (q_delayHeap q))(d_Id d := None)) i = Some (e, t)) \<or> e = d
      \<longleftrightarrow> (\<exists>i t. dh_abs (q_delayHeap q) i = Some (e, t))"
    using assms(2) by (metis fun_upd_apply option.distinct(1) option.inject prod.inject)
  have ready: "e \<in> set (q_ready q @ [d]) \<longleftrightarrow> e = d \<or> e \<in> set (q_ready q)"
    by simp
  show ?thesis
    unfolding launched_def fire_delayed_frame ready
      fire_delayed_heap(2) [OF assms(1) waiting_idsI [OF assms(2)]] heap [symmetric]
    by blast
qed

lemma deps_inv_enqueue_one:
  assumes inv: "queue_inv q" and deps: "deps_inv q acked" and fresh: "d_Id d \<notin> queue_ids q"
  shows "deps_inv (enqueue_one ctx d q) acked"
proof (cases "d_BlockedBy d = []")
  case True
  have w: "dh_inv d_Id (q_delayHeap q)" "d_Id d \<notin> waiting_ids q"
    using queue_inv_heap [OF inv] fresh by (auto simp: queue_ids_def)
  let ?q = "enqueue_one ctx d q"
  have eq: "launched ?q = launched (push_delayed d q)" "q_blocked ?q = q_blocked q" "q_reverse ?q = q_reverse q"
    using True by (simp_all add: enqueue_one_def enqueue_free_def Let_def launched_def fun_eq_iff)
  show ?thesis
    using deps True unfolding deps_inv_def eq launched_push_delayed [OF w] by auto
next
  case False
  let ?q = "enqueue_one ctx d q"
  have eq: "launched ?q = launched q"
    "q_blocked ?q = (q_blocked q)(d_Id d \<mapsto> \<lparr>bd_Duty = d, bd_Blocked = set (d_BlockedBy d)\<rparr>)"
    "q_reverse ?q dep = (if dep \<in> set (d_BlockedBy d) then Some [d_Id d] else q_reverse q dep)" for dep
    using False by (simp_all add: enqueue_one_def enqueue_blocked_def Let_def launched_def fun_eq_iff fold_add_reverse)
  have old: "i \<noteq> d_Id d" if "q_blocked q i = Some b" for i b
    using fresh that by (auto simp: queue_ids_def)
  show ?thesis
    unfolding deps_inv_def eq
  proof (intro conjI allI impI)
    fix e assume "launched q e" then show "set (d_BlockedBy e) \<subseteq> acked"
      using deps by (simp add: deps_inv_def)
  next
    fix i b assume "((q_blocked q)(d_Id d \<mapsto> \<lparr>bd_Duty = d, bd_Blocked = set (d_BlockedBy d)\<rparr>)) i = Some b"
    then show "bd_Blocked b \<noteq> {}" "bd_Blocked b \<subseteq> set (d_BlockedBy (bd_Duty b))"
        "set (d_BlockedBy (bd_Duty b)) - bd_Blocked b \<subseteq> acked"
      using deps False unfolding deps_inv_def by (auto split: if_splits)
  next
    fix dep l assume l: "(if dep \<in> set (d_BlockedBy d) then Some [d_Id d] else q_reverse q dep) = Some l"
    show "\<exists>i. l = [i] \<and> (dep \<notin> acked \<longrightarrow> (\<exists>b. ((q_blocked q)(d_Id d \<mapsto> \<lparr>bd_Duty = d, bd_Blocked = set (d_BlockedBy d)\<rparr>)) i = Some b \<and> dep \<in> bd_Blocked b))"
    proof (cases "dep \<in> set (d_BlockedBy d)")
      case True
      then show ?thesis using l by (intro exI [of _ "d_Id d"]) simp
    next
      case False
      then have "q_reverse q dep = Some l" using l by simp
      then obtain i where i: "l = [i]" "dep \<notin> acked \<longrightarrow> (\<exists>b. q_blocked q i = Some b \<and> dep \<in> bd_Blocked b)"
        using deps unfolding deps_inv_def by blast
      then show ?thesis
        using old [of i] by (intro exI [of _ i]) auto
    qed
  qed
qed

text \<open>What an acknowledgement does to a well-formed queue.\<close>

lemma Ack_unknown: "q_unack q i = None \<Longrightarrow> Ack i q = (Some (DutyNotFound i), False, q)"
  by (simp add: Ack_def)

definition ack_base :: "string \<Rightarrow> 'c DutyQueue \<Rightarrow> 'c DutyQueue" where
  "ack_base i q = q\<lparr>q_unack := (q_unack q)(i := None), q_ctxMap := (q_ctxMap q)(i := None),
     q_stats := (q_stats q)\<lparr>TotalUnacked := TotalUnacked (q_stats q) - 1\<rparr>\<rparr>"

lemma ack_base_inv:
  assumes inv: "queue_inv q" and u: "q_unack q i = Some d"
  shows "queue_inv (ack_base i q)" "queue_ids (ack_base i q) = queue_ids q - {i}"
    "waiting_ids (ack_base i q) = waiting_ids q" "ready_ids (ack_base i q) = ready_ids q"
proof -
  let ?q = "ack_base i q"
  have ap: "queue_apart q" and fin: "finite (dom (q_unack q))"
    using inv by (simp_all add: queue_inv_def queue_wf_def)
  have mem: "i \<in> dom (q_unack q)" using u by auto
  show wr: "waiting_ids ?q = waiting_ids q" "ready_ids ?q = ready_ids q"
    by (simp_all add: ack_base_def waiting_ids_def ready_ids_def)
  have un: "dom (q_unack ?q) = dom (q_unack q) - {i}" and bl: "q_blocked ?q = q_blocked q"
    by (simp_all add: ack_base_def)
  show ids: "queue_ids ?q = queue_ids q - {i}"
    using ap mem unfolding queue_ids_def wr un bl queue_apart_def apart_def by blast
  have "queue_wf ?q"
    using inv unfolding queue_inv_def queue_wf_def by (simp add: ack_base_def)
  moreover have "queue_apart ?q"
    using ap unfolding queue_apart_def wr un bl by (rule apart_move(4))
  moreover have "queue_counts ?q"
    using inv mem fin card_Suc_Diff1 [OF fin mem]
    by (simp add: queue_inv_def queue_counts_def un) (simp add: ack_base_def)
  moreover have "dom (q_ctxMap ?q) = queue_ids ?q"
    using inv ids by (simp add: queue_inv_def) (simp add: ack_base_def)
  ultimately show "queue_inv ?q"
    by (simp add: queue_inv_def)
qed

lemma Ack_unfold:
  "q_unack q i = Some d \<Longrightarrow> Ack i q =
     (case q_reverse q i of None \<Rightarrow> (None, False, ack_base i q) | Some l \<Rightarrow> unblock_all i l (ack_base i q))"
  by (simp add: Ack_def ack_base_def Let_def split: option.split)

text \<open>The two outcomes of releasing the duty \<open>j\<close> from one dependency.\<close>

definition release_last :: "string \<Rightarrow> blockedDuty \<Rightarrow> 'c DutyQueue \<Rightarrow> 'c DutyQueue" where
  "release_last j b q = push_delayed (bd_Duty b)
     (q\<lparr>q_blocked := (q_blocked q)(j := None),
        q_stats := (q_stats q)\<lparr>TotalBlocked := TotalBlocked (q_stats q) - 1,
          TotalWaiting := TotalWaiting (q_stats q) + 1\<rparr>\<rparr>)"

definition release_some :: "string \<Rightarrow> string \<Rightarrow> blockedDuty \<Rightarrow> 'c DutyQueue \<Rightarrow> 'c DutyQueue" where
  "release_some i j b q = q\<lparr>q_blocked := (q_blocked q)(j \<mapsto> b\<lparr>bd_Blocked := bd_Blocked b - {i}\<rparr>)\<rparr>"

lemma unblock_one_cases:
  assumes "q_blocked q j = Some b" "i \<in> bd_Blocked b"
  shows "unblock_all i [j] q =
    (if bd_Blocked b = {i} then (None, True, release_last j b q) else (None, False, release_some i j b q))"
  using assms by (auto simp: unblock_one_def release_last_def release_some_def Let_def)

lemma release_last_inv:
  assumes inv: "queue_inv q" and b: "q_blocked q j = Some b"
  shows "queue_inv (release_last j b q)" "queue_ids (release_last j b q) = queue_ids q"
    "launched (release_last j b q) e \<longleftrightarrow> e = bd_Duty b \<or> launched q e"
proof -
  let ?p = "q\<lparr>q_blocked := (q_blocked q)(j := None),
        q_stats := (q_stats q)\<lparr>TotalBlocked := TotalBlocked (q_stats q) - 1,
          TotalWaiting := TotalWaiting (q_stats q) + 1\<rparr>\<rparr>"
  let ?q = "release_last j b q"
  have id: "d_Id (bd_Duty b) = j"
    using inv b by (simp add: queue_inv_def queue_wf_def)
  have ap: "queue_apart q" using inv by (simp add: queue_inv_def)
  have mem: "j \<in> dom (q_blocked q)" using b by auto
  have w: "dh_inv d_Id (q_delayHeap ?p)" "d_Id (bd_Duty b) \<notin> waiting_ids ?p"
    using queue_inv_heap [OF inv] ap mem unfolding queue_apart_def apart_def id by auto
  have q: "?q = push_delayed (bd_Duty b) ?p" by (simp add: release_last_def)
  have wr: "waiting_ids ?q = insert j (waiting_ids q)" "ready_ids ?q = ready_ids q"
    "q_unack ?q = q_unack q" "dom (q_blocked ?q) = dom (q_blocked q) - {j}" "q_ctxMap ?q = q_ctxMap q"
    unfolding q using ids_push_delayed [OF w] id by simp_all
  show ids: "queue_ids ?q = queue_ids q"
    unfolding queue_ids_def wr using mem by blast
  have "queue_wf ?q"
    unfolding queue_wf_def
  proof (intro conjI allI impI)
    fix i e u assume "dh_abs (q_delayHeap ?q) i = Some (e, u)"
    then have "(i = j \<and> e = bd_Duty b \<and> u = duty_time (bd_Duty b)) \<or> dh_abs (q_delayHeap q) i = Some (e, u)"
      unfolding q push_delayed_heap(2) [OF w] id by (cases "i = j") auto
    then show "d_Id e = i" "u = duty_time e"
      using queue_inv_entry [OF inv] id by blast+
  next
    fix i b' assume "q_blocked ?q i = Some b'"
    then show "d_Id (bd_Duty b') = i"
      using inv by (auto simp: q queue_inv_def queue_wf_def split: if_splits)
  qed (use inv push_delayed_heap(1) [OF w] in \<open>auto simp: q queue_inv_def queue_wf_def\<close>)
  moreover have "queue_apart ?q"
    using ap mem unfolding queue_apart_def wr by (rule apart_move(3))
  moreover have "queue_counts ?q"
    using inv push_delayed_heap(3) [OF w] by (simp add: q queue_inv_def queue_counts_def)
  moreover have "dom (q_ctxMap ?q) = queue_ids ?q"
    using inv by (simp add: ids wr queue_inv_def)
  ultimately show "queue_inv ?q"
    by (simp add: queue_inv_def)
  have "launched ?q e \<longleftrightarrow> e = bd_Duty b \<or> launched ?p e"
    unfolding q by (rule launched_push_delayed [OF w])
  also have "launched ?p e = launched q e"
    by (simp add: launched_def)
  finally show "launched ?q e \<longleftrightarrow> e = bd_Duty b \<or> launched q e" .
qed

lemma release_some_inv:
  assumes inv: "queue_inv q" and b: "q_blocked q j = Some b"
  shows "queue_inv (release_some i j b q)" "queue_ids (release_some i j b q) = queue_ids q"
    "launched (release_some i j b q) e \<longleftrightarrow> launched q e"
proof -
  let ?q = "release_some i j b q"
  have frame: "waiting_ids ?q = waiting_ids q" "ready_ids ?q = ready_ids q" "q_unack ?q = q_unack q"
    "dom (q_blocked ?q) = dom (q_blocked q)" "q_ctxMap ?q = q_ctxMap q" "q_stats ?q = q_stats q"
    "q_delayHeap ?q = q_delayHeap q" "q_ready ?q = q_ready q"
    using b by (auto simp: release_some_def)
  have bl: "d_Id (bd_Duty b') = k" if "q_blocked ?q k = Some b'" for k b'
    using that inv b by (auto simp: release_some_def queue_inv_def queue_wf_def split: if_splits)
  have "queue_wf ?q"
    using inv bl unfolding queue_inv_def queue_wf_def frame by blast
  then show "queue_inv ?q"
    using inv by (simp add: queue_inv_def queue_apart_def queue_counts_def queue_ids_def frame)
  show "queue_ids ?q = queue_ids q" by (simp add: queue_ids_def frame)
  show "launched ?q e \<longleftrightarrow> launched q e" by (simp add: launched_def frame)
qed

text \<open>How the dependencies carry over to a state with fewer open ones.\<close>

lemma deps_inv_release:
  assumes deps: "deps_inv q acked" and more: "acked \<subseteq> acked'" and rev: "q_reverse q' = q_reverse q"
    and launch: "\<And>e. launched q' e \<Longrightarrow> launched q e \<or> set (d_BlockedBy e) \<subseteq> acked'"
    and old: "\<And>k b'. q_blocked q' k = Some b' \<Longrightarrow> \<exists>b. q_blocked q k = Some b \<and> bd_Duty b' = bd_Duty b \<and>
      bd_Blocked b' \<noteq> {} \<and> bd_Blocked b' \<subseteq> bd_Blocked b \<and> bd_Blocked b - bd_Blocked b' \<subseteq> acked'"
    and keep: "\<And>k b dep. q_blocked q k = Some b \<Longrightarrow> dep \<in> bd_Blocked b \<Longrightarrow> dep \<notin> acked' \<Longrightarrow>
      \<exists>b'. q_blocked q' k = Some b' \<and> dep \<in> bd_Blocked b'"
  shows "deps_inv q' acked'"
  unfolding deps_inv_def
proof (intro conjI allI impI)
  fix e assume "launched q' e"
  then show "set (d_BlockedBy e) \<subseteq> acked'" using launch deps more unfolding deps_inv_def by blast
next
  fix k b' assume "q_blocked q' k = Some b'"
  then obtain b where b: "q_blocked q k = Some b" "bd_Duty b' = bd_Duty b" "bd_Blocked b' \<noteq> {}"
      "bd_Blocked b' \<subseteq> bd_Blocked b" "bd_Blocked b - bd_Blocked b' \<subseteq> acked'" using old by blast
  moreover have "bd_Blocked b \<subseteq> set (d_BlockedBy (bd_Duty b))" "set (d_BlockedBy (bd_Duty b)) - bd_Blocked b \<subseteq> acked"
    using deps b(1) unfolding deps_inv_def by blast+
  ultimately show "bd_Blocked b' \<noteq> {}" "bd_Blocked b' \<subseteq> set (d_BlockedBy (bd_Duty b'))"
    "set (d_BlockedBy (bd_Duty b')) - bd_Blocked b' \<subseteq> acked'" using more by auto
next
  fix dep l assume "q_reverse q' dep = Some l"
  then obtain k where "l = [k]" "dep \<notin> acked \<longrightarrow> (\<exists>b. q_blocked q k = Some b \<and> dep \<in> bd_Blocked b)"
    using deps unfolding deps_inv_def rev by blast
  then show "\<exists>k. l = [k] \<and> (dep \<notin> acked' \<longrightarrow> (\<exists>b. q_blocked q' k = Some b \<and> dep \<in> bd_Blocked b))"
    using keep more by blast
qed

lemma deps_invD:
  assumes "deps_inv q acked"
  shows "launched q e \<Longrightarrow> set (d_BlockedBy e) \<subseteq> acked"
    "q_blocked q k = Some b \<Longrightarrow> bd_Blocked b \<noteq> {} \<and> bd_Blocked b \<subseteq> set (d_BlockedBy (bd_Duty b)) \<and>
      set (d_BlockedBy (bd_Duty b)) - bd_Blocked b \<subseteq> acked"
    "q_reverse q dep = Some l \<Longrightarrow> \<exists>k. l = [k] \<and> (dep \<notin> acked \<longrightarrow> (\<exists>b. q_blocked q k = Some b \<and> dep \<in> bd_Blocked b))"
  using assms unfolding deps_inv_def by blast+

lemma launched_ack_base: "launched (ack_base i q) e \<Longrightarrow> launched q e"
  by (auto simp: launched_def ack_base_def split: if_splits)

lemma ack_base_frame [simp]:
  "q_blocked (ack_base i q) = q_blocked q" "q_reverse (ack_base i q) = q_reverse q"
  by (simp_all add: ack_base_def)

lemma release_frame [simp]:
  "q_blocked (release_last j b q) = (q_blocked q)(j := None)" "q_reverse (release_last j b q) = q_reverse q"
  "q_blocked (release_some i j b q) = (q_blocked q)(j \<mapsto> b\<lparr>bd_Blocked := bd_Blocked b - {i}\<rparr>)"
  "q_reverse (release_some i j b q) = q_reverse q"
  by (simp_all add: release_last_def release_some_def)

lemma deps_inv_ack_base:
  assumes "deps_inv q acked"
  shows "deps_inv (ack_base i q) (insert i acked)"
proof (rule deps_inv_release [OF assms])
  fix k b' assume "q_blocked (ack_base i q) k = Some b'"
  then have "q_blocked q k = Some b'" by simp
  then show "\<exists>b. q_blocked q k = Some b \<and> bd_Duty b' = bd_Duty b \<and> bd_Blocked b' \<noteq> {} \<and>
      bd_Blocked b' \<subseteq> bd_Blocked b \<and> bd_Blocked b - bd_Blocked b' \<subseteq> insert i acked"
    using deps_invD(2) [OF assms, of k b'] by (intro exI [of _ b']) simp
next
  fix e assume "launched (ack_base i q) e"
  then show "launched q e \<or> set (d_BlockedBy e) \<subseteq> insert i acked" using launched_ack_base by blast
qed (blast, simp, simp)

lemma deps_inv_release_last:
  assumes inv: "queue_inv (ack_base i q)" and deps: "deps_inv q acked"
    and b: "q_blocked q j = Some b" "bd_Blocked b = {i}"
  shows "deps_inv (release_last j b (ack_base i q)) (insert i acked)"
proof (rule deps_inv_release [OF deps])
  fix e assume "launched (release_last j b (ack_base i q)) e"
  then have "e = bd_Duty b \<or> launched q e"
    using release_last_inv(3) [OF inv, of j b e] b(1) launched_ack_base by auto
  then show "launched q e \<or> set (d_BlockedBy e) \<subseteq> insert i acked"
    using deps_invD(2) [OF deps b(1)] b(2) by blast
next
  fix k b' assume "q_blocked (release_last j b (ack_base i q)) k = Some b'"
  then have "q_blocked q k = Some b'" by (simp split: if_splits)
  then show "\<exists>c. q_blocked q k = Some c \<and> bd_Duty b' = bd_Duty c \<and> bd_Blocked b' \<noteq> {} \<and>
      bd_Blocked b' \<subseteq> bd_Blocked c \<and> bd_Blocked c - bd_Blocked b' \<subseteq> insert i acked"
    using deps_invD(2) [OF deps, of k b'] by (intro exI [of _ b']) simp
next
  fix k c dep assume c: "q_blocked q k = Some c" "dep \<in> bd_Blocked c" "dep \<notin> insert i acked"
  then have "k \<noteq> j" using b by (metis insertI1 insert_iff option.inject singletonD)
  then show "\<exists>b'. q_blocked (release_last j b (ack_base i q)) k = Some b' \<and> dep \<in> bd_Blocked b'"
    using c by simp
qed (blast, simp)

lemma deps_inv_release_some:
  assumes inv: "queue_inv (ack_base i q)" and deps: "deps_inv q acked"
    and b: "q_blocked q j = Some b" "i \<in> bd_Blocked b" "bd_Blocked b \<noteq> {i}"
  shows "deps_inv (release_some i j b (ack_base i q)) (insert i acked)"
proof (rule deps_inv_release [OF deps])
  fix e assume "launched (release_some i j b (ack_base i q)) e"
  then show "launched q e \<or> set (d_BlockedBy e) \<subseteq> insert i acked"
    using release_some_inv(3) [OF inv, of j b i e] b(1) launched_ack_base by auto
next
  fix k b' assume "q_blocked (release_some i j b (ack_base i q)) k = Some b'"
  then consider "k = j" "b' = b\<lparr>bd_Blocked := bd_Blocked b - {i}\<rparr>" | "q_blocked q k = Some b'"
    unfolding release_frame ack_base_frame by (metis fun_upd_apply option.inject)
  then show "\<exists>c. q_blocked q k = Some c \<and> bd_Duty b' = bd_Duty c \<and> bd_Blocked b' \<noteq> {} \<and>
      bd_Blocked b' \<subseteq> bd_Blocked c \<and> bd_Blocked c - bd_Blocked b' \<subseteq> insert i acked"
  proof cases
    case 1
    then show ?thesis using b by (intro exI [of _ b]) auto
  next
    case 2
    then show ?thesis using deps_invD(2) [OF deps, of k b'] by (intro exI [of _ b']) simp
  qed
next
  fix k c dep assume c: "q_blocked q k = Some c" "dep \<in> bd_Blocked c" "dep \<notin> insert i acked"
  then show "\<exists>b'. q_blocked (release_some i j b (ack_base i q)) k = Some b' \<and> dep \<in> bd_Blocked b'"
    using b(1) by (cases "k = j") simp_all
qed (blast, simp)

text \<open>An acknowledgement of a duty that is being handled, in a state that the dependencies fit.\<close>

lemma Ack_step:
  assumes inv: "queue_inv q" and deps: "deps_inv q acked" and fresh: "acked \<inter> queue_ids q = {}"
    and u: "q_unack q i = Some d" and ack: "Ack i q = (err, sig, q')"
  shows "err = None \<and> queue_inv q' \<and> queue_ids q' = queue_ids q - {i} \<and> deps_inv q' (insert i acked)"
proof (cases "q_reverse q i")
  case None
  then have "err = None" "q' = ack_base i q" using ack u by (simp_all add: Ack_unfold)
  then show ?thesis using ack_base_inv [OF inv u] deps_inv_ack_base [OF deps] by simp
next
  case (Some l)
  note base = ack_base_inv [OF inv u]
  have ia: "i \<notin> acked" using fresh u by (auto simp: queue_ids_def)
  then obtain j b where l: "l = [j]" and b: "q_blocked q j = Some b" "i \<in> bd_Blocked b"
    using deps_invD(3) [OF deps Some] by blast
  have bp: "q_blocked (ack_base i q) j = Some b" using b by simp
  have step: "(err, sig, q') = (if bd_Blocked b = {i} then (None, True, release_last j b (ack_base i q))
      else (None, False, release_some i j b (ack_base i q)))"
    using ack u Some l unblock_one_cases [OF bp b(2)] by (simp add: Ack_unfold)
  show ?thesis
  proof (cases "bd_Blocked b = {i}")
    case True
    then show ?thesis
      using step base(2) release_last_inv [OF base(1) bp] deps_inv_release_last [OF base(1) deps b(1)] by simp
  next
    case False
    then show ?thesis
      using step base(2) release_some_inv [OF base(1) bp] deps_inv_release_some [OF base(1) deps b] by simp
  qed
qed

end
