(* ===== verification/Version.thy ===== *)
theory Version
  imports Prelude
begin

text \<open>\<open>internal/version\<close>: the version the program reports; the commit is set when the program is linked.\<close>

definition Version :: string where "Version = ''0.1.1''"
definition VersionPrerelease :: string where "VersionPrerelease = ''dev''"

definition GetVersion :: "string \<Rightarrow> string" where
  "GetVersion GitCommit =
     (let version = Version; release = VersionPrerelease in
      if release \<noteq> []
      then (let version1 = version @ ''-'' @ release in
            if GitCommit \<noteq> [] then version1 @ '' ('' @ GitCommit @ '')'' else version1)
      else version)"

lemma GetVersion_dev: "GetVersion c = (if c = [] then ''0.1.1-dev'' else ''0.1.1-dev ('' @ c @ '')'')"
  by (simp add: GetVersion_def Version_def VersionPrerelease_def Let_def)

end
