(* ===== verification/Server.thy ===== *)
theory Server
  imports StateDB Duties DutyQueue Version
begin

text \<open>
  The server, \<open>internal/server/server.go\<close> and \<open>config.go\<close>: start up, signing, planning an epoch,
  handling a duty and looking for activated validators.  Each goroutine is a function from the state of
  the server at one turn of its loop to the state after it; how the turns interleave is in ServerRuns.

  The BLS library, the consensus library and the http client are parameters, the record
  \<open>ServerLib\<close>.  Logging, tracing spans and contexts are left out.
\<close>

section \<open>Configuration and state\<close>

record Config =
  cfg_DepositAddress :: string
  cfg_Endpoint :: string
  cfg_GrpcAddr :: string
  cfg_PrivKey :: "string list"
  cfg_TelemetryOLTPExporter :: string

definition DefaultConfig :: Config where
  "DefaultConfig = \<lparr>cfg_DepositAddress = [], cfg_Endpoint = [], cfg_GrpcAddr = ''localhost:4002'', cfg_PrivKey = [],
     cfg_TelemetryOLTPExporter = []\<rparr>"

record ('m, 'b, 'key) ServerLib =
  lib_State :: "('m, 'b) StateLib"
  lib_Consensus :: ConsensusLib
  lib_Client :: "string \<Rightarrow> http_Client"
  bls_NewKeyFromPriv :: "bytes \<Rightarrow> 'key outcome"
  bls_PubKey :: "'key \<Rightarrow> bytes"
  bls_Sign :: "'key \<Rightarrow> bytes \<Rightarrow> bytes outcome"
  lib_ComputeDomain :: "bytes \<Rightarrow> bytes \<Rightarrow> bytes \<Rightarrow> bytes outcome"
  lib_SigningRoot :: "bytes \<Rightarrow> bytes \<Rightarrow> bytes outcome"
  lib_Sum256 :: "bytes \<Rightarrow> bytes"
  lib_SelectionRoot :: "SyncAggregatorSelectionData \<Rightarrow> bytes outcome"
  lib_Listen :: "string \<Rightarrow> unit outcome"
  lib_Resource :: "(string \<times> string) list \<Rightarrow> bytes outcome"
  lib_Exporter :: "string \<Rightarrow> bytes outcome"
  lib_GitCommit :: string

datatype routine = WatchDuties | ValidatorLifecycle | DutyWorker

record ('m, 'b) Server =
  srv_config :: Config
  srv_state :: "('m, 'b) State"
  srv_client :: Api
  srv_evalQueue :: "unit DutyQueue"
  srv_beaconConfig :: Spec
  srv_genesis :: GenesisInfo
  srv_grpc :: bool
  srv_routines :: "string \<rightharpoonup> routine"

section \<open>Signing\<close>

definition domainTypToDomain :: "DomainType \<Rightarrow> bytes outcome" where
  "domainTypToDomain typ =
     (if typ = DomainBeaconProposerType then Ok [0, 0, 0, 0]
      else if typ = DomainBeaconAttesterType then Ok [1, 0, 0, 0]
      else if typ = DomainRandaomType then Ok [2, 0, 0, 0]
      else if typ = DomainDepositType then Ok [3, 0, 0, 0]
      else if typ = DomainVoluntaryExitType then Ok [4, 0, 0, 0]
      else if typ = DomainSelectionProofType then Ok [5, 0, 0, 0]
      else if typ = DomainAggregateAndProofType then Ok [6, 0, 0, 0]
      else if typ = DomainSyncCommitteeType then Ok [7, 0, 0, 0]
      else if typ = DomainSyncCommitteeSelectionProof then Ok [8, 0, 0, 0]
      else if typ = DomainContributionAndProof then Ok [9, 0, 0, 0]
      else Panic ''domain typ not found'')"

definition fork_version :: "Spec \<Rightarrow> uint64 \<Rightarrow> bytes" where
  "fork_version cfg epoch =
     (if BellatrixForkEpoch cfg \<le> epoch then BellatrixForkVersion cfg
      else if AltairForkEpoch cfg \<le> epoch then AltairForkVersion cfg
      else GenesisForkVersion cfg)"

definition Sign :: "('m, 'b, 'key) ServerLib \<Rightarrow> ('m, 'b) Server \<Rightarrow> DomainType \<Rightarrow> uint64 \<Rightarrow> uint64 \<Rightarrow> bytes \<Rightarrow> bytes outcome" where
  "Sign lib v domain epoch accountIndex root =
     (let forkVersion = fork_version (srv_beaconConfig v) epoch in
     obind (domainTypToDomain domain) (\<lambda>domainVal.
     obind (lib_ComputeDomain lib domainVal forkVersion (gi_Root (srv_genesis v))) (\<lambda>ddd.
     obind (lib_SigningRoot lib root ddd) (\<lambda>rootToSign.
     obind (GetValidatorByIndex (lib_State lib) (srv_state v) accountIndex) (\<lambda>validator.
     case validator of
       None \<Rightarrow> Err (ValidatorNotFound accountIndex)
     | Some val \<Rightarrow> obind (Validator_Key (bls_NewKeyFromPriv lib) val) (\<lambda>key. bls_Sign lib key rootToSign))))))"

section \<open>The server as the state of the scheduler\<close>

definition srv_DutyByID :: "('m, 'b, 'key) ServerLib \<Rightarrow> ('m, 'b) Server \<Rightarrow> string \<Rightarrow> Duty option outcome" where
  "srv_DutyByID lib v dutyID = DutyByID (lib_State lib) (srv_state v) dutyID"

definition srv_GetValidatorsActiveAt :: "('m, 'b, 'key) ServerLib \<Rightarrow> ('m, 'b) Server \<Rightarrow> uint64 \<Rightarrow> Validator list outcome" where
  "srv_GetValidatorsActiveAt lib v epoch = GetValidatorsActiveAt (lib_State lib) (srv_state v) epoch"

definition srv_Genesis :: "('m, 'b) Server \<Rightarrow> gotime" where
  "srv_Genesis v = Unix (gi_Time (srv_genesis v))"

definition srv_SchedState :: "('m, 'b, 'key) ServerLib \<Rightarrow> ('m, 'b) Server \<Rightarrow> SchedState" where
  "srv_SchedState lib v = \<lparr>st_GetValidatorsActiveAt = srv_GetValidatorsActiveAt lib v, st_Sign = Sign lib v,
     st_DutyByID = srv_DutyByID lib v, st_Genesis = srv_Genesis v\<rparr>"

section \<open>Planning an epoch\<close>

text \<open>
  What the scheduler takes from its surroundings: the stream of generated ids, the order of a map
  range, and the time.
\<close>

record PlanEnv =
  pe_ids :: "nat \<Rightarrow> string"
  pe_order :: "uint64 list \<Rightarrow> uint64 list"
  pe_types :: "DutyType list"
  pe_now :: gotime

definition NewScheduler :: "('m, 'b, 'key) ServerLib \<Rightarrow> ('m, 'b) Server \<Rightarrow> PlanEnv \<Rightarrow> Scheduler" where
  "NewScheduler lib v env = \<lparr>sc_state = srv_SchedState lib v, sc_config = srv_beaconConfig v, sc_client = srv_client v,
     sc_Sum256 = lib_Sum256 lib, sc_SelectionRoot = lib_SelectionRoot lib, sc_ids = pe_ids env, sc_order = pe_order env,
     sc_now = pe_now env\<rparr>"

definition handleNewEpoch :: "('m, 'b, 'key) ServerLib \<Rightarrow> ('m, 'b) Server \<Rightarrow> PlanEnv \<Rightarrow> uint64 \<Rightarrow> ('m, 'b) Server \<times> unit outcome" where
  "handleNewEpoch lib v env epoch =
     (case obind (HandleEpoch (NewScheduler lib v env) epoch) (\<lambda>plan. obind (Plan_GoPrint (pe_types env) plan) (\<lambda>_. Ok plan)) of
        Err e \<Rightarrow> (v, Err e)
      | Panic p \<Rightarrow> (v, Panic p)
      | Ok plan \<Rightarrow>
          let v1 = v\<lparr>srv_evalQueue := snd (Enqueue () (p_Duties plan) (srv_evalQueue v))\<rparr>;
              (s, r) = UpsertDuties (lib_State lib) (srv_state v1) (p_Duties plan)
          in (v1\<lparr>srv_state := s\<rparr>, r))"

text \<open>
  \<open>watchDuties\<close>: the epochs for which \<open>handleNewEpoch\<close> is started in the first \<open>n\<close> turns of the loop.
  The clock of the consensus library is a parameter: whether genesis is active and the current epoch
  once it is; \<open>stopped\<close> says that the server is shut down while it waits for genesis.
\<close>

fun watch_turns :: "nat \<Rightarrow> uint64 \<Rightarrow> uint64 list" where
  "watch_turns 0 epoch = []"
| "watch_turns (Suc n) epoch = epoch # watch_turns n (epoch + 1)"

definition watchDuties :: "bool \<Rightarrow> bool \<Rightarrow> uint64 \<Rightarrow> nat \<Rightarrow> uint64 list" where
  "watchDuties isActive stopped currentEpoch n =
     (if \<not> isActive \<and> stopped then [] else watch_turns n currentEpoch)"

section \<open>Handling a duty\<close>

text \<open>
  The goroutine that \<open>runWorker\<close> starts for a duty runs the handler and then stores the result and
  acknowledges the duty.  A failed upsert panics; the error of \<open>Ack\<close> is dropped.
\<close>

definition completeDuty :: "('m, 'b, 'key) ServerLib \<Rightarrow> ('m, 'b) Server \<Rightarrow> Duty \<Rightarrow> Duty_Result option \<Rightarrow> ('m, 'b) Server \<times> unit outcome" where
  "completeDuty lib v duty res =
     (let (s, u) = UpsertDuty (lib_State lib) (srv_state v) (duty\<lparr>d_Result := res, d_State := Duty_COMPLETE\<rparr>)
      in (case u of
            Ok _ \<Rightarrow> (v\<lparr>srv_state := s, srv_evalQueue := snd (snd (Ack (d_Id duty) (srv_evalQueue v)))\<rparr>, Ok ())
          | Err e \<Rightarrow> (v\<lparr>srv_state := s\<rparr>, Panic ''upsert'')
          | Panic p \<Rightarrow> (v\<lparr>srv_state := s\<rparr>, Panic p)))"

definition handleDuty :: "('m, 'b, 'key) ServerLib \<Rightarrow> ('m, 'b) Server \<Rightarrow> Duty \<Rightarrow> event list \<times> ('m, 'b) Server \<times> unit outcome" where
  "handleDuty lib v duty =
     (let dutyLogic = Duties.NewDuty (lib_Consensus lib) (srv_client v) (srv_SchedState lib v);
          (es, r) = Handle dutyLogic duty
      in (case r of
            Ok res \<Rightarrow> (es, completeDuty lib v duty res)
          | Err e \<Rightarrow> (es, v, Panic ''failed to handle'')
          | Panic p \<Rightarrow> (es, v, Panic p)))"

text \<open>
  One turn of the loop of \<open>runWorker\<close>: nothing while no duty is ready, else the duty for which a
  goroutine is started.
\<close>

definition runWorker :: "('m, 'b) Server \<Rightarrow> ('m, 'b) Server \<times> Duty option outcome" where
  "runWorker v =
     (case Dequeue (srv_evalQueue v) of
        (None, q) \<Rightarrow> (v\<lparr>srv_evalQueue := q\<rparr>, Ok None)
      | (Some (Ok (duty, ctx)), q) \<Rightarrow> (v\<lparr>srv_evalQueue := q\<rparr>, obind (Duty_Type duty) (\<lambda>_. Ok (Some duty)))
      | (Some (Err e), q) \<Rightarrow> (v\<lparr>srv_evalQueue := q\<rparr>, Panic ''dequeue'')
      | (Some (Panic p), q) \<Rightarrow> (v\<lparr>srv_evalQueue := q\<rparr>, Panic p))"

section \<open>Validators\<close>

definition validatorFromPrivKey :: "('m, 'b, 'key) ServerLib \<Rightarrow> string \<Rightarrow> Validator outcome" where
  "validatorFromPrivKey lib privKey =
     obind (DecodeString privKey) (\<lambda>buf.
     obind (bls_NewKeyFromPriv lib buf) (\<lambda>key.
     Ok \<lparr>v_PubKey = EncodeToString (bls_PubKey lib key), v_PrivKey = privKey, v_Metadata = None\<rparr>))"

text \<open>One pending validator: a failed query is logged and the validator left as it is.\<close>

definition activated :: "('m, 'b) Server \<Rightarrow> Validator \<Rightarrow> Validator list outcome" where
  "activated v val =
     (case api_GetValidatorByPubKey (srv_client v) (''0x'' @ v_PubKey val) of
        Err e \<Rightarrow> Ok []
      | Panic p \<Rightarrow> Panic p
      | Ok httpVal \<Rightarrow>
          Ok [(Validator_Copy val)\<lparr>v_Metadata := Some \<lparr>vm_Index = hv_Index httpVal, vm_ActivationEpoch = hv_ActivationEpoch httpVal\<rparr>\<rparr>])"

text \<open>
  One turn of the loop of \<open>validatorLifecycle\<close>.  The condition after the upsert tests the error of
  the query before it, which is nil there, so that an error of the upsert is dropped.
\<close>

definition validatorLifecycle :: "('m, 'b, 'key) ServerLib \<Rightarrow> ('m, 'b) Server \<Rightarrow> ('m, 'b) Server \<times> unit outcome" where
  "validatorLifecycle lib v =
     (case GetValidatorsPending (lib_State lib) (srv_state v) of
        Err e \<Rightarrow> (v, Panic ''pending'')
      | Panic p \<Rightarrow> (v, Panic p)
      | Ok pending \<Rightarrow>
          (case omap (activated v) pending of
             Err e \<Rightarrow> (v, Err e)
           | Panic p \<Rightarrow> (v, Panic p)
           | Ok updatedVal \<Rightarrow>
               let (s, r) = UpsertValidator (lib_State lib) (srv_state v) (concat updatedVal)
               in (v\<lparr>srv_state := s\<rparr>, case r of Panic p \<Rightarrow> Panic p | _ \<Rightarrow> Ok ())))"

section \<open>Start and stop\<close>

definition setupGRPCServer :: "('m, 'b, 'key) ServerLib \<Rightarrow> string \<Rightarrow> bool outcome" where
  "setupGRPCServer lib addr = (if addr = [] then Ok False else obind (lib_Listen lib addr) (\<lambda>_. Ok True))"

text \<open>
  \<open>setupTelemetry\<close> gives the tracer provider that it makes the global one: the resource that names the
  service and its version, and an exporter if an endpoint is configured.
\<close>

record TracerProvider =
  tp_Resource :: bytes
  tp_Syncers :: "bytes list"

definition setupTelemetry :: "('m, 'b, 'key) ServerLib \<Rightarrow> Config \<Rightarrow> TracerProvider outcome" where
  "setupTelemetry lib config =
     obind (wrap_err ''failed to create open telemetry resource for service''
       (lib_Resource lib [(''service.name'', ''eth2-validator''), (''service.version'', GetVersion (lib_GitCommit lib))])) (\<lambda>res.
     obind (if cfg_TelemetryOLTPExporter config \<noteq> []
        then obind (wrap_err ''failed to create open telemetry tracer exporter for service''
          (lib_Exporter lib (cfg_TelemetryOLTPExporter config))) (\<lambda>oltpExporter. Ok [oltpExporter])
        else Ok []) (\<lambda>exporters.
     Ok \<lparr>tp_Resource = res, tp_Syncers = exporters\<rparr>))"

definition setupRoutines :: "('m, 'b) Server \<Rightarrow> ('m, 'b) Server" where
  "setupRoutines v = v\<lparr>srv_routines := (srv_routines v)(''watch-duties'' \<mapsto> WatchDuties,
     ''validator-lifecycle'' \<mapsto> ValidatorLifecycle, ''duty-worker'' \<mapsto> DutyWorker)\<rparr>"

definition NewServer :: "('m, 'b, 'key) ServerLib \<Rightarrow> Config \<Rightarrow> ('m, 'b) Server outcome" where
  "NewServer lib config =
     obind (wrap_err ''failed to start state'' (NewState (lib_State lib) ''eth-validator.db'')) (\<lambda>state.
     obind (setupGRPCServer lib (cfg_GrpcAddr config)) (\<lambda>grpc.
     let client = HttpAPI_Api (NewHttpAPI (lib_Client lib) (cfg_Endpoint config)) in
     obind (api_ConfigSpec client) (\<lambda>beaconConfig.
     obind (api_Genesis client) (\<lambda>genesis.
     obind (omap (validatorFromPrivKey lib) (cfg_PrivKey config)) (\<lambda>initialVals.
     let (state1, r) = UpsertValidator (lib_State lib) state initialVals in
     obind r (\<lambda>_.
     let v = setupRoutines \<lparr>srv_config = config, srv_state = state1, srv_client = client, srv_evalQueue = NewEvalQueue,
               srv_beaconConfig = beaconConfig, srv_genesis = genesis, srv_grpc = grpc, srv_routines = Map.empty\<rparr> in
     obind (if cfg_TelemetryOLTPExporter config \<noteq> [] then obind (setupTelemetry lib config) (\<lambda>_. Ok ()) else Ok ()) (\<lambda>_.
     Ok v)))))))"

text \<open>
  \<open>Stop\<close>: an error of closing the database is logged; a server without a gRPC address panics on
  its nil gRPC server.
\<close>

definition Stop :: "('m, 'b, 'key) ServerLib \<Rightarrow> ('m, 'b) Server \<Rightarrow> unit outcome" where
  "Stop lib v =
     (case Close (lib_State lib) (srv_state v) of
        Panic p \<Rightarrow> Panic p
      | _ \<Rightarrow> if srv_grpc v then Ok () else Panic ''nil dereference'')"

end
