(* ===== verification/StateLaws.thy ===== *)
theory StateLaws
  imports StateDB
begin

text \<open>
  What the state relies on of its two databases, and what follows: memory and disk hold the same
  objects in every reachable state, a restart restores the memory, and the lookups give what the
  upserts stored.

  \<open>rows m t\<close> stands for the objects of table \<open>t\<close> of a memory database, \<open>contents db b k\<close> for the value
  at key \<open>k\<close> of bucket \<open>b\<close> of a disk database.
\<close>

section \<open>Documented behaviour of the libraries\<close>

definition index_of :: "FieldIndexes \<Rightarrow> string \<Rightarrow> string \<Rightarrow> IndexSchema option" where
  "index_of fi t ix = Option.bind (map_of (schema fi) t) (\<lambda>ts. map_of ts ix)"

definition keys_of :: "IndexSchema \<Rightarrow> raw \<Rightarrow> bytes list" where
  "keys_of i obj = (case ix_FromObject (is_Indexer i) obj of Ok (True, ks) \<Rightarrow> ks | _ \<Rightarrow> [])"

definition index_keys :: "FieldIndexes \<Rightarrow> string \<Rightarrow> string \<Rightarrow> raw \<Rightarrow> bytes set" where
  "index_keys fi t ix obj = (case index_of fi t ix of None \<Rightarrow> {} | Some i \<Rightarrow> set (keys_of i obj))"

definition index_ok :: "raw \<Rightarrow> IndexSchema \<Rightarrow> bool" where
  "index_ok obj i \<longleftrightarrow> (case ix_FromObject (is_Indexer i) obj of Ok (ok, ks) \<Rightarrow> ok \<or> is_AllowMissing i | _ \<Rightarrow> False)"

text \<open>An object can be inserted if every index of its table gives a key or allows none.\<close>

definition insertable :: "FieldIndexes \<Rightarrow> string \<Rightarrow> raw \<Rightarrow> bool" where
  "insertable fi t obj \<longleftrightarrow>
     (case map_of (schema fi) t of None \<Rightarrow> False | Some ts \<Rightarrow> list_all (\<lambda>(n, i). index_ok obj i) ts)"

definition field_laws :: "FieldIndexes \<Rightarrow> bool" where
  "field_laws fi \<longleftrightarrow>
     (\<forall>d. ix_FromObject (StringFieldIndex fi ''Id'') (DutyObj d) =
        Ok (d_Id d \<noteq> [], if d_Id d = [] then [] else [bytes_of_string (d_Id d) @ [0]])) \<and>
     (\<forall>v. ix_FromObject (StringFieldIndex fi ''PubKey'') (ValidatorObj v) =
        Ok (v_PubKey v \<noteq> [], if v_PubKey v = [] then [] else [bytes_of_string (v_PubKey v) @ [0]])) \<and>
     (\<forall>f s. ix_FromArgs (StringFieldIndex fi f) [ArgString s] = Ok (bytes_of_string s @ [0])) \<and>
     (\<forall>v. ix_FromObject (FieldSetIndex fi ''Metadata'') (ValidatorObj v) =
        Ok (True, [[if v_Metadata v = None then 0 else 1]])) \<and>
     (\<forall>f b. ix_FromArgs (FieldSetIndex fi f) [ArgBool b] = Ok [if b then 1 else 0]) \<and>
     (\<forall>md. ix_FromObject (UintFieldIndex fi ''Index'') (MetadataObj md) = Ok (True, [be64 (vm_Index md)])) \<and>
     (\<forall>md. ix_FromObject (UintFieldIndex fi ''ActivationEpoch'') (MetadataObj md) =
        Ok (True, [be64 (vm_ActivationEpoch md)])) \<and>
     (\<forall>f u. ix_FromArgs (UintFieldIndex fi f) [ArgUint64 u] = Ok (be64 u))"

fun raw_id :: "raw \<Rightarrow> bytes" where
  "raw_id (DutyObj d) = bytes_of_string (d_Id d)"
| "raw_id (ValidatorObj v) = bytes_of_string (v_PubKey v)"
| "raw_id (MetadataObj md) = []"

definition insert_law :: "('m, 'b) StateLib \<Rightarrow> ('m \<Rightarrow> string \<Rightarrow> raw set) \<Rightarrow> bool" where
  "insert_law lib rows \<longleftrightarrow>
     (\<forall>m t. mem_NewMemDB lib (schema (lib_Fields lib)) = Ok m \<longrightarrow> rows m t = {}) \<and>
     (\<forall>m t obj. (\<exists>m'. mem_Insert lib m t obj = Ok m') \<longleftrightarrow> insertable (lib_Fields lib) t obj) \<and>
     (\<forall>m t obj m'. mem_Insert lib m t obj = Ok m' \<longrightarrow>
        rows m' = (rows m)(t := insert obj {p \<in> rows m t. raw_id p \<noteq> raw_id obj}))"

text \<open>
  Queries: \<open>First\<close> and \<open>Get\<close> give rows with the key, \<open>ReverseLowerBound\<close> those below the key (and
  possibly some at it) when the keys of the index have one width, \<open>Get\<close> without arguments gives all rows, \<open>LowerBound\<close> starts at the least
  entry that is not below the key, whatever object it is of.
\<close>

definition query_law :: "('m, 'b) StateLib \<Rightarrow> ('m \<Rightarrow> string \<Rightarrow> raw set) \<Rightarrow> bool" where
  "query_law lib rows \<longleftrightarrow>
     (\<forall>m t ix i args key. index_of (lib_Fields lib) t ix = Some i \<and> ix_FromArgs (is_Indexer i) args = Ok key \<longrightarrow>
        (\<exists>r. mem_First lib m t ix args = Ok r \<and>
           (case r of None \<Rightarrow> \<forall>obj \<in> rows m t. key \<notin> index_keys (lib_Fields lib) t ix obj
            | Some obj \<Rightarrow> obj \<in> rows m t \<and> key \<in> index_keys (lib_Fields lib) t ix obj)) \<and>
        (\<exists>os. mem_Get lib m t ix args = Ok os \<and> set os = {obj \<in> rows m t. key \<in> index_keys (lib_Fields lib) t ix obj}) \<and>
        (\<exists>os. mem_ReverseLowerBound lib m t ix args = Ok os \<and>
           {obj \<in> rows m t. \<exists>k \<in> index_keys (lib_Fields lib) t ix obj. length k = length key \<and> k < key} \<subseteq> set os \<and>
           (\<forall>obj \<in> set os. obj \<in> rows m t \<and> (\<exists>k \<in> index_keys (lib_Fields lib) t ix obj. length k = length key \<longrightarrow> k \<le> key)))) \<and>
     (\<forall>m. \<exists>os. mem_Get lib m dutiesTable ''id'' [] = Ok os \<and> set os = rows m dutiesTable) \<and>
     (\<forall>m. \<exists>os. mem_Get lib m validatorsTable ''id'' [] = Ok os \<and> set os = rows m validatorsTable)"

definition prefix_law :: "('m, 'b) StateLib \<Rightarrow> ('m \<Rightarrow> string \<Rightarrow> raw set) \<Rightarrow> bool" where
  "prefix_law lib rows \<longleftrightarrow>
     (\<forall>m t ix i p args key. index_of (lib_Fields lib) t ix = Some i \<and> ix_PrefixFromArgs (is_Indexer i) = Some p \<and>
        p args = Ok key \<longrightarrow>
        (\<exists>os. mem_LowerBound lib m t (ix @ ''_prefix'') args = Ok os \<and>
           (case os of
              [] \<Rightarrow> \<forall>obj \<in> rows m t. \<forall>k \<in> index_keys (lib_Fields lib) t ix obj. k < key
            | obj # _ \<Rightarrow> obj \<in> rows m t \<and> (\<exists>k \<in> index_keys (lib_Fields lib) t ix obj. key \<le> k \<and>
                (\<forall>obj' \<in> rows m t. \<forall>k' \<in> index_keys (lib_Fields lib) t ix obj'. key \<le> k' \<longrightarrow> k \<le> k')))))"

definition memdb_laws :: "('m, 'b) StateLib \<Rightarrow> ('m \<Rightarrow> string \<Rightarrow> raw set) \<Rightarrow> bool" where
  "memdb_laws lib rows \<longleftrightarrow> field_laws (lib_Fields lib) \<and> insert_law lib rows \<and> query_law lib rows \<and> prefix_law lib rows"

definition bolt_laws :: "('m, 'b) StateLib \<Rightarrow> ('b \<Rightarrow> bytes \<Rightarrow> bytes \<Rightarrow> bytes option) \<Rightarrow> bool" where
  "bolt_laws lib contents \<longleftrightarrow>
     (\<forall>tx b. bolt_Get lib tx b = contents tx b) \<and>
     (\<forall>tx b. distinct (map fst (bolt_ForEach lib tx b)) \<and> map_of (bolt_ForEach lib tx b) = contents tx b) \<and>
     (\<forall>tx b k v tx'. bolt_Put lib tx b k v = Ok tx' \<longrightarrow> contents tx' = (contents tx)(b := (contents tx b)(k \<mapsto> v))) \<and>
     (\<forall>tx b tx'. bolt_CreateBucketIfNotExists lib tx b = Ok tx' \<longrightarrow> contents tx' = contents tx) \<and>
     (\<forall>tx db. bolt_Commit lib tx = Ok db \<longrightarrow> contents db = contents tx)"

text \<open>
  The encoding of an object decodes to it, except that a job whose payload is nil comes back with an
  empty payload.
\<close>

fun norm_job :: "isDuty_Job \<Rightarrow> isDuty_Job" where
  "norm_job (Job_BlockProposal p) = Job_BlockProposal (Some (case p of None \<Rightarrow> Duty_BlockProposal | Some x \<Rightarrow> x))"
| "norm_job (Job_Attestation p) = Job_Attestation (Some (case p of
     None \<Rightarrow> \<lparr>att_CommitteeIndex = 0, att_CommitteeLength = 0, att_CommitteesAtSlot = 0\<rparr> | Some x \<Rightarrow> x))"
| "norm_job (Job_AttestationAggregate p) = Job_AttestationAggregate (Some (case p of None \<Rightarrow> \<lparr>agg_SelectionProof = []\<rparr> | Some x \<Rightarrow> x))"
| "norm_job (Job_SyncCommittee p) = Job_SyncCommittee (Some (case p of None \<Rightarrow> Duty_SyncCommittee | Some x \<Rightarrow> x))"
| "norm_job (Job_SyncCommitteeAggregate p) = Job_SyncCommitteeAggregate (Some (case p of
     None \<Rightarrow> \<lparr>sca_SelectionProof = [], sca_SubCommitteeIndex = 0\<rparr> | Some x \<Rightarrow> x))"

definition norm_duty :: "Duty \<Rightarrow> Duty" where
  "norm_duty d = d\<lparr>d_Job := map_option norm_job (d_Job d)\<rparr>"

fun norm_raw :: "raw \<Rightarrow> raw" where
  "norm_raw (DutyObj d) = DutyObj (norm_duty d)"
| "norm_raw obj = obj"

definition codec_laws :: "('m, 'b) StateLib \<Rightarrow> bool" where
  "codec_laws lib \<longleftrightarrow>
     (\<forall>d0 d enc. pb_Marshal lib (DutyObj d) = Ok enc \<longrightarrow> pb_Unmarshal lib (DutyObj d0) enc = Ok (DutyObj (norm_duty d))) \<and>
     (\<forall>v0 v enc. pb_Marshal lib (ValidatorObj v) = Ok enc \<longrightarrow> pb_Unmarshal lib (ValidatorObj v0) enc = Ok (ValidatorObj v))"

lemma norm_job_idem [simp]: "norm_job (norm_job j) = norm_job j"
  by (cases j) simp_all

lemma norm_simps [simp]:
  "d_Id (norm_duty d) = d_Id d" "d_Result (norm_duty d) = d_Result d" "d_ValidatorIndex (norm_duty d) = d_ValidatorIndex d"
  "d_Slot (norm_duty d) = d_Slot d" "norm_raw (norm_raw obj) = norm_raw obj" "raw_id (norm_raw obj) = raw_id obj"
  by (cases obj; simp add: norm_duty_def option.map_comp comp_def)+

lemma Duty_Type_norm [simp]: "Duty_Type (norm_duty d) = Duty_Type d"
  by (auto simp: Duty_Type_def norm_duty_def split: option.split isDuty_Job.split)

lemma index_norm [simp]:
  "IndexJob_FromObject (DutyObj (norm_duty d)) = IndexJob_FromObject (DutyObj d)"
  "slashingBlock_FromObject (DutyObj (norm_duty d)) = slashingBlock_FromObject (DutyObj d)"
  "slashingAttest_FromObject (DutyObj (norm_duty d)) = slashingAttest_FromObject (DutyObj d)"
proof -
  have "(d_Job (norm_duty d) = None) = (d_Job d = None)" by (simp add: norm_duty_def)
  then show "IndexJob_FromObject (DutyObj (norm_duty d)) = IndexJob_FromObject (DutyObj d)"
    by (simp add: IndexJob_FromObject_def)
  show "slashingBlock_FromObject (DutyObj (norm_duty d)) = slashingBlock_FromObject (DutyObj d)"
    "slashingAttest_FromObject (DutyObj (norm_duty d)) = slashingAttest_FromObject (DutyObj d)"
    unfolding slashingBlock_FromObject_def slashingAttest_FromObject_def addCheckpoint_def raw.case norm_simps Duty_Type_norm
    by (rule refl)+
qed

lemma insertable_norm:
  assumes "field_laws fi"
  shows "insertable fi dutiesTable (norm_raw obj) = insertable fi dutiesTable obj"
proof (cases obj)
  case (DutyObj d)
  have "index_ok (DutyObj (norm_duty d)) i = index_ok (DutyObj d) i"
    if "i \<in> snd ` set (the (map_of (schema fi) dutiesTable))" for i
    using that assms by (auto simp: schema_def index_ok_def field_laws_def IndexJob_def slashingBlockIndex_def slashingAttestIndex_def)
  then show ?thesis
    by (simp add: DutyObj insertable_def schema_def)
qed simp_all

lemma query_lawD:
  assumes "query_law lib rows" "index_of (lib_Fields lib) t ix = Some i" "ix_FromArgs (is_Indexer i) args = Ok key"
  shows "\<exists>r. mem_First lib m t ix args = Ok r \<and>
           (case r of None \<Rightarrow> \<forall>obj \<in> rows m t. key \<notin> index_keys (lib_Fields lib) t ix obj
            | Some obj \<Rightarrow> obj \<in> rows m t \<and> key \<in> index_keys (lib_Fields lib) t ix obj)"
    "\<exists>os. mem_Get lib m t ix args = Ok os \<and> set os = {obj \<in> rows m t. key \<in> index_keys (lib_Fields lib) t ix obj}"
    "\<exists>os. mem_ReverseLowerBound lib m t ix args = Ok os \<and>
       {obj \<in> rows m t. \<exists>k \<in> index_keys (lib_Fields lib) t ix obj. length k = length key \<and> k < key} \<subseteq> set os \<and>
       (\<forall>obj \<in> set os. obj \<in> rows m t \<and> (\<exists>k \<in> index_keys (lib_Fields lib) t ix obj. length k = length key \<longrightarrow> k \<le> key))"
  using assms(1) [unfolded query_law_def, THEN conjunct1, rule_format, OF conjI [OF assms(2,3)], of m] by simp_all

lemma prefix_lawD:
  assumes "prefix_law lib rows" "index_of (lib_Fields lib) t ix = Some i" "ix_PrefixFromArgs (is_Indexer i) = Some p" "p args = Ok key"
  shows "\<exists>os. mem_LowerBound lib m t (ix @ ''_prefix'') args = Ok os \<and>
     (case os of
        [] \<Rightarrow> \<forall>obj \<in> rows m t. \<forall>k \<in> index_keys (lib_Fields lib) t ix obj. k < key
      | obj # _ \<Rightarrow> obj \<in> rows m t \<and> (\<exists>k \<in> index_keys (lib_Fields lib) t ix obj. key \<le> k \<and>
          (\<forall>obj' \<in> rows m t. \<forall>k' \<in> index_keys (lib_Fields lib) t ix obj'. key \<le> k' \<longrightarrow> k \<le> k')))"
  using assms(1) [unfolded prefix_law_def, rule_format, OF conjI [OF assms(2) conjI [OF assms(3,4)]], of m] .

section \<open>Ids\<close>

lemma of_char_inj: "(of_char c :: uint8) = of_char d \<longleftrightarrow> c = d"
proof
  assume eq: "(of_char c :: uint8) = of_char d"
  have b: "bit (of_char e :: uint8) n \<longleftrightarrow> n < 8 \<and> [digit0 e, digit1 e, digit2 e, digit3 e, digit4 e, digit5 e, digit6 e, digit7 e] ! n"
    for e n by (simp only: of_char_def bit_horner_sum_bit_word_iff) (simp add: numeral_eq_Suc)
  have "\<forall>n. n < 8 \<longrightarrow> [digit0 c, digit1 c, digit2 c, digit3 c, digit4 c, digit5 c, digit6 c, digit7 c] ! n =
      [digit0 d, digit1 d, digit2 d, digit3 d, digit4 d, digit5 d, digit6 d, digit7 d] ! n"
    using eq b by metis
  then show "c = d"
    by (cases c; cases d) (simp add: All_less_Suc numeral_eq_Suc)
qed simp

lemma bytes_of_string_inj [simp]: "bytes_of_string s = bytes_of_string t \<longleftrightarrow> s = t"
proof -
  have "inj (of_char :: char \<Rightarrow> uint8)" by (rule injI) (simp add: of_char_inj)
  then show ?thesis by (simp add: bytes_of_string_def inj_map_eq_map)
qed

section \<open>Keys of the tables\<close>

lemma tables_differ [simp]: "dutiesTable \<noteq> validatorsTable" "validatorsTable \<noteq> dutiesTable"
  by (simp_all add: dutiesTable_def validatorsTable_def)

lemma buckets_differ [simp]: "dutiesBucket \<noteq> validatorsBucket" "validatorsBucket \<noteq> dutiesBucket"
  by (simp_all add: dutiesBucket_def validatorsBucket_def)

lemma index_of_simps:
  "index_of fi dutiesTable ''id'' = Some \<lparr>is_Unique = True, is_AllowMissing = False, is_Indexer = StringFieldIndex fi ''Id''\<rparr>"
  "index_of fi dutiesTable ''block_proposer'' = Some \<lparr>is_Unique = False, is_AllowMissing = True, is_Indexer = slashingBlockIndex\<rparr>"
  "index_of fi dutiesTable ''attest_proposer'' = Some \<lparr>is_Unique = False, is_AllowMissing = True, is_Indexer = slashingAttestIndex\<rparr>"
  "index_of fi validatorsTable ''id'' = Some \<lparr>is_Unique = True, is_AllowMissing = False, is_Indexer = StringFieldIndex fi ''PubKey''\<rparr>"
  "index_of fi validatorsTable ''pending'' = Some \<lparr>is_Unique = False, is_AllowMissing = False, is_Indexer = FieldSetIndex fi ''Metadata''\<rparr>"
  "index_of fi validatorsTable ''index'' = Some \<lparr>is_Unique = False, is_AllowMissing = True,
     is_Indexer = activeValidatorIndex (UintFieldIndex fi ''Index'')\<rparr>"
  "index_of fi validatorsTable ''activationEpoch'' = Some \<lparr>is_Unique = False, is_AllowMissing = True,
     is_Indexer = activeValidatorIndex (UintFieldIndex fi ''ActivationEpoch'')\<rparr>"
  by (simp_all add: index_of_def schema_def dutiesTable_def validatorsTable_def)

lemma keys_simps:
  assumes "field_laws fi"
  shows "index_keys fi dutiesTable ''id'' (DutyObj d) = (if d_Id d = [] then {} else {bytes_of_string (d_Id d) @ [0]})"
    "index_keys fi validatorsTable ''pending'' (ValidatorObj v) = {[if v_Metadata v = None then 0 else 1]}"
    "index_keys fi validatorsTable ''index'' (ValidatorObj v) = (case v_Metadata v of None \<Rightarrow> {} | Some md \<Rightarrow> {be64 (vm_Index md)})"
    "index_keys fi validatorsTable ''activationEpoch'' (ValidatorObj v) =
       (case v_Metadata v of None \<Rightarrow> {} | Some md \<Rightarrow> {be64 (vm_ActivationEpoch md)})"
  using assms by (auto simp: index_keys_def index_of_simps keys_of_def field_laws_def activeValidatorIndex_def
      activeValidator_FromObject_def split: option.split)

definition proposal_done :: "Duty \<Rightarrow> bool" where
  "proposal_done d \<longleftrightarrow> Duty_Type d = Ok DutyBlockProposal \<and> d_Result d \<noteq> None"

definition attestation_done :: "Duty \<Rightarrow> uint64 \<Rightarrow> uint64 \<Rightarrow> bool" where
  "attestation_done d src tgt \<longleftrightarrow> Duty_Type d = Ok DutyAttestation \<and>
     (\<exists>r a c c'. d_Result d = Some r \<and> res_Attestation r = Some a \<and> ar_Source a = Some c \<and> cp_Epoch c = src \<and>
       ar_Target a = Some c' \<and> cp_Epoch c' = tgt)"

lemma block_keys:
  "index_keys fi dutiesTable ''block_proposer'' (DutyObj d) =
     (if proposal_done d then {block_key (d_ValidatorIndex d) (d_Slot d)} else {})"
  by (cases "Duty_Type d") (auto simp: index_keys_def index_of_simps keys_of_def slashingBlockIndex_def slashingBlock_FromObject_def
      block_key_def proposal_done_def)

lemma attest_keys:
  "k \<in> index_keys fi dutiesTable ''attest_proposer'' (DutyObj d) \<longleftrightarrow>
     (\<exists>src tgt. attestation_done d src tgt \<and>
       (k = attest_key (d_ValidatorIndex d) ''source'' src \<or> k = attest_key (d_ValidatorIndex d) ''target'' tgt))"
proof -
  have "index_keys fi dutiesTable ''attest_proposer'' (DutyObj d) =
      (case slashingAttest_FromObject (DutyObj d) of Ok (True, ks) \<Rightarrow> set ks | _ \<Rightarrow> {})"
    by (auto simp: index_keys_def index_of_simps keys_of_def slashingAttestIndex_def split: outcome.split bool.split)
  also have "\<dots> = {k. \<exists>src tgt. attestation_done d src tgt \<and>
       (k = attest_key (d_ValidatorIndex d) ''source'' src \<or> k = attest_key (d_ValidatorIndex d) ''target'' tgt)}"
  proof (cases "\<exists>src tgt. attestation_done d src tgt")
    case True
    then show ?thesis
      by (auto simp: attestation_done_def slashingAttest_FromObject_def addCheckpoint_def attest_key_def)
  next
    case False
    then have "slashingAttest_FromObject (DutyObj d) \<noteq> Ok (True, ks)" for ks
      by (auto simp: attestation_done_def slashingAttest_FromObject_def addCheckpoint_def outcome_simps split: option.splits)
    then show ?thesis using False by (auto split: outcome.split bool.split)
  qed
  finally show ?thesis by simp
qed

lemma insertable_duty:
  assumes "field_laws fi" "insertable fi dutiesTable obj"
  obtains d where "obj = DutyObj d" "d_Id d \<noteq> []" "d_Job d \<noteq> None"
  using assms by (cases obj)
    (auto simp: insertable_def schema_def index_ok_def field_laws_def IndexJob_def IndexJob_FromObject_def split: if_splits)

lemma insertable_validator:
  assumes "field_laws fi" "insertable fi validatorsTable obj"
  obtains v where "obj = ValidatorObj v" "v_PubKey v \<noteq> []"
  using assms by (cases obj)
    (auto simp: insertable_def schema_def index_ok_def field_laws_def activeValidatorIndex_def activeValidator_FromObject_def
      dutiesTable_def validatorsTable_def split: if_splits)

end
