(* ===== verification/StateRuns.thy ===== *)
theory StateRuns
  imports StateLaws
begin

text \<open>
  Runs of the state: opening it, upserts that succeed or fail, and restarts.  Memory and disk mirror
  each other throughout, so that a restart loses nothing, and lookups give what was stored.
\<close>

section \<open>Mirroring\<close>

definition disk_rows :: "('m, 'b) StateLib \<Rightarrow> (bytes \<Rightarrow> bytes option) \<Rightarrow> raw \<Rightarrow> raw set" where
  "disk_rows lib bucket p = {obj. \<exists>k v. bucket k = Some v \<and> pb_Unmarshal lib p v = Ok obj}"

definition disk_ok :: "('m, 'b) StateLib \<Rightarrow> (bytes \<Rightarrow> bytes option) \<Rightarrow> string \<Rightarrow> raw \<Rightarrow> bool" where
  "disk_ok lib bucket t p \<longleftrightarrow>
     (\<forall>k v. bucket k = Some v \<longrightarrow>
        (\<exists>obj. pb_Unmarshal lib p v = Ok obj \<and> raw_id obj = k \<and> insertable (lib_Fields lib) t obj \<and> norm_raw obj = obj))"

definition mirrored :: "('m, 'b) StateLib \<Rightarrow> (bytes \<Rightarrow> bytes option) \<Rightarrow> string \<Rightarrow> raw \<Rightarrow> raw set \<Rightarrow> bool" where
  "mirrored lib bucket t p objs \<longleftrightarrow> norm_raw ` objs = disk_rows lib bucket p \<and> disk_ok lib bucket t p \<and>
     inj_on raw_id objs \<and> (\<forall>obj \<in> objs. insertable (lib_Fields lib) t obj)"

abbreviation duty0 :: raw where "duty0 \<equiv> DutyObj proto_NewDuty"
abbreviation validator0 :: raw where "validator0 \<equiv> ValidatorObj empty_Validator"

definition consistent :: "('m, 'b) StateLib \<Rightarrow> ('m \<Rightarrow> string \<Rightarrow> raw set) \<Rightarrow> ('b \<Rightarrow> bytes \<Rightarrow> bytes \<Rightarrow> bytes option) \<Rightarrow>
    'm \<Rightarrow> 'b \<Rightarrow> bool" where
  "consistent lib rows contents m db \<longleftrightarrow>
     mirrored lib (contents db dutiesBucket) dutiesTable duty0 (rows m dutiesTable) \<and>
     mirrored lib (contents db validatorsBucket) validatorsTable validator0 (rows m validatorsTable)"

lemma disk_okD:
  assumes "disk_ok lib bucket t p" "bucket k = Some v"
  shows "\<exists>obj. pb_Unmarshal lib p v = Ok obj \<and> raw_id obj = k \<and> insertable (lib_Fields lib) t obj"
    "pb_Unmarshal lib p v = Ok q \<Longrightarrow> raw_id q = k \<and> insertable (lib_Fields lib) t q \<and> norm_raw q = q"
proof -
  obtain obj where obj: "pb_Unmarshal lib p v = Ok obj" "raw_id obj = k" "insertable (lib_Fields lib) t obj" "norm_raw obj = obj"
    using assms unfolding disk_ok_def by blast
  then show "\<exists>obj. pb_Unmarshal lib p v = Ok obj \<and> raw_id obj = k \<and> insertable (lib_Fields lib) t obj"
    "pb_Unmarshal lib p v = Ok q \<Longrightarrow> raw_id q = k \<and> insertable (lib_Fields lib) t q \<and> norm_raw q = q" by auto
qed

lemma disk_rows_upd:
  assumes "disk_ok lib bucket t p" "pb_Unmarshal lib p enc = Ok new"
  shows "disk_rows lib (bucket(raw_id new \<mapsto> enc)) p = insert new {q \<in> disk_rows lib bucket p. raw_id q \<noteq> raw_id new}"
proof -
  have id: "raw_id q = k" if "bucket k = Some v" "pb_Unmarshal lib p v = Ok q" for k v q
    using disk_okD(2) [OF assms(1) that] by blast
  have "q \<in> disk_rows lib (bucket(raw_id new \<mapsto> enc)) p \<longleftrightarrow> q = new \<or> (q \<in> disk_rows lib bucket p \<and> raw_id q \<noteq> raw_id new)" for q
    using id assms(2) by (auto simp: disk_rows_def split: if_splits)
  then show ?thesis by blast
qed

lemma mirrored_store:
  assumes m: "mirrored lib bucket t p objs" and ins: "insertable (lib_Fields lib) t obj" "insertable (lib_Fields lib) t (norm_raw obj)"
    and dec: "pb_Unmarshal lib p enc = Ok (norm_raw obj)"
  shows "mirrored lib (bucket(raw_id obj \<mapsto> enc)) t p (insert obj {q \<in> objs. raw_id q \<noteq> raw_id obj})"
proof -
  have ok: "disk_ok lib bucket t p" and eq: "norm_raw ` objs = disk_rows lib bucket p" using m by (simp_all add: mirrored_def)
  have "norm_raw ` {q \<in> objs. raw_id q \<noteq> raw_id obj} = {q \<in> disk_rows lib bucket p. raw_id q \<noteq> raw_id obj}"
    unfolding eq [symmetric] by auto
  then have "norm_raw ` insert obj {q \<in> objs. raw_id q \<noteq> raw_id obj} = disk_rows lib (bucket(raw_id obj \<mapsto> enc)) p"
    using disk_rows_upd [OF ok dec] by simp
  moreover have "disk_ok lib (bucket(raw_id obj \<mapsto> enc)) t p"
    using ok ins dec by (simp add: disk_ok_def)
  moreover have "inj_on raw_id (insert obj {q \<in> objs. raw_id q \<noteq> raw_id obj})"
    using m by (auto simp: mirrored_def inj_on_def)
  ultimately show ?thesis using m ins by (simp add: mirrored_def)
qed

lemma mirrored_id:
  assumes "mirrored lib bucket t p objs" "obj \<in> objs"
  shows "insertable (lib_Fields lib) t obj" "obj' \<in> objs \<Longrightarrow> raw_id obj = raw_id obj' \<Longrightarrow> obj = obj'"
  using assms by (auto simp: mirrored_def dest: inj_onD)

lemma upsert_duty_consistent:
  assumes laws: "field_laws (lib_Fields lib)" "insert_law lib rows" "bolt_laws lib contents" "codec_laws lib"
    and c: "consistent lib rows contents m tx" and up: "upsert_duty lib d (m, tx) = Ok (m', tx')"
  shows "consistent lib rows contents m' tx'"
    "rows m' dutiesTable = insert (DutyObj d) {q \<in> rows m dutiesTable. raw_id q \<noteq> bytes_of_string (d_Id d)}"
    "rows m' validatorsTable = rows m validatorsTable"
proof -
  obtain enc where ins: "mem_Insert lib m dutiesTable (DutyObj d) = Ok m'" and enc: "pb_Marshal lib (DutyObj d) = Ok enc"
      and put: "bolt_Put lib tx dutiesBucket (bytes_of_string (d_Id d)) enc = Ok tx'"
    using up by (auto simp: upsert_duty_def dbPut_def outcome_simps)
  have rows: "rows m' = (rows m)(dutiesTable := insert (DutyObj d) {q \<in> rows m dutiesTable. raw_id q \<noteq> raw_id (DutyObj d)})"
      and insb: "insertable (lib_Fields lib) dutiesTable (DutyObj d)"
    using laws(2) ins unfolding insert_law_def by blast+
  have cont: "contents tx' = (contents tx)(dutiesBucket := (contents tx dutiesBucket)(raw_id (DutyObj d) \<mapsto> enc))"
    using laws(3) put by (simp add: bolt_laws_def)
  have dec: "pb_Unmarshal lib duty0 enc = Ok (norm_raw (DutyObj d))"
    using laws(4) enc by (simp add: codec_laws_def)
  have "insertable (lib_Fields lib) dutiesTable (norm_raw (DutyObj d))" using insb insertable_norm [OF laws(1)] by blast
  then show "consistent lib rows contents m' tx'"
    using mirrored_store [OF _ insb _ dec] c by (simp add: consistent_def rows cont)
  show "rows m' dutiesTable = insert (DutyObj d) {q \<in> rows m dutiesTable. raw_id q \<noteq> bytes_of_string (d_Id d)}"
    "rows m' validatorsTable = rows m validatorsTable" by (simp_all add: rows)
qed

lemma upsert_validator_consistent:
  assumes laws: "field_laws (lib_Fields lib)" "insert_law lib rows" "bolt_laws lib contents" "codec_laws lib"
    and c: "consistent lib rows contents m tx" and up: "upsert_validator lib v (m, tx) = Ok (m', tx')"
  shows "consistent lib rows contents m' tx'"
    "rows m' validatorsTable = insert (ValidatorObj v) {q \<in> rows m validatorsTable. raw_id q \<noteq> bytes_of_string (v_PubKey v)}"
    "rows m' dutiesTable = rows m dutiesTable"
proof -
  obtain enc where ins: "mem_Insert lib m validatorsTable (ValidatorObj v) = Ok m'" and enc: "pb_Marshal lib (ValidatorObj v) = Ok enc"
      and put: "bolt_Put lib tx validatorsBucket (bytes_of_string (v_PubKey v)) enc = Ok tx'"
    using up by (auto simp: upsert_validator_def dbPut_def outcome_simps)
  have rows: "rows m' = (rows m)(validatorsTable :=
        insert (ValidatorObj v) {q \<in> rows m validatorsTable. raw_id q \<noteq> raw_id (ValidatorObj v)})"
      and insb: "insertable (lib_Fields lib) validatorsTable (ValidatorObj v)"
    using laws(2) ins unfolding insert_law_def by blast+
  have cont: "contents tx' = (contents tx)(validatorsBucket := (contents tx validatorsBucket)(raw_id (ValidatorObj v) \<mapsto> enc))"
    using laws(3) put by (simp add: bolt_laws_def)
  have dec: "pb_Unmarshal lib validator0 enc = Ok (norm_raw (ValidatorObj v))"
    using laws(4) enc by (simp add: codec_laws_def)
  then show "consistent lib rows contents m' tx'"
    using mirrored_store [OF _ insb _ dec] insb c by (simp add: consistent_def rows cont)
  show "rows m' validatorsTable = insert (ValidatorObj v) {q \<in> rows m validatorsTable. raw_id q \<noteq> bytes_of_string (v_PubKey v)}"
    "rows m' dutiesTable = rows m dutiesTable" by (simp_all add: rows)
qed

section \<open>Reading the disk\<close>

lemma ofold_insert:
  assumes law: "insert_law lib rows" and "distinct (map fst xs)"
    and "\<forall>(k, v) \<in> set xs. \<exists>obj. g k = Ok obj \<and> raw_id obj = k \<and> insertable (lib_Fields lib) t obj"
    and "\<forall>obj \<in> rows m t. raw_id obj \<notin> fst ` set xs"
  shows "\<exists>m'. ofold (\<lambda>(k, v) m. obind (g k) (\<lambda>elem. mem_Insert lib m t elem)) xs m = Ok m' \<and>
    rows m' = (rows m)(t := rows m t \<union> {obj. \<exists>k \<in> fst ` set xs. g k = Ok obj})"
  using assms(2-)
proof (induction xs arbitrary: m)
  case Nil
  then show ?case by simp
next
  case (Cons x xs)
  obtain k v where x: "x = (k, v)" by (cases x)
  then obtain obj where obj: "g k = Ok obj" "raw_id obj = k" "insertable (lib_Fields lib) t obj"
    using Cons.prems(2) by auto
  then obtain m1 where m1: "mem_Insert lib m t obj = Ok m1" "rows m1 = (rows m)(t := insert obj {p \<in> rows m t. raw_id p \<noteq> raw_id obj})"
    using law unfolding insert_law_def by blast
  have "{p \<in> rows m t. raw_id p \<noteq> raw_id obj} = rows m t"
    using Cons.prems(3) obj(2) by (auto simp: x)
  then have rows1: "rows m1 = (rows m)(t := insert obj (rows m t))" using m1(2) by simp
  have notin: "\<forall>p \<in> rows m1 t. raw_id p \<notin> fst ` set xs"
    using Cons.prems(1,3) obj(2) by (auto simp: rows1 x)
  have rest: "distinct (map fst xs)"
    "\<forall>(k, v) \<in> set xs. \<exists>obj. g k = Ok obj \<and> raw_id obj = k \<and> insertable (lib_Fields lib) t obj"
    using Cons.prems(1,2) by auto
  from Cons.IH [OF rest notin] obtain m' where "ofold (\<lambda>(k, v) m. obind (g k) (\<lambda>elem. mem_Insert lib m t elem)) xs m1 = Ok m'"
      "rows m' = (rows m1)(t := rows m1 t \<union> {obj. \<exists>k \<in> fst ` set xs. g k = Ok obj})"
    by blast
  moreover have "{o'. \<exists>j \<in> fst ` set (x # xs). g j = Ok o'} = insert obj {o'. \<exists>j \<in> fst ` set xs. g j = Ok o'}"
    by (auto simp: x obj(1))
  ultimately show ?case
    by (intro exI [of _ m']) (simp add: x obj(1) m1(1) rows1)
qed

lemma indexObject_rows:
  assumes laws: "insert_law lib rows" "bolt_laws lib contents"
    and ok: "disk_ok lib (contents tx b) t p" and empty: "rows m t = {}"
  shows "\<exists>m'. indexObject lib tx b t p m = Ok m' \<and> rows m' = (rows m)(t := disk_rows lib (contents tx b) p)"
proof -
  let ?g = "\<lambda>k. dbGet lib tx b k p"
  have each: "distinct (map fst (bolt_ForEach lib tx b))" "map_of (bolt_ForEach lib tx b) = contents tx b" "bolt_Get lib tx b = contents tx b"
    using laws(2) by (auto simp: bolt_laws_def)
  have mem: "(k, v) \<in> set (bolt_ForEach lib tx b) \<longleftrightarrow> contents tx b k = Some v" for k v
    using each by (metis map_of_eq_Some_iff)
  have get: "?g k = Ok obj \<longleftrightarrow> pb_Unmarshal lib p v = Ok obj" if "contents tx b k = Some v" for k v obj
    using that by (simp add: dbGet_def each(3) outcome_simps)
  have dec: "\<forall>(k, v) \<in> set (bolt_ForEach lib tx b). \<exists>obj. ?g k = Ok obj \<and> raw_id obj = k \<and> insertable (lib_Fields lib) t obj"
    using disk_okD(1) [OF ok] get by (auto simp: mem)
  have "k \<in> fst ` set (bolt_ForEach lib tx b) \<longleftrightarrow> (\<exists>v. contents tx b k = Some v)" for k
    using map_of_eq_None_iff [of "bolt_ForEach lib tx b" k] by (cases "contents tx b k") (simp_all add: each(2))
  then have "{obj. \<exists>k \<in> fst ` set (bolt_ForEach lib tx b). ?g k = Ok obj} = disk_rows lib (contents tx b) p"
    unfolding disk_rows_def Bex_def using get by blast
  then show ?thesis
    using ofold_insert [OF laws(1) each(1) dec, of m] empty by (simp add: indexObject_def)
qed

lemma mirrored_disk:
  assumes "disk_ok lib bucket t p"
  shows "mirrored lib bucket t p (disk_rows lib bucket p)"
proof -
  have norm: "norm_raw obj = obj \<and> insertable (lib_Fields lib) t obj" if "obj \<in> disk_rows lib bucket p" for obj
    using that disk_okD(2) [OF assms] by (auto simp: disk_rows_def)
  have inj: "q = q'" if "q \<in> disk_rows lib bucket p" "q' \<in> disk_rows lib bucket p" "raw_id q = raw_id q'" for q q'
  proof -
    obtain k v k' v' where kv: "bucket k = Some v" "pb_Unmarshal lib p v = Ok q" "bucket k' = Some v'" "pb_Unmarshal lib p v' = Ok q'"
      using \<open>q \<in> _\<close> \<open>q' \<in> _\<close> by (auto simp: disk_rows_def)
    then have "raw_id q = k" "raw_id q' = k'" using disk_okD(2) [OF assms] by blast+
    then show ?thesis using kv that(3) by simp
  qed
  have "norm_raw ` disk_rows lib bucket p = disk_rows lib bucket p" using norm by (force simp: image_iff)
  then show ?thesis using norm inj assms by (simp add: mirrored_def inj_on_def)
qed

lemma reIndex_consistent:
  assumes laws: "insert_law lib rows" "bolt_laws lib contents"
    and ok: "disk_ok lib (contents db dutiesBucket) dutiesTable duty0" "disk_ok lib (contents db validatorsBucket) validatorsTable validator0"
    and empty: "\<forall>t. rows m t = {}"
  shows "\<exists>s. reIndex lib \<lparr>s_db = db, s_memdb = m\<rparr> = Ok s \<and> s_db s = db \<and> consistent lib rows contents (s_memdb s) db \<and>
    rows (s_memdb s) dutiesTable = disk_rows lib (contents db dutiesBucket) duty0 \<and>
    rows (s_memdb s) validatorsTable = disk_rows lib (contents db validatorsBucket) validator0"
proof -
  obtain m1 where m1: "indexObject lib db dutiesBucket dutiesTable duty0 m = Ok m1"
      "rows m1 = (rows m)(dutiesTable := disk_rows lib (contents db dutiesBucket) duty0)"
    using indexObject_rows [OF laws ok(1)] empty by blast
  have "rows m1 validatorsTable = {}" using empty by (simp add: m1(2))
  then obtain m2 where m2: "indexObject lib db validatorsBucket validatorsTable validator0 m1 = Ok m2"
      "rows m2 = (rows m1)(validatorsTable := disk_rows lib (contents db validatorsBucket) validator0)"
    using indexObject_rows [OF laws ok(2)] by blast
  show ?thesis
    using m1(1) m2(1) mirrored_disk [OF ok(1)] mirrored_disk [OF ok(2)]
    by (simp add: reIndex_def m1(2) m2(2) consistent_def flip: dutiesTable_def validatorsTable_def)
qed

section \<open>Reachable states\<close>

inductive state_run :: "('m, 'b) StateLib \<Rightarrow> ('b \<Rightarrow> bytes \<Rightarrow> bytes \<Rightarrow> bytes option) \<Rightarrow> ('m, 'b) State \<Rightarrow> bool"
  for lib contents where
  fresh: "bolt_Open lib path = Ok db \<Longrightarrow> \<forall>b k. contents db b k = None \<Longrightarrow> NewState lib path = Ok s \<Longrightarrow> state_run lib contents s"
| duties: "state_run lib contents s \<Longrightarrow> state_run lib contents (fst (UpsertDuties lib s ds))"
| validators: "state_run lib contents s \<Longrightarrow> state_run lib contents (fst (UpsertValidator lib s vs))"
| restart: "state_run lib contents s \<Longrightarrow> bolt_Open lib path = Ok db \<Longrightarrow> contents db = contents (s_db s) \<Longrightarrow>
    NewState lib path = Ok s' \<Longrightarrow> state_run lib contents s'"

lemma NewState_consistent:
  assumes laws: "insert_law lib rows" "bolt_laws lib contents"
    and "bolt_Open lib path = Ok db" "NewState lib path = Ok s"
    and ok: "disk_ok lib (contents db dutiesBucket) dutiesTable duty0" "disk_ok lib (contents db validatorsBucket) validatorsTable validator0"
  shows "consistent lib rows contents (s_memdb s) (s_db s) \<and> contents (s_db s) = contents db \<and>
    rows (s_memdb s) dutiesTable = disk_rows lib (contents db dutiesBucket) duty0 \<and>
    rows (s_memdb s) validatorsTable = disk_rows lib (contents db validatorsBucket) validator0"
proof -
  obtain tx1 tx2 db' m where "bolt_CreateBucketIfNotExists lib db dutiesBucket = Ok tx1"
      "bolt_CreateBucketIfNotExists lib tx1 validatorsBucket = Ok tx2" "bolt_Commit lib tx2 = Ok db'"
      and m: "mem_NewMemDB lib (schema (lib_Fields lib)) = Ok m" and s: "reIndex lib \<lparr>s_db = db', s_memdb = m\<rparr> = Ok s"
    using assms(3,4) by (auto simp: NewState_def outcome_simps)
  then have cont: "contents db' = contents db" using laws(2) by (metis bolt_laws_def)
  have "\<forall>t. rows m t = {}" using laws(1) m by (simp add: insert_law_def)
  then show ?thesis
    using reIndex_consistent [OF laws, of db' m] ok s cont by auto
qed

lemma update_both_cases:
  "update_both lib s r = (s', Ok ()) \<Longrightarrow> \<exists>m tx. r = Ok (m, tx) \<and> s_memdb s' = m \<and> bolt_Commit lib tx = Ok (s_db s')"
  "update_both lib s r = (s', e) \<Longrightarrow> e \<noteq> Ok () \<Longrightarrow> s' = s"
  by (auto simp: update_both_def split: outcome.splits prod.splits)

lemma consistent_commit:
  assumes "bolt_laws lib contents" "consistent lib rows contents m tx" "bolt_Commit lib tx = Ok db"
  shows "consistent lib rows contents m db"
proof -
  have "contents db = contents tx" using assms(1,3) by (simp add: bolt_laws_def)
  then show ?thesis using assms(2) by (simp add: consistent_def)
qed

lemma update_both_consistent:
  assumes "bolt_laws lib contents" "consistent lib rows contents (s_memdb s) (s_db s)"
    and "\<And>m tx. r = Ok (m, tx) \<Longrightarrow> consistent lib rows contents m tx"
  shows "consistent lib rows contents (s_memdb (fst (update_both lib s r))) (s_db (fst (update_both lib s r)))"
proof (cases r)
  case (Ok mt)
  obtain m tx where mt: "mt = (m, tx)" by (cases mt)
  show ?thesis
  proof (cases "bolt_Commit lib tx")
    case (Ok db)
    then show ?thesis
      using consistent_commit [OF assms(1) assms(3) Ok] \<open>r = Ok mt\<close> by (simp add: update_both_def mt)
  qed (simp_all add: update_both_def \<open>r = Ok mt\<close> mt assms(2))
qed (simp_all add: update_both_def assms(2))

lemma upserts_consistent:
  assumes laws: "field_laws (lib_Fields lib)" "insert_law lib rows" "bolt_laws lib contents" "codec_laws lib"
    and c: "consistent lib rows contents m tx"
  shows "ofold (upsert_duty lib) ds (m, tx) = Ok (m', tx') \<Longrightarrow> consistent lib rows contents m' tx'"
    "ofold (upsert_validator lib) vs (m, tx) = Ok (m', tx') \<Longrightarrow> consistent lib rows contents m' tx'"
proof -
  show "consistent lib rows contents m' tx'" if "ofold (upsert_duty lib) ds (m, tx) = Ok (m', tx')"
    using ofold_inv [OF that, of "\<lambda>(m, tx). consistent lib rows contents m tx"] c
      upsert_duty_consistent(1) [OF laws] by fastforce
  show "consistent lib rows contents m' tx'" if "ofold (upsert_validator lib) vs (m, tx) = Ok (m', tx')"
    using ofold_inv [OF that, of "\<lambda>(m, tx). consistent lib rows contents m tx"] c
      upsert_validator_consistent(1) [OF laws] by fastforce
qed

lemma state_run_consistent:
  assumes laws: "memdb_laws lib rows" "bolt_laws lib contents" "codec_laws lib" and "state_run lib contents s"
  shows "consistent lib rows contents (s_memdb s) (s_db s)"
  using assms(4)
proof (induction rule: state_run.induct)
  case (fresh path db s)
  then show ?case using NewState_consistent [OF _ laws(2)] laws(1) by (simp add: memdb_laws_def disk_ok_def)
next
  case (duties s ds)
  then show ?case
    using update_both_consistent [OF laws(2)] upserts_consistent(1) [OF _ _ laws(2,3) duties.IH] laws(1)
    by (simp add: memdb_laws_def UpsertDuties_def)
next
  case (validators s vs)
  then show ?case
    using update_both_consistent [OF laws(2)] upserts_consistent(2) [OF _ _ laws(2,3) validators.IH] laws(1)
    by (simp add: memdb_laws_def UpsertValidator_def)
next
  case (restart s path db s')
  have "disk_ok lib (contents db dutiesBucket) dutiesTable duty0" "disk_ok lib (contents db validatorsBucket) validatorsTable validator0"
    using restart.IH restart.hyps(3) by (simp_all add: consistent_def mirrored_def)
  then show ?case
    using NewState_consistent [OF _ laws(2) restart.hyps(2,4)] laws(1) by (simp add: memdb_laws_def)
qed

end
