(* ===== verification/RefStore.thy ===== *)
theory RefStore
  imports StateRuns
begin

text \<open>
  A small instance of the database parameters that satisfies the laws: a table is a list of objects,
  a bucket an association list, and the encoding is a finite table.  The witnesses of the properties
  of the state run on it; it shows that the laws can hold together.
\<close>

section \<open>The instance\<close>

definition ref_string_index :: "string \<Rightarrow> Indexer" where
  "ref_string_index f = \<lparr>
     ix_FromObject = (\<lambda>obj.
       let fields = (case obj of DutyObj d \<Rightarrow> [(''Id'', d_Id d)] | ValidatorObj v \<Rightarrow> [(''PubKey'', v_PubKey v)] | _ \<Rightarrow> [])
       in case map_of fields f of None \<Rightarrow> Err BadObject
          | Some s \<Rightarrow> Ok (s \<noteq> [], if s = [] then [] else [bytes_of_string s @ [0]])),
     ix_FromArgs = (\<lambda>args. case args of [ArgString s] \<Rightarrow> Ok (bytes_of_string s @ [0]) | _ \<Rightarrow> Err BadArgs),
     ix_PrefixFromArgs = None\<rparr>"

definition ref_set_index :: "string \<Rightarrow> Indexer" where
  "ref_set_index f = \<lparr>
     ix_FromObject = (\<lambda>obj. case obj of ValidatorObj v \<Rightarrow> Ok (True, [[if v_Metadata v = None then 0 else 1]]) | _ \<Rightarrow> Err BadObject),
     ix_FromArgs = (\<lambda>args. case args of [ArgBool b] \<Rightarrow> Ok [if b then 1 else 0] | _ \<Rightarrow> Err BadArgs),
     ix_PrefixFromArgs = None\<rparr>"

definition ref_uint_index :: "string \<Rightarrow> Indexer" where
  "ref_uint_index f = \<lparr>
     ix_FromObject = (\<lambda>obj. case obj of
         MetadataObj md \<Rightarrow> Ok (True, [be64 (if f = ''Index'' then vm_Index md else vm_ActivationEpoch md)])
       | _ \<Rightarrow> Err BadObject),
     ix_FromArgs = (\<lambda>args. case args of [ArgUint64 u] \<Rightarrow> Ok (be64 u) | _ \<Rightarrow> Err BadArgs),
     ix_PrefixFromArgs = None\<rparr>"

definition ref_fields :: FieldIndexes where
  "ref_fields = \<lparr>StringFieldIndex = ref_string_index, FieldSetIndex = ref_set_index, UintFieldIndex = ref_uint_index\<rparr>"

type_synonym ref_mem = "string \<Rightarrow> raw list"
type_synonym ref_bolt = "bytes \<Rightarrow> (bytes \<times> bytes) list"

definition ref_query :: "(string \<Rightarrow> raw list \<Rightarrow> bytes \<Rightarrow> 'a) \<Rightarrow> ref_mem \<Rightarrow> string \<Rightarrow> string \<Rightarrow> arg list \<Rightarrow> 'a outcome" where
  "ref_query f m t ix args =
     (case index_of ref_fields t ix of
        None \<Rightarrow> Err BadArgs
      | Some i \<Rightarrow> obind (ix_FromArgs (is_Indexer i) args) (\<lambda>key. Ok (f ix (m t) key)))"

definition ref_First :: "ref_mem \<Rightarrow> string \<Rightarrow> string \<Rightarrow> arg list \<Rightarrow> raw option outcome" where
  "ref_First m t = ref_query (\<lambda>ix objs key. find (\<lambda>obj. key \<in> index_keys ref_fields t ix obj) objs) m t"

definition ref_Get :: "ref_mem \<Rightarrow> string \<Rightarrow> string \<Rightarrow> arg list \<Rightarrow> raw list outcome" where
  "ref_Get m t ix args =
     (if ix = ''id'' \<and> args = [] then Ok (m t)
      else ref_query (\<lambda>ix objs key. filter (\<lambda>obj. key \<in> index_keys ref_fields t ix obj) objs) m t ix args)"

definition ref_Reverse :: "ref_mem \<Rightarrow> string \<Rightarrow> string \<Rightarrow> arg list \<Rightarrow> raw list outcome" where
  "ref_Reverse m t = ref_query (\<lambda>ix objs key. filter (\<lambda>obj. \<exists>k \<in> index_keys ref_fields t ix obj. k < key) objs) m t"

definition ref_entries :: "IndexSchema \<Rightarrow> bytes \<Rightarrow> raw list \<Rightarrow> (bytes \<times> raw) list" where
  "ref_entries i key objs = sort_key fst (filter (\<lambda>(k, obj). key \<le> k) (concat (map (\<lambda>obj. map (\<lambda>k. (k, obj)) (keys_of i obj)) objs)))"

definition ref_LowerBound :: "ref_mem \<Rightarrow> string \<Rightarrow> string \<Rightarrow> arg list \<Rightarrow> raw list outcome" where
  "ref_LowerBound m t ix args =
     (case index_of ref_fields t (take (length ix - 7) ix) of
        None \<Rightarrow> Err BadArgs
      | Some i \<Rightarrow> (case ix_PrefixFromArgs (is_Indexer i) of
          None \<Rightarrow> Err BadArgs
        | Some p \<Rightarrow> obind (p args) (\<lambda>key. Ok (map snd (ref_entries i key (m t))))))"

definition ref_lib :: "(string \<Rightarrow> ref_bolt) \<Rightarrow> (bytes \<times> raw) list \<Rightarrow> (ref_mem, ref_bolt) StateLib" where
  "ref_lib files code = \<lparr>lib_Fields = ref_fields,
     mem_NewMemDB = (\<lambda>_. Ok (\<lambda>_. [])),
     mem_Insert = (\<lambda>m t obj. if insertable ref_fields t obj
        then Ok (m(t := filter (\<lambda>p. raw_id p \<noteq> raw_id obj) (m t) @ [obj])) else Err BadObject),
     mem_First = ref_First, mem_Get = ref_Get, mem_LowerBound = ref_LowerBound, mem_ReverseLowerBound = ref_Reverse,
     bolt_Open = (\<lambda>path. Ok (files path)),
     bolt_CreateBucketIfNotExists = (\<lambda>tx b. Ok tx),
     bolt_ForEach = (\<lambda>tx b. map (\<lambda>k. (k, the (map_of (tx b) k))) (remdups (map fst (tx b)))),
     bolt_Get = (\<lambda>tx b. map_of (tx b)),
     bolt_Put = (\<lambda>tx b k v. Ok (tx(b := (k, v) # tx b))),
     bolt_Commit = Ok,
     bolt_Close = (\<lambda>_. Ok ()),
     pb_Marshal = (\<lambda>obj. case find (\<lambda>p. snd p = obj) code of None \<Rightarrow> Err BadObject | Some p \<Rightarrow> Ok (fst p)),
     pb_Unmarshal = (\<lambda>_ enc. case map_of code enc of None \<Rightarrow> Err BadObject | Some obj \<Rightarrow> Ok (norm_raw obj))\<rparr>"

definition ref_rows :: "ref_mem \<Rightarrow> string \<Rightarrow> raw set" where
  "ref_rows m t = set (m t)"

definition ref_contents :: "ref_bolt \<Rightarrow> bytes \<Rightarrow> bytes \<Rightarrow> bytes option" where
  "ref_contents db b = map_of (db b)"

section \<open>The laws hold\<close>

lemma ref_lib_Fields [simp]: "lib_Fields (ref_lib files code) = ref_fields"
  by (simp add: ref_lib_def)

lemma ref_field_laws: "field_laws ref_fields"
  by (simp add: field_laws_def ref_fields_def ref_string_index_def ref_set_index_def ref_uint_index_def)

lemma ref_upd:
  "ref_rows (m(t := objs)) = (ref_rows m)(t := set objs)" "ref_contents (db(b := es)) = (ref_contents db)(b := map_of es)"
  by (simp_all add: ref_rows_def ref_contents_def fun_eq_iff)

lemma ref_insert_law: "insert_law (ref_lib files code) ref_rows"
proof -
  have "insert obj {p \<in> ref_rows m t. raw_id p \<noteq> raw_id obj} = set (filter (\<lambda>p. raw_id p \<noteq> raw_id obj) (m t) @ [obj])" for m t obj
    by (simp add: ref_rows_def)
  then show ?thesis
    by (auto simp: insert_law_def ref_lib_def ref_upd ref_rows_def [of "\<lambda>_. []"])
qed

lemma ref_query_law: "query_law (ref_lib files code) ref_rows"
  unfolding query_law_def
proof (intro conjI allI impI)
  fix m t ix i args key
  assume "index_of (lib_Fields (ref_lib files code)) t ix = Some i \<and> ix_FromArgs (is_Indexer i) args = Ok key"
  then have i: "index_of ref_fields t ix = Some i" "ix_FromArgs (is_Indexer i) args = Ok key"
    by simp_all
  show "\<exists>r. mem_First (ref_lib files code) m t ix args = Ok r \<and>
      (case r of None \<Rightarrow> \<forall>obj \<in> ref_rows m t. key \<notin> index_keys (lib_Fields (ref_lib files code)) t ix obj
       | Some obj \<Rightarrow> obj \<in> ref_rows m t \<and> key \<in> index_keys (lib_Fields (ref_lib files code)) t ix obj)"
    using i by (simp add: ref_lib_def ref_First_def ref_query_def ref_rows_def find_None_iff split: option.split)
      (auto simp: find_Some_iff)
  have "\<not> (ix = ''id'' \<and> args = [])"
    using i by (auto simp: index_of_def schema_def ref_fields_def ref_string_index_def split: if_splits)
  then show "\<exists>os. mem_Get (ref_lib files code) m t ix args = Ok os \<and>
      set os = {obj \<in> ref_rows m t. key \<in> index_keys (lib_Fields (ref_lib files code)) t ix obj}"
    using i by (intro exI [of _ "filter (\<lambda>obj. key \<in> index_keys ref_fields t ix obj) (m t)"] conjI)
      (simp_all only: ref_lib_def ref_Get_def ref_query_def ref_rows_def StateLib.select_convs, auto)
  show "\<exists>os. mem_ReverseLowerBound (ref_lib files code) m t ix args = Ok os \<and>
      {obj \<in> ref_rows m t. \<exists>k \<in> index_keys (lib_Fields (ref_lib files code)) t ix obj. length k = length key \<and> k < key} \<subseteq> set os \<and>
      (\<forall>obj \<in> set os. obj \<in> ref_rows m t \<and> (\<exists>k \<in> index_keys (lib_Fields (ref_lib files code)) t ix obj. length k = length key \<longrightarrow> k \<le> key))"
    using i by (auto simp: ref_lib_def ref_Reverse_def ref_query_def ref_rows_def intro: less_imp_le)
qed (simp_all add: ref_lib_def ref_Get_def ref_rows_def)

lemma ref_entries_set:
  "(k, obj) \<in> set (ref_entries i key objs) \<longleftrightarrow> obj \<in> set objs \<and> k \<in> set (keys_of i obj) \<and> key \<le> k"
  by (auto simp: ref_entries_def)

lemma ref_entries_least:
  assumes "ref_entries i key objs = (k, obj) # es" "(k', obj') \<in> set (ref_entries i key objs)"
  shows "k \<le> k'"
proof -
  have "sorted (map fst (ref_entries i key objs))" by (simp add: ref_entries_def)
  then show ?thesis using assms by force
qed

lemma ref_prefix_law: "prefix_law (ref_lib files code) ref_rows"
  unfolding prefix_law_def
proof (intro allI impI)
  fix m t ix i p args key
  assume "index_of (lib_Fields (ref_lib files code)) t ix = Some i \<and> ix_PrefixFromArgs (is_Indexer i) = Some p \<and> p args = Ok key"
  then have i: "index_of ref_fields t ix = Some i" "ix_PrefixFromArgs (is_Indexer i) = Some p" "p args = Ok key"
    by (simp_all add: ref_lib_def)
  let ?E = "ref_entries i key (m t)"
  have keys: "index_keys ref_fields t ix obj = set (keys_of i obj)" for obj by (simp add: index_keys_def i)
  have res: "mem_LowerBound (ref_lib files code) m t (ix @ ''_prefix'') args = Ok (map snd ?E)"
    using i by (simp add: ref_lib_def ref_LowerBound_def)
  have "case map snd ?E of
      [] \<Rightarrow> \<forall>obj \<in> ref_rows m t. \<forall>k \<in> index_keys ref_fields t ix obj. k < key
    | obj # _ \<Rightarrow> obj \<in> ref_rows m t \<and> (\<exists>k \<in> index_keys ref_fields t ix obj. key \<le> k \<and>
        (\<forall>obj' \<in> ref_rows m t. \<forall>k' \<in> index_keys ref_fields t ix obj'. key \<le> k' \<longrightarrow> k \<le> k'))"
  proof (cases ?E)
    case Nil
    then show ?thesis using ref_entries_set [of _ _ i key "m t"] by (auto simp: keys ref_rows_def not_le)
  next
    case (Cons e es)
    obtain k obj where e: "e = (k, obj)" by (cases e)
    have "(k, obj) \<in> set ?E" by (simp add: Cons e)
    then have "obj \<in> set (m t)" "k \<in> set (keys_of i obj)" "key \<le> k" by (simp_all add: ref_entries_set)
    moreover have "\<forall>obj' \<in> set (m t). \<forall>k' \<in> set (keys_of i obj'). key \<le> k' \<longrightarrow> k \<le> k'"
      using ref_entries_least [OF Cons [unfolded e]] by (simp add: ref_entries_set)
    ultimately show ?thesis by (auto simp: Cons e keys ref_rows_def)
  qed
  then show "\<exists>os. mem_LowerBound (ref_lib files code) m t (ix @ ''_prefix'') args = Ok os \<and>
      (case os of
         [] \<Rightarrow> \<forall>obj \<in> ref_rows m t. \<forall>k \<in> index_keys (lib_Fields (ref_lib files code)) t ix obj. k < key
       | obj # _ \<Rightarrow> obj \<in> ref_rows m t \<and> (\<exists>k \<in> index_keys (lib_Fields (ref_lib files code)) t ix obj. key \<le> k \<and>
           (\<forall>obj' \<in> ref_rows m t. \<forall>k' \<in> index_keys (lib_Fields (ref_lib files code)) t ix obj'. key \<le> k' \<longrightarrow> k \<le> k')))"
    unfolding ref_lib_Fields using res by (intro exI [of _ "map snd ?E"] conjI)
qed

lemma ref_bolt_laws: "bolt_laws (ref_lib files code) ref_contents"
proof -
  have each: "map_of (map (\<lambda>k. (k, the (map_of xs k))) (remdups (map fst xs))) = map_of xs" for xs :: "(bytes \<times> bytes) list"
  proof
    fix k
    show "map_of (map (\<lambda>k. (k, the (map_of xs k))) (remdups (map fst xs))) k = map_of xs k"
      using map_of_eq_None_iff [of xs k] by (cases "map_of xs k") (auto simp: map_of_map_restrict restrict_map_def)
  qed
  show ?thesis
    by (auto simp: bolt_laws_def ref_lib_def ref_upd each comp_def ref_contents_def [of _ "b" for b])
qed

lemma ref_codec_laws:
  assumes "distinct (map fst code)"
  shows "codec_laws (ref_lib files code)"
proof -
  have dec: "map_of code enc = Some obj" if "find (\<lambda>p. snd p = obj) code = Some (enc, obj')" for obj obj' enc
  proof -
    have "\<exists>k < length code. (enc, obj') = code ! k \<and> snd (code ! k) = obj"
      using that by (auto simp: find_Some_iff)
    then have "(enc, obj) \<in> set code" by (metis nth_mem snd_conv)
    then show ?thesis using assms by simp
  qed
  show ?thesis
    by (auto simp: codec_laws_def ref_lib_def dest: dec split: option.splits)
qed

lemmas ref_laws = ref_field_laws ref_insert_law ref_query_law ref_prefix_law

lemma ref_memdb_laws: "memdb_laws (ref_lib files code) ref_rows"
  by (simp add: memdb_laws_def ref_laws)

section \<open>A run of the instance\<close>

definition demo_val :: Validator where
  "demo_val = \<lparr>v_PubKey = ''aa'', v_PrivKey = ''01'', v_Metadata = Some \<lparr>vm_Index = 7, vm_ActivationEpoch = 3\<rparr>\<rparr>"

definition demo_code :: "(bytes \<times> raw) list" where
  "demo_code = [([1], DutyObj (demo_block 7 5 [9])), ([2], DutyObj (demo_vote 7 10 15)), ([3], ValidatorObj demo_val)]"

definition demo_s0 :: "(ref_mem, ref_bolt) State" where
  "demo_s0 = \<lparr>s_db = \<lambda>_. [], s_memdb = \<lambda>_. []\<rparr>"

definition demo_s1 :: "(ref_mem, ref_bolt) State" where
  "demo_s1 = \<lparr>s_db = (\<lambda>_. [])(dutiesBucket := [(bytes_of_string ''v'', [2]), (bytes_of_string (format_uint 5), [1])]),
     s_memdb = (\<lambda>_. [])(dutiesTable := [DutyObj (demo_block 7 5 [9]), DutyObj (demo_vote 7 10 15)])\<rparr>"

definition demo_s2 :: "(ref_mem, ref_bolt) State" where
  "demo_s2 = \<lparr>s_db = (s_db demo_s1)(validatorsBucket := [(bytes_of_string ''aa'', [3])]),
     s_memdb = (s_memdb demo_s1)(validatorsTable := [ValidatorObj demo_val])\<rparr>"

text \<open>The file \<open>db\<close> holds what \<open>demo_s1\<close> has committed; any other file is new.\<close>

abbreviation demo_lib :: "(ref_mem, ref_bolt) StateLib" where
  "demo_lib \<equiv> ref_lib (\<lambda>path. if path = ''db'' then s_db demo_s1 else (\<lambda>_. [])) demo_code"

lemma demo_objects [simp]:
  "demo_block v s r \<noteq> demo_vote w a b" "demo_vote w a b \<noteq> demo_block v s r"
  "d_Id (demo_block v s r) = format_uint s" "d_Id (demo_vote w a b) = ''v''"
  "norm_duty (demo_block v s r) = demo_block v s r" "norm_duty (demo_vote w a b) = demo_vote w a b"
  by (simp_all add: demo_block_def demo_vote_def proto_NewDuty_def norm_duty_def)

lemma demo_insertable:
  "format_uint s \<noteq> [] \<Longrightarrow> insertable ref_fields dutiesTable (DutyObj (demo_block v s r))"
  "insertable ref_fields dutiesTable (DutyObj (demo_vote w a b))"
  "insertable ref_fields validatorsTable (ValidatorObj demo_val)"
  by (simp_all add: insertable_def schema_def index_ok_def ref_fields_def ref_string_index_def IndexJob_def IndexJob_FromObject_def
      slashingBlockIndex_def slashingBlock_FromObject_def slashingAttestIndex_def slashingAttest_FromObject_def addCheckpoint_def
      demo_block_def demo_vote_def Duty_Type_def duty_type_defs dutiesTable_def validatorsTable_def ref_set_index_def
      activeValidatorIndex_def activeValidator_FromObject_def demo_val_def ref_uint_index_def)

lemma demo_5: "format_uint 5 = ''5''"
  by (simp add: format_uint_def dec_digits.simps digit_char_def)

lemma demo_open: "NewState demo_lib ''new'' = Ok demo_s0"
  by (simp add: NewState_def ref_lib_def reIndex_def indexObject_def demo_s0_def)

lemma demo_upsert: "UpsertDuties demo_lib demo_s0 [demo_block 7 5 [9], demo_vote 7 10 15] = (demo_s1, Ok ())"
  by (simp add: UpsertDuties_def upsert_duty_def dbPut_def update_both_def ref_lib_def demo_insertable demo_5 demo_s0_def demo_s1_def demo_code_def)

lemma demo_register: "UpsertValidator demo_lib demo_s1 [demo_val] = (demo_s2, Ok ())"
  by (simp add: UpsertValidator_def upsert_validator_def dbPut_def update_both_def ref_lib_def demo_insertable demo_s2_def demo_code_def)
    (simp add: demo_s1_def demo_val_def)

lemma demo_laws: "memdb_laws demo_lib ref_rows" "bolt_laws demo_lib ref_contents" "codec_laws demo_lib"
  by (simp_all add: ref_memdb_laws ref_bolt_laws ref_codec_laws demo_code_def)

lemma demo_runs: "state_run demo_lib ref_contents demo_s0" "state_run demo_lib ref_contents demo_s1" "state_run demo_lib ref_contents demo_s2"
proof -
  have "bolt_Open demo_lib ''new'' = Ok (\<lambda>_. [])" by (simp add: ref_lib_def)
  then show 0: "state_run demo_lib ref_contents demo_s0"
    using state_run.fresh [OF _ _ demo_open] by (simp add: ref_contents_def)
  show 1: "state_run demo_lib ref_contents demo_s1"
    using state_run.duties [OF 0, of "[demo_block 7 5 [9], demo_vote 7 10 15]"] by (simp add: demo_upsert)
  show "state_run demo_lib ref_contents demo_s2"
    using state_run.validators [OF 1, of "[demo_val]"] by (simp add: demo_register)
qed

end
