(* ===== verification/DutyStore.thy ===== *)
theory DutyStore
  imports Proto
begin

text \<open>
  The interface through which the server uses its state: duties are put in batches and read back by id,
  validators are registered next to them.  The locales state what the state promises of these
  operations, and the server's lemmas about stored duties rest on them; StateStore interprets them on
  \<open>UpsertDuties\<close>, \<open>DutyByID\<close> and \<open>UpsertValidator\<close>.
\<close>

text \<open>The last duty with an id in a list.\<close>

fun latest :: "string \<Rightarrow> Duty list \<Rightarrow> Duty option" where
  "latest i [] = None"
| "latest i (d # ds) = (case latest i ds of Some e \<Rightarrow> Some e | None \<Rightarrow> if d_Id d = i then Some d else None)"

lemma latest_id: "latest i ds = Some d \<Longrightarrow> d_Id d = i"
  by (induction ds) (auto split: option.splits if_splits)

lemma latest_None: "i \<notin> d_Id ` set ds \<Longrightarrow> latest i ds = None"
  by (induction ds) auto

locale duty_store =
  fixes inv :: "'s \<Rightarrow> bool"
    and put :: "'s \<Rightarrow> Duty list \<Rightarrow> 's \<times> unit outcome"
    and get :: "'s \<Rightarrow> string \<Rightarrow> Duty option outcome"
  assumes put_inv: "inv s \<Longrightarrow> put s ds = (s', r) \<Longrightarrow> inv s'"
    and get_put: "inv s \<Longrightarrow> put s ds = (s', Ok ()) \<Longrightarrow>
      get s' i = (case latest i ds of Some d \<Rightarrow> Ok (Some d) | None \<Rightarrow> get s i)"
    and put_failed: "inv s \<Longrightarrow> put s ds = (s', r) \<Longrightarrow> r \<noteq> Ok () \<Longrightarrow> s' = s"
begin

lemma get_put_one: "inv s \<Longrightarrow> put s [d] = (s', Ok ()) \<Longrightarrow> get s' i = (if i = d_Id d then Ok (Some d) else get s i)"
  by (simp add: get_put)

lemma get_kept:
  assumes "inv s" "put s ds = (s', r)" "i \<notin> d_Id ` set ds"
  shows "get s' i = get s i"
  using get_put [OF assms(1)] put_failed [OF assms(1,2)] assms(2) latest_None [OF assms(3)] by (cases "r = Ok ()") simp_all

end

text \<open>Registering validators does not touch the duties.\<close>

locale server_store = duty_store inv put get
  for inv :: "'s \<Rightarrow> bool" and put :: "'s \<Rightarrow> Duty list \<Rightarrow> 's \<times> unit outcome" and get :: "'s \<Rightarrow> string \<Rightarrow> Duty option outcome" +
  fixes register :: "'s \<Rightarrow> Validator list \<Rightarrow> 's \<times> unit outcome"
  assumes register_inv: "inv s \<Longrightarrow> register s vs = (s', r) \<Longrightarrow> inv s'"
    and get_register: "inv s \<Longrightarrow> register s vs = (s', r) \<Longrightarrow> get s' i = get s i"
begin

lemma get_put_register:
  assumes "inv s" "put s ds = (s1, Ok ())" "register s1 vs = (s2, r)"
  shows "get s2 i = (case latest i ds of Some d \<Rightarrow> Ok (Some d) | None \<Rightarrow> get s i)"
  using get_put [OF assms(1,2)] get_register [OF put_inv [OF assms(1,2)] assms(3)] by simp

end

end
