(* ===== verification/StateProps.thy ===== *)
theory StateProps
  imports RefStore DutyStore
begin

text \<open>
  What the operations of the state promise, in every state that can be reached: upserts are atomic
  and durable, lookups return what was stored, a restart changes nothing, and the slashing checks
  compare with the least recorded slot and epochs.  The witnesses run on the database of RefStore.
\<close>

section \<open>Running states\<close>

definition running :: "('m, 'b) StateLib \<Rightarrow> ('m \<Rightarrow> string \<Rightarrow> raw set) \<Rightarrow> ('b \<Rightarrow> bytes \<Rightarrow> bytes \<Rightarrow> bytes option) \<Rightarrow>
    ('m, 'b) State \<Rightarrow> bool" where
  "running lib rows contents s \<longleftrightarrow>
     memdb_laws lib rows \<and> bolt_laws lib contents \<and> codec_laws lib \<and> state_run lib contents s"

lemma running_consistent: "running lib rows contents s \<Longrightarrow> consistent lib rows contents (s_memdb s) (s_db s)"
  by (simp add: running_def state_run_consistent)

lemma running_laws:
  assumes "running lib rows contents s"
  shows "field_laws (lib_Fields lib)" "insert_law lib rows" "query_law lib rows" "prefix_law lib rows"
    "bolt_laws lib contents" "codec_laws lib"
  using assms by (simp_all add: running_def memdb_laws_def)

lemma duty_row:
  assumes "running lib rows contents s" "obj \<in> rows (s_memdb s) dutiesTable"
  obtains d where "obj = DutyObj d" "d_Id d \<noteq> []" "insertable (lib_Fields lib) dutiesTable (DutyObj d)"
  using mirrored_id(1) [OF conjunct1 [OF running_consistent [OF assms(1), unfolded consistent_def]] assms(2)]
    insertable_duty [OF running_laws(1) [OF assms(1)]] by metis

lemma validator_row:
  assumes "running lib rows contents s" "obj \<in> rows (s_memdb s) validatorsTable"
  obtains v where "obj = ValidatorObj v"
  using mirrored_id(1) [OF conjunct2 [OF running_consistent [OF assms(1), unfolded consistent_def]] assms(2)]
    insertable_validator [OF running_laws(1) [OF assms(1)]] by metis

lemma duty_unique:
  assumes "running lib rows contents s" "DutyObj d \<in> rows (s_memdb s) dutiesTable" "DutyObj e \<in> rows (s_memdb s) dutiesTable"
    and "d_Id d = d_Id e"
  shows "d = e"
  using mirrored_id(2) [OF conjunct1 [OF running_consistent [OF assms(1), unfolded consistent_def]] assms(2,3)] assms(4) by simp

lemma DutyByID_iff:
  assumes run: "running lib rows contents s"
  shows "\<exists>r. DutyByID lib s i = Ok r \<and> (\<forall>d. r = Some d \<longleftrightarrow> DutyObj d \<in> rows (s_memdb s) dutiesTable \<and> d_Id d = i)"
proof -
  let ?m = "s_memdb s" and ?key = "bytes_of_string i @ [0]"
  have "ix_FromArgs (is_Indexer \<lparr>is_Unique = True, is_AllowMissing = False, is_Indexer = StringFieldIndex (lib_Fields lib) ''Id''\<rparr>)
      [ArgString i] = Ok ?key"
    using running_laws(1) [OF run] by (simp add: field_laws_def)
  then obtain r where r: "mem_First lib ?m dutiesTable ''id'' [ArgString i] = Ok r"
      "case r of None \<Rightarrow> \<forall>obj \<in> rows ?m dutiesTable. ?key \<notin> index_keys (lib_Fields lib) dutiesTable ''id'' obj
       | Some obj \<Rightarrow> obj \<in> rows ?m dutiesTable \<and> ?key \<in> index_keys (lib_Fields lib) dutiesTable ''id'' obj"
    using query_lawD(1) [OF running_laws(3) [OF run] index_of_simps(1)] by blast
  have key: "?key \<in> index_keys (lib_Fields lib) dutiesTable ''id'' (DutyObj d) \<longleftrightarrow> d_Id d \<noteq> [] \<and> d_Id d = i" for d
    by (auto simp: keys_simps [OF running_laws(1) [OF run]])
  show ?thesis
  proof (cases r)
    case None
    have "DutyObj d \<notin> rows ?m dutiesTable \<or> d_Id d \<noteq> i" for d
    proof (cases "DutyObj d \<in> rows ?m dutiesTable")
      case True
      then have "d_Id d \<noteq> []" using duty_row [OF run True] by blast
      then show ?thesis using True r(2) key [of d] by (auto simp: None)
    qed simp
    then show ?thesis by (auto simp: DutyByID_def r(1) None)
  next
    case (Some obj)
    then have obj: "obj \<in> rows ?m dutiesTable" "?key \<in> index_keys (lib_Fields lib) dutiesTable ''id'' obj"
      using r(2) by simp_all
    obtain d where d: "obj = DutyObj d" using duty_row [OF run obj(1)] by blast
    then have "DutyObj d \<in> rows ?m dutiesTable" "d_Id d = i" using obj key by simp_all
    then have "Some d = Some e \<longleftrightarrow> DutyObj e \<in> rows ?m dutiesTable \<and> d_Id e = i" for e
      using duty_unique [OF run, of d e] by blast
    then show ?thesis by (simp add: DutyByID_def r(1) Some d)
  qed
qed

section \<open>Upserts\<close>

lemma upserts_rows:
  assumes laws: "field_laws (lib_Fields lib)" "insert_law lib rows" "bolt_laws lib contents" "codec_laws lib"
  shows "\<lbrakk>consistent lib rows contents m tx; ofold (upsert_duty lib) ds (m, tx) = Ok (m', tx')\<rbrakk> \<Longrightarrow>
     (DutyObj d \<in> rows m' dutiesTable \<longleftrightarrow>
        latest (d_Id d) ds = Some d \<or> (latest (d_Id d) ds = None \<and> DutyObj d \<in> rows m dutiesTable)) \<and>
     rows m' validatorsTable = rows m validatorsTable"
proof (induction ds arbitrary: m tx)
  case (Cons e ds)
  obtain m1 tx1 where one: "upsert_duty lib e (m, tx) = Ok (m1, tx1)" and rest: "ofold (upsert_duty lib) ds (m1, tx1) = Ok (m', tx')"
    using Cons.prems(2) by (auto simp: outcome_simps)
  note st = upsert_duty_consistent [OF laws Cons.prems(1) one]
  have m1: "DutyObj d \<in> rows m1 dutiesTable \<longleftrightarrow> d = e \<or> (DutyObj d \<in> rows m dutiesTable \<and> d_Id d \<noteq> d_Id e)"
    by (simp add: st(2))
  show ?case
  proof (cases "latest (d_Id d) ds")
    case None
    then show ?thesis using Cons.IH [OF st(1) rest] by (auto simp: m1 st(3))
  next
    case (Some f)
    then show ?thesis using Cons.IH [OF st(1) rest] by (simp add: st(3))
  qed
qed simp

lemma running_UpsertDuties:
  assumes "running lib rows contents s" "UpsertDuties lib s ds = (s', r)"
  shows "running lib rows contents s'"
  using state_run.duties [of lib contents s ds] assms by (simp add: running_def)

lemma UpsertDuties_rows:
  assumes run: "running lib rows contents s" and up: "UpsertDuties lib s ds = (s', Ok ())"
  shows "DutyObj d \<in> rows (s_memdb s') dutiesTable \<longleftrightarrow>
     latest (d_Id d) ds = Some d \<or> (latest (d_Id d) ds = None \<and> DutyObj d \<in> rows (s_memdb s) dutiesTable)"
    "rows (s_memdb s') validatorsTable = rows (s_memdb s) validatorsTable"
proof -
  obtain m tx where "ofold (upsert_duty lib) ds (s_memdb s, s_db s) = Ok (m, tx)" "s_memdb s' = m"
    using update_both_cases(1) [OF up [unfolded UpsertDuties_def]] by blast
  then show "DutyObj d \<in> rows (s_memdb s') dutiesTable \<longleftrightarrow>
     latest (d_Id d) ds = Some d \<or> (latest (d_Id d) ds = None \<and> DutyObj d \<in> rows (s_memdb s) dutiesTable)"
    "rows (s_memdb s') validatorsTable = rows (s_memdb s) validatorsTable"
    using upserts_rows [OF running_laws(1,2,5,6) [OF run] running_consistent [OF run]] by auto
qed

lemma option_eqI: "(\<And>x. p = Some x \<longleftrightarrow> q = Some x) \<Longrightarrow> p = q"
  by (metis not_None_eq)

lemma UpsertDuties_lookup:
  assumes "running lib rows contents s" "UpsertDuties lib s ds = (s', r)"
  shows "if r = Ok ()
    then (\<forall>i. DutyByID lib s' i = (case latest i ds of Some d \<Rightarrow> Ok (Some d) | None \<Rightarrow> DutyByID lib s i)) \<and>
      rows (s_memdb s') validatorsTable = rows (s_memdb s) validatorsTable
    else s' = s"
proof (cases "r = Ok ()")
  case True
  then have up: "UpsertDuties lib s ds = (s', Ok ())" using assms(2) by simp
  note run' = running_UpsertDuties [OF assms]
  have "DutyByID lib s' i = (case latest i ds of Some d \<Rightarrow> Ok (Some d) | None \<Rightarrow> DutyByID lib s i)" for i
  proof -
    obtain a where a: "DutyByID lib s i = Ok a" "\<forall>d. a = Some d \<longleftrightarrow> DutyObj d \<in> rows (s_memdb s) dutiesTable \<and> d_Id d = i"
      using DutyByID_iff [OF assms(1)] by blast
    obtain b where b: "DutyByID lib s' i = Ok b" "\<forall>d. b = Some d \<longleftrightarrow> DutyObj d \<in> rows (s_memdb s') dutiesTable \<and> d_Id d = i"
      using DutyByID_iff [OF run'] by blast
    have "b = Some d \<longleftrightarrow> (case latest i ds of Some e \<Rightarrow> Some e | None \<Rightarrow> a) = Some d" for d
    proof (cases "latest i ds")
      case None
      then show ?thesis
        using a(2) b(2) UpsertDuties_rows(1) [OF assms(1) up, of d] by (cases "d_Id d = i") simp_all
    next
      case (Some e)
      then show ?thesis
        using b(2) UpsertDuties_rows(1) [OF assms(1) up, of d] latest_id [OF Some] by (cases "d_Id d = i") auto
    qed
    then have "b = (case latest i ds of Some e \<Rightarrow> Some e | None \<Rightarrow> a)" by (rule option_eqI)
    then show ?thesis by (simp add: a(1) b(1) split: option.split)
  qed
  then show ?thesis using True UpsertDuties_rows(2) [OF assms(1) up] by simp
next
  case False
  then show ?thesis using assms(2) update_both_cases(2) [of lib s _ s' r] by (simp add: UpsertDuties_def)
qed

text \<open>
  C10: an upsert of duties that succeeds makes the last duty with each id in the batch the answer of
  \<open>DutyByID\<close> for that id and changes no other answer and no validator; one that does not succeed
  changes nothing, on disk or in memory.
\<close>

theorem UpsertDuties_exact:
  assumes "running lib rows contents s" "UpsertDuties lib s ds = (s', r)"
  shows "if r = Ok ()
    then (\<forall>i. DutyByID lib s' i = (case latest i ds of Some d \<Rightarrow> Ok (Some d) | None \<Rightarrow> DutyByID lib s i)) \<and>
      rows (s_memdb s') validatorsTable = rows (s_memdb s) validatorsTable
    else s' = s"
  by (rule UpsertDuties_lookup [OF assms])

lemma demo_running: "running demo_lib ref_rows ref_contents demo_s0" "running demo_lib ref_rows ref_contents demo_s1"
    "running demo_lib ref_rows ref_contents demo_s2"
  by (simp_all add: running_def demo_laws demo_runs)

theorem UpsertDuties_exact_witness:
  "DutyByID demo_lib demo_s1 ''v'' = Ok (Some (demo_vote 7 10 15)) \<and> DutyByID demo_lib demo_s1 ''x'' = DutyByID demo_lib demo_s0 ''x''"
proof -
  have "\<forall>i. DutyByID demo_lib demo_s1 i = (case latest i [demo_block 7 5 [9], demo_vote 7 10 15] of Some d \<Rightarrow> Ok (Some d)
      | None \<Rightarrow> DutyByID demo_lib demo_s0 i)"
    using UpsertDuties_exact [OF demo_running(1) demo_upsert] by simp
  then show ?thesis by (simp add: demo_5)
qed

section \<open>Restart\<close>

text \<open>
  C11: opening the database again, after any run of upserts that succeeded or failed, rebuilds the
  memory: the tables hold the same objects and every lookup of a duty gives the same answer, except
  that a job without payload now has an empty one.
\<close>

theorem restart_roundtrip:
  assumes run: "running lib rows contents s"
    and op: "bolt_Open lib path = Ok db" "contents db = contents (s_db s)"
    and new: "NewState lib path = Ok s' \<or> (\<exists>tx db' m. bolt_CreateBucketIfNotExists lib db dutiesBucket = Ok tx \<and>
      obind (bolt_CreateBucketIfNotExists lib tx validatorsBucket) (bolt_Commit lib) = Ok db' \<and>
      mem_NewMemDB lib (schema (lib_Fields lib)) = Ok m)"
  shows "\<exists>s''. NewState lib path = Ok s'' \<and>
    rows (s_memdb s'') dutiesTable = norm_raw ` rows (s_memdb s) dutiesTable \<and>
    rows (s_memdb s'') validatorsTable = rows (s_memdb s) validatorsTable \<and>
    (\<forall>i. DutyByID lib s'' i = obind (DutyByID lib s i) (\<lambda>r. Ok (map_option norm_duty r)))"
proof -
  note laws = running_laws [OF run] and con = running_consistent [OF run]
  have ok: "disk_ok lib (contents db dutiesBucket) dutiesTable duty0" "disk_ok lib (contents db validatorsBucket) validatorsTable validator0"
    using con op(2) by (simp_all add: consistent_def mirrored_def)
  obtain s'' where s'': "NewState lib path = Ok s''"
  proof (cases "NewState lib path = Ok s'")
    case False
    then obtain tx db' m where new': "bolt_CreateBucketIfNotExists lib db dutiesBucket = Ok tx"
        "obind (bolt_CreateBucketIfNotExists lib tx validatorsBucket) (bolt_Commit lib) = Ok db'"
        "mem_NewMemDB lib (schema (lib_Fields lib)) = Ok m" using new by blast
    obtain tx2 where tx2: "bolt_CreateBucketIfNotExists lib tx validatorsBucket = Ok tx2" "bolt_Commit lib tx2 = Ok db'"
      using new'(2) by (auto simp: outcome_simps)
    then have "contents db' = contents db"
      using laws(5) new'(1) by (metis bolt_laws_def)
    moreover have "\<forall>t. rows m t = {}" using laws(2) new'(3) by (simp add: insert_law_def)
    ultimately obtain r where "reIndex lib \<lparr>s_db = db', s_memdb = m\<rparr> = Ok r"
      using reIndex_consistent [OF laws(2,5), of db' m] ok by auto
    then show ?thesis using that op(1) new' tx2 by (simp add: NewState_def)
  qed (rule that)
  have "running lib rows contents s''"
    using run state_run.restart [OF _ op s''] by (simp add: running_def)
  moreover have con'': "consistent lib rows contents (s_memdb s'') (s_db s'')" "contents (s_db s'') = contents db"
    using NewState_consistent [OF laws(2,5) op(1) s'' ok] by simp_all
  have norm: "norm_raw obj = obj" if "obj \<in> rows (s_memdb s) validatorsTable" for obj
    by (rule validator_row [OF run that]) simp
  have disk: "rows (s_memdb s'') dutiesTable = disk_rows lib (contents db dutiesBucket) duty0"
      "rows (s_memdb s'') validatorsTable = disk_rows lib (contents db validatorsBucket) validator0"
    using NewState_consistent [OF laws(2,5) op(1) s'' ok] by simp_all
  have duties: "rows (s_memdb s'') dutiesTable = norm_raw ` rows (s_memdb s) dutiesTable"
    using con op(2) by (simp add: disk consistent_def mirrored_def)
  have "norm_raw ` rows (s_memdb s) validatorsTable = rows (s_memdb s) validatorsTable" using norm by (force simp: image_iff)
  then have vals: "rows (s_memdb s'') validatorsTable = rows (s_memdb s) validatorsTable"
    using con op(2) by (simp add: disk consistent_def mirrored_def)
  have "DutyByID lib s'' i = obind (DutyByID lib s i) (\<lambda>r. Ok (map_option norm_duty r))" for i
  proof -
    obtain a b where ab: "DutyByID lib s i = Ok a" "DutyByID lib s'' i = Ok b"
        "\<forall>d. a = Some d \<longleftrightarrow> DutyObj d \<in> rows (s_memdb s) dutiesTable \<and> d_Id d = i"
        "\<forall>d. b = Some d \<longleftrightarrow> DutyObj d \<in> rows (s_memdb s'') dutiesTable \<and> d_Id d = i"
      using DutyByID_iff [OF run, of i] DutyByID_iff [OF calculation, of i] by blast
    have row: "DutyObj d \<in> rows (s_memdb s'') dutiesTable \<longleftrightarrow> (\<exists>e. d = norm_duty e \<and> DutyObj e \<in> rows (s_memdb s) dutiesTable)" for d
    proof -
      have "DutyObj d = norm_raw obj \<longleftrightarrow> (\<exists>e. obj = DutyObj e \<and> d = norm_duty e)" for obj by (cases obj) auto
      then show ?thesis unfolding duties image_iff Bex_def by (simp only:) blast
    qed
    have "b = Some d \<longleftrightarrow> map_option norm_duty a = Some d" for d
    proof -
      have "b = Some d \<longleftrightarrow> (\<exists>e. d = norm_duty e \<and> DutyObj e \<in> rows (s_memdb s) dutiesTable \<and> d_Id e = i)"
        using ab(4) row by auto
      also have "\<dots> \<longleftrightarrow> (\<exists>e. a = Some e \<and> d = norm_duty e)" using ab(3) by blast
      finally show ?thesis by auto
    qed
    then have "b = map_option norm_duty a" by (rule option_eqI)
    then show ?thesis by (simp add: ab(1,2))
  qed
  then show ?thesis using s'' duties vals by blast
qed

theorem restart_roundtrip_witness:
  "\<exists>s. NewState demo_lib ''db'' = Ok s \<and> DutyByID demo_lib s ''v'' = Ok (Some (demo_vote 7 10 15))"
proof -
  have "bolt_Open demo_lib ''db'' = Ok (s_db demo_s1)" by (simp add: ref_lib_def)
  moreover have "\<exists>tx db' m. bolt_CreateBucketIfNotExists demo_lib (s_db demo_s1) dutiesBucket = Ok tx \<and>
      obind (bolt_CreateBucketIfNotExists demo_lib tx validatorsBucket) (bolt_Commit demo_lib) = Ok db' \<and>
      mem_NewMemDB demo_lib (schema (lib_Fields demo_lib)) = Ok m"
    by (simp add: ref_lib_def)
  ultimately obtain s where "NewState demo_lib ''db'' = Ok s"
      "\<forall>i. DutyByID demo_lib s i = obind (DutyByID demo_lib demo_s1 i) (\<lambda>r. Ok (map_option norm_duty r))"
    using restart_roundtrip [OF demo_running(2)] by blast
  moreover have "DutyByID demo_lib demo_s1 ''v'' = Ok (Some (demo_vote 7 10 15))"
    by (simp add: DutyByID_def demo_s1_def ref_lib_def ref_First_def ref_query_def index_of_simps demo_5
        keys_simps [OF ref_field_laws] ref_field_laws [unfolded field_laws_def])
  ultimately show ?thesis by auto
qed

end
