(* ===== verification/Grouping.thy ===== *)
theory Grouping
  imports Prelude "HOL-Library.AList"
begin

text \<open>
  Grouping a list by a key, as loops over a Go map do: look the group of the element up, start it if it
  is new, add the element and store the group again.  The map is an association list.  Reading the
  groups in the order of their keys gives the same list whatever order the map has.
\<close>

definition group_add :: "('a \<Rightarrow> 'k) \<Rightarrow> ('a \<Rightarrow> 'g) \<Rightarrow> ('a \<Rightarrow> 'g \<Rightarrow> 'g) \<Rightarrow> 'a \<Rightarrow> ('k \<times> 'g) list \<Rightarrow> ('k \<times> 'g) list" where
  "group_add key new add x m = AList.update (key x) (add x (case map_of m (key x) of Some g \<Rightarrow> g | None \<Rightarrow> new x)) m"

definition group_of :: "('a \<Rightarrow> 'k) \<Rightarrow> ('a \<Rightarrow> 'g) \<Rightarrow> ('a \<Rightarrow> 'g \<Rightarrow> 'g) \<Rightarrow> 'a list \<Rightarrow> 'k \<Rightarrow> 'g option" where
  "group_of key new add xs k =
     (case filter (\<lambda>x. key x = k) xs of [] \<Rightarrow> None | y # ys \<Rightarrow> Some (fold add (y # ys) (new y)))"

lemma group_of_snoc:
  "group_of key new add (xs @ [x]) k =
     (if key x = k then Some (add x (case group_of key new add xs k of Some g \<Rightarrow> g | None \<Rightarrow> new x))
      else group_of key new add xs k)"
  by (cases "filter (\<lambda>x. key x = k) xs") (simp_all add: group_of_def)

lemma group_fold:
  "distinct (map fst (fold (group_add key new add) xs [])) \<and>
   map_of (fold (group_add key new add) xs []) = group_of key new add xs"
proof (induction xs rule: rev_induct)
  case Nil
  show ?case by (simp add: group_of_def fun_eq_iff)
next
  case (snoc x xs)
  let ?m = "fold (group_add key new add) xs []"
  have "distinct (map fst (group_add key new add x ?m))"
    unfolding group_add_def [of _ _ _ x] by (rule distinct_update [OF conjunct1 [OF snoc]])
  moreover have "map_of (group_add key new add x ?m) k = group_of key new add (xs @ [x]) k" for k
    unfolding group_add_def [of _ _ _ x] update_conv group_of_snoc using snoc by (cases "key x = k") simp_all
  then have "map_of (group_add key new add x ?m) = group_of key new add (xs @ [x])" by (rule ext)
  ultimately show ?case by (simp only: fold_append fold_simps comp_def simp_thms)
qed

lemma group_of_None: "group_of key new add xs k = None \<longleftrightarrow> k \<notin> key ` set xs"
proof -
  have "group_of key new add xs k = None \<longleftrightarrow> filter (\<lambda>x. key x = k) xs = []"
    by (cases "filter (\<lambda>x. key x = k) xs") (simp_all add: group_of_def)
  then show ?thesis by (auto simp: filter_empty_conv)
qed

lemma groups_keys: "set (map fst (fold (group_add key new add) xs [])) = key ` set xs"
proof -
  have "k \<in> set (map fst (fold (group_add key new add) xs [])) \<longleftrightarrow> k \<in> key ` set xs" for k
    using group_of_None [of key new add xs k] group_fold [of key new add xs] map_of_eq_None_iff [of _ k] by (metis list.set_map)
  then show ?thesis by blast
qed

lemma groups_sorted:
  fixes key :: "'a \<Rightarrow> 'k :: linorder" and new :: "'a \<Rightarrow> 'g" and add xs
  defines "m \<equiv> fold (group_add key new add) xs []"
  shows "sort (map fst m) = sorted_list_of_set (key ` set xs)"
    "map (\<lambda>k. the (map_of m k)) (sort (map fst m)) = map (\<lambda>k. the (group_of key new add xs k)) (sorted_list_of_set (key ` set xs))"
proof -
  show "sort (map fst m) = sorted_list_of_set (key ` set xs)"
    unfolding m_def groups_keys [of key new add xs, symmetric]
    using group_fold [of key new add xs] by (intro sorted_distinct_set_unique) simp_all
  then show "map (\<lambda>k. the (map_of m k)) (sort (map fst m)) = map (\<lambda>k. the (group_of key new add xs k)) (sorted_list_of_set (key ` set xs))"
    using group_fold [of key new add xs] by (simp add: m_def)
qed

text \<open>Sorting the groups by the key they carry.\<close>

lemma groups_sort_key:
  fixes key :: "'a \<Rightarrow> 'k :: linorder" and new :: "'a \<Rightarrow> 'g" and add xs
  defines "m \<equiv> fold (group_add key new add) xs []"
  assumes "\<And>k g. group_of key new add xs k = Some g \<Longrightarrow> f g = k"
  shows "sort_key f (map snd m) = map (\<lambda>k. the (group_of key new add xs k)) (sorted_list_of_set (key ` set xs))"
proof -
  have g: "distinct (map fst m)" "map_of m = group_of key new add xs" using group_fold [of key new add xs] by (simp_all add: m_def)
  have key: "f g = k" if "(k, g) \<in> set m" for k g
    by (rule assms(2)) (use map_of_is_SomeI [OF g(1) that] g(2) in simp)
  then have fm: "map f (map snd m) = map fst m" by (induction m) auto
  let ?R = "map (\<lambda>k. the (map_of m k)) (sort (map fst m))"
  have look: "map_of m k = Some g" if "(k, g) \<in> set m" for k g
    using map_of_is_SomeI [OF g(1) that] .
  have fR: "map f ?R = sort (map fst m)"
    unfolding map_map comp_def by (rule map_idI) (use look key in \<open>fastforce\<close>)
  have setR: "set ?R = set (map snd m)"
    using look by (force simp: image_iff)
  have fS: "map f (sort_key f (map snd m)) = sort (map fst m)"
  proof (rule properties_for_sort [symmetric])
    show "mset (map f (sort_key f (map snd m))) = mset (map fst m)"
      unfolding fm [symmetric] by (simp del: map_map)
  qed simp
  have "sort_key f (map snd m) = ?R"
  proof (rule map_inj_on [OF trans [OF fS fR [symmetric]]])
    have "inj_on f (set (map snd m))"
      using look key by (auto simp: inj_on_def) (metis option.inject)
    then show "inj_on f (set (sort_key f (map snd m)) \<union> set ?R)" unfolding setR by simp
  qed
  then show ?thesis using groups_sorted(2) [of key new add xs] by (simp add: m_def)
qed

section \<open>The interface of such a loop\<close>

text \<open>
  A loop that groups by a key: the groups carry the key of their elements, a new one from the start and
  one that grows from before.  Sorting the groups by that key, or reading the map in the order of its
  keys, then gives the same list.
\<close>

locale keyed_grouping =
  fixes key :: "'a \<Rightarrow> 'k :: linorder"
    and new :: "'a \<Rightarrow> 'g"
    and add :: "'a \<Rightarrow> 'g \<Rightarrow> 'g"
    and gkey :: "'g \<Rightarrow> 'k"
  assumes new_key: "gkey (new x) = key x"
    and add_key: "gkey (add x g) = gkey g"
begin

lemma fold_key: "gkey (fold add xs g) = gkey g"
  by (induction xs arbitrary: g) (simp_all add: add_key)

lemma group_key: "group_of key new add xs k = Some g \<Longrightarrow> gkey g = k"
  by (cases "filter (\<lambda>x. key x = k) xs") (auto simp: group_of_def fold_key add_key new_key dest: filter_eq_ConsD)

lemma read_in_order:
  "map (\<lambda>k. the (map_of (fold (group_add key new add) xs []) k)) (sort (map fst (fold (group_add key new add) xs []))) =
   map (\<lambda>k. the (group_of key new add xs k)) (sorted_list_of_set (key ` set xs))"
  by (rule groups_sorted(2))

lemma sorted_groups:
  "sort_key gkey (map snd (fold (group_add key new add) xs [])) =
   map (\<lambda>k. the (group_of key new add xs k)) (sorted_list_of_set (key ` set xs))"
  by (rule groups_sort_key) (rule group_key)

lemma same_list:
  "sort_key gkey (map snd (fold (group_add key new add) xs [])) =
   map (\<lambda>k. the (map_of (fold (group_add key new add) xs []) k)) (sort (map fst (fold (group_add key new add) xs [])))"
  by (simp only: sorted_groups read_in_order)

end

end
