(* ===== verification/Subscriptions.thy ===== *)
theory Subscriptions
  imports StateProps Beacon Grouping
begin

text \<open>
  The two services that subscribe to committees, \<open>internal/server/sync_committee_subscription.go\<close> and
  \<open>sync_beacon_committee_subscription.go\<close>.  Each is a loop: list the duties, send the subscriptions
  they ask for, and wait for the duties to change.  A turn is a function of the state it sees, to the
  subscriptions it sent, if any.  What is shown: they are those that a comprehension over the stored
  duties describes.
\<close>

section \<open>The services\<close>

record ('m, 'b) SubscriptionService =
  svc_state :: "('m, 'b) State"
  svc_api :: Api
  svc_open :: bool

definition NewSyncCommitteeSubscription :: "('m, 'b) State \<Rightarrow> Api \<Rightarrow> ('m, 'b) SubscriptionService" where
  "NewSyncCommitteeSubscription state api = \<lparr>svc_state = state, svc_api = api, svc_open = True\<rparr>"

definition NewSyncBeaconCommitteeSubscription :: "('m, 'b) State \<Rightarrow> Api \<Rightarrow> ('m, 'b) SubscriptionService" where
  "NewSyncBeaconCommitteeSubscription state api = \<lparr>svc_state = state, svc_api = api, svc_open = True\<rparr>"

text \<open>Closing a closed channel panics.\<close>

definition SyncCommitteeSubscription_Close :: "('m, 'b) SubscriptionService \<Rightarrow> ('m, 'b) SubscriptionService \<times> unit outcome" where
  "SyncCommitteeSubscription_Close s = (if svc_open s then (s\<lparr>svc_open := False\<rparr>, Ok ()) else (s, Panic ''close of closed channel''))"

definition SyncBeaconCommitteeSubscription_Close :: "('m, 'b) SubscriptionService \<Rightarrow> ('m, 'b) SubscriptionService \<times> unit outcome" where
  "SyncBeaconCommitteeSubscription_Close s = (if svc_open s then (s\<lparr>svc_open := False\<rparr>, Ok ()) else (s, Panic ''close of closed channel''))"

text \<open>The duties of the iterator, with its type assertions; an error of the query panics.\<close>

definition listed_duties :: "('m, 'b) StateLib \<Rightarrow> ('m, 'b) State \<Rightarrow> Duty list outcome" where
  "listed_duties lib state =
     (case DutiesList lib state of Err e \<Rightarrow> Panic ''duties list'' | Panic p \<Rightarrow> Panic p | Ok objs \<Rightarrow> omap as_duty objs)"

section \<open>Sync committees\<close>

definition addSub :: "Duty \<Rightarrow> (uint64 \<times> SyncCommitteeSubscription) list \<Rightarrow> (uint64 \<times> SyncCommitteeSubscription) list outcome" where
  "addSub duty subsByValidator =
     obind (Duty_Type duty) (\<lambda>t.
     if t \<noteq> DutySyncCommitteeAggregate then Ok subsByValidator
     else let syncCommitteeDuty = Duty_GetSyncCommitteeAggregate (Some duty);
              sub = (case map_of subsByValidator (d_ValidatorIndex duty) of
                       Some sub \<Rightarrow> sub
                     | None \<Rightarrow> \<lparr>scs_ValidatorIndex = d_ValidatorIndex duty, scs_SyncCommitteeIndices = [], scs_UntilEpoch = d_Epoch duty + 1\<rparr>)
          in Ok (AList.update (d_ValidatorIndex duty)
               (sub\<lparr>scs_SyncCommitteeIndices := scs_SyncCommitteeIndices sub @
                  [Duty_SyncCommitteeAggregate_GetSubCommitteeIndex syncCommitteeDuty]\<rparr>) subsByValidator))"

definition sync_turn :: "('m, 'b) StateLib \<Rightarrow> ('m, 'b) SubscriptionService \<Rightarrow> SyncCommitteeSubscription list option outcome" where
  "sync_turn lib s =
     obind (listed_duties lib (svc_state s)) (\<lambda>duties.
     obind (ofold addSub duties []) (\<lambda>subsByValidator.
     let subs = sort_key scs_ValidatorIndex (map snd subsByValidator) in
     if length subs \<noteq> 0
     then (case api_SyncCommitteeSubscriptions (svc_api s) subs of Panic p \<Rightarrow> Panic p | _ \<Rightarrow> Ok (Some subs))
     else Ok None))"

text \<open>\<open>Run\<close>: what it sends while the state goes through \<open>states\<close>, until it is closed.\<close>

definition SyncCommitteeSubscription_Run :: "('m, 'b) StateLib \<Rightarrow> ('m, 'b) SubscriptionService \<Rightarrow> ('m, 'b) State list \<Rightarrow>
    SyncCommitteeSubscription list option list outcome" where
  "SyncCommitteeSubscription_Run lib s states = omap (\<lambda>st. sync_turn lib (s\<lparr>svc_state := st\<rparr>)) states"

section \<open>Beacon committees\<close>

definition addBeaconSub :: "Duty \<Rightarrow> BeaconCommitteeSubscription list \<Rightarrow> BeaconCommitteeSubscription list outcome" where
  "addBeaconSub duty subs =
     obind (Duty_Type duty) (\<lambda>t.
     if t \<noteq> DutyAttestation then Ok subs
     else obind (deref (Duty_GetAttestation (Some duty))) (\<lambda>attestation.
       Ok (subs @ [\<lparr>bcs_ValidatorIndex = d_ValidatorIndex duty, bcs_Slot = d_Slot duty,
         bcs_CommitteeIndex = att_CommitteeIndex attestation, bcs_CommitteesAtSlot = att_CommitteesAtSlot attestation\<rparr>])))"

definition beacon_turn :: "('m, 'b) StateLib \<Rightarrow> ('m, 'b) SubscriptionService \<Rightarrow> BeaconCommitteeSubscription list option outcome" where
  "beacon_turn lib s =
     obind (listed_duties lib (svc_state s)) (\<lambda>duties.
     obind (ofold addBeaconSub duties []) (\<lambda>subs.
     if length subs \<noteq> 0
     then (case api_BeaconCommitteeSubscriptions (svc_api s) subs of Panic p \<Rightarrow> Panic p | _ \<Rightarrow> Ok (Some subs))
     else Ok None))"

definition SyncBeaconCommitteeSubscription_Run :: "('m, 'b) StateLib \<Rightarrow> ('m, 'b) SubscriptionService \<Rightarrow> ('m, 'b) State list \<Rightarrow>
    BeaconCommitteeSubscription list option list outcome" where
  "SyncBeaconCommitteeSubscription_Run lib s states = omap (\<lambda>st. beacon_turn lib (s\<lparr>svc_state := st\<rparr>)) states"

section \<open>The duties that are stored\<close>

lemma as_duties:
  assumes "\<And>obj. obj \<in> set os \<Longrightarrow> \<exists>d. obj = DutyObj d"
  shows "\<exists>ds. omap as_duty os = Ok ds \<and> set os = DutyObj ` set ds"
  using assms
proof (induction os)
  case (Cons obj os)
  obtain d where d: "obj = DutyObj d" using Cons.prems [of obj] by auto
  obtain ds where "omap as_duty os = Ok ds" "set os = DutyObj ` set ds"
    using Cons.IH Cons.prems by (meson list.set_intros(2))
  then show ?case using d by (intro exI [of _ "d # ds"]) simp
qed simp

lemma stored_has_job:
  assumes "running lib rows contents s" "DutyObj d \<in> rows (s_memdb s) dutiesTable"
  shows "d_Job d \<noteq> None"
proof -
  obtain e where "DutyObj d = DutyObj e" "insertable (lib_Fields lib) dutiesTable (DutyObj e)"
    using duty_row [OF assms] by metis
  then have "insertable (lib_Fields lib) dutiesTable (DutyObj d)" by simp
  then show ?thesis
    by (cases "d_Job d") (simp_all add: insertable_def schema_def dutiesTable_def index_ok_def IndexJob_def IndexJob_FromObject_def)
qed

lemma listed_duties_rows:
  assumes "running lib rows contents s"
  shows "\<exists>ds objs. DutiesList lib s = Ok objs \<and> omap as_duty objs = Ok ds \<and> listed_duties lib s = Ok ds \<and>
    (\<forall>d. d \<in> set ds \<longleftrightarrow> DutyObj d \<in> rows (s_memdb s) dutiesTable) \<and> (\<forall>d \<in> set ds. d_Job d \<noteq> None)"
proof -
  obtain objs where objs: "DutiesList lib s = Ok objs" "set objs = rows (s_memdb s) dutiesTable"
    using running_laws(3) [OF assms] unfolding query_law_def DutiesList_def by blast
  obtain ds where ds: "omap as_duty objs = Ok ds" "set objs = DutyObj ` set ds"
    using as_duties [of objs] duty_row [OF assms] objs(2) by metis
  have "d \<in> set ds \<longleftrightarrow> DutyObj d \<in> rows (s_memdb s) dutiesTable" for d
    unfolding objs(2) [symmetric] ds(2) by blast
  then show ?thesis
    using objs(1) ds(1) stored_has_job [OF assms] by (intro exI [of _ ds] exI [of _ objs]) (simp add: listed_duties_def)
qed

section \<open>What is subscribed to\<close>

abbreviation is_sync_aggregate :: "Duty \<Rightarrow> bool" where
  "is_sync_aggregate d \<equiv> Duty_Type d = Ok DutySyncCommitteeAggregate"

abbreviation sub_committee :: "Duty \<Rightarrow> uint64" where
  "sub_committee d \<equiv> Duty_SyncCommitteeAggregate_GetSubCommitteeIndex (Duty_GetSyncCommitteeAggregate (Some d))"

text \<open>
  One subscription for each validator with a duty, in the order of the validators: a sub-committee for
  each of its duties, until the epoch after that of the first of them.
\<close>

definition sync_subs :: "Duty list \<Rightarrow> SyncCommitteeSubscription list" where
  "sync_subs ds = map (\<lambda>v. let own = [d \<leftarrow> ds. is_sync_aggregate d \<and> d_ValidatorIndex d = v] in
       \<lparr>scs_ValidatorIndex = v, scs_SyncCommitteeIndices = map sub_committee own, scs_UntilEpoch = d_Epoch (hd own) + 1\<rparr>)
     (sorted_list_of_set (d_ValidatorIndex ` {d \<in> set ds. is_sync_aggregate d}))"

definition beacon_subs :: "Duty list \<Rightarrow> BeaconCommitteeSubscription list" where
  "beacon_subs ds = map (\<lambda>d. let a = the (Duty_GetAttestation (Some d)) in
       \<lparr>bcs_ValidatorIndex = d_ValidatorIndex d, bcs_Slot = d_Slot d, bcs_CommitteeIndex = att_CommitteeIndex a,
        bcs_CommitteesAtSlot = att_CommitteesAtSlot a\<rparr>) [d \<leftarrow> ds. Duty_Type d = Ok DutyAttestation]"

definition new_sub :: "Duty \<Rightarrow> SyncCommitteeSubscription" where
  "new_sub d = \<lparr>scs_ValidatorIndex = d_ValidatorIndex d, scs_SyncCommitteeIndices = [], scs_UntilEpoch = d_Epoch d + 1\<rparr>"

definition add_sub :: "Duty \<Rightarrow> SyncCommitteeSubscription \<Rightarrow> SyncCommitteeSubscription" where
  "add_sub d sub = sub\<lparr>scs_SyncCommitteeIndices := scs_SyncCommitteeIndices sub @ [sub_committee d]\<rparr>"

interpretation subs: keyed_grouping d_ValidatorIndex new_sub add_sub scs_ValidatorIndex
  by unfold_locales (simp_all add: new_sub_def add_sub_def)

lemma addSub_group:
  assumes "d_Job d \<noteq> None"
  shows "addSub d m = Ok (if is_sync_aggregate d then group_add d_ValidatorIndex new_sub add_sub d m else m)"
proof -
  obtain t where "Duty_Type d = Ok t" using assms Duty_Type_Ok_iff by blast
  then show ?thesis unfolding addSub_def group_add_def new_sub_def add_sub_def Let_def by simp
qed

lemma addSub_fold:
  "\<forall>d \<in> set ds. d_Job d \<noteq> None \<Longrightarrow>
    ofold addSub ds m = Ok (fold (group_add d_ValidatorIndex new_sub add_sub) [d \<leftarrow> ds. is_sync_aggregate d] m)"
  by (induction ds arbitrary: m) (simp_all add: addSub_group)

lemma add_sub_fold:
  "fold add_sub xs sub = sub\<lparr>scs_SyncCommitteeIndices := scs_SyncCommitteeIndices sub @ map sub_committee xs\<rparr>"
  by (induction xs arbitrary: sub) (simp_all add: add_sub_def)

lemma sync_group:
  "group_of d_ValidatorIndex new_sub add_sub xs v =
    (let own = [d \<leftarrow> xs. d_ValidatorIndex d = v] in
     if own = [] then None
     else Some \<lparr>scs_ValidatorIndex = v, scs_SyncCommitteeIndices = map sub_committee own, scs_UntilEpoch = d_Epoch (hd own) + 1\<rparr>)"
proof (cases "[d \<leftarrow> xs. d_ValidatorIndex d = v]")
  case (Cons y ys)
  then have "d_ValidatorIndex y = v" by (metis (mono_tags) filter_eq_ConsD)
  then show ?thesis unfolding group_of_def Cons add_sub_fold by (simp add: new_sub_def)
qed (simp add: group_of_def)

lemma sync_subs_group:
  "sort_key scs_ValidatorIndex (map snd (fold (group_add d_ValidatorIndex new_sub add_sub) [d \<leftarrow> ds. is_sync_aggregate d] [])) = sync_subs ds"
proof -
  let ?xs = "[d \<leftarrow> ds. is_sync_aggregate d]"
  have keys: "d_ValidatorIndex ` set ?xs = d_ValidatorIndex ` {d \<in> set ds. is_sync_aggregate d}" by simp
  have own: "the (group_of d_ValidatorIndex new_sub add_sub ?xs v) =
      (let own = [d \<leftarrow> ds. is_sync_aggregate d \<and> d_ValidatorIndex d = v] in
       \<lparr>scs_ValidatorIndex = v, scs_SyncCommitteeIndices = map sub_committee own, scs_UntilEpoch = d_Epoch (hd own) + 1\<rparr>)"
    if "v \<in> d_ValidatorIndex ` {d \<in> set ds. is_sync_aggregate d}" for v
  proof -
    have "[d \<leftarrow> ?xs. d_ValidatorIndex d = v] \<noteq> []" using that by (auto simp: filter_empty_conv)
    then show ?thesis by (simp add: sync_group Let_def)
  qed
  have fin: "finite (d_ValidatorIndex ` {d \<in> set ds. is_sync_aggregate d})" by simp
  show ?thesis
    unfolding subs.sorted_groups keys sync_subs_def by (rule map_cong [OF refl], simp only: own set_sorted_list_of_set [OF fin])
qed

lemma beacon_fold:
  assumes "\<forall>d \<in> set ds. d_Job d \<noteq> None" "\<forall>d \<in> set ds. Duty_Type d = Ok DutyAttestation \<longrightarrow> Duty_GetAttestation (Some d) \<noteq> None"
  shows "ofold addBeaconSub ds us = Ok (us @ beacon_subs ds)"
  using assms
proof (induction ds arbitrary: us)
  case (Cons d ds)
  obtain t where "Duty_Type d = Ok t" using Cons.prems(1) Duty_Type_Ok_iff [of d] by auto
  then show ?case
    using Cons by (cases "t = DutyAttestation") (auto simp: addBeaconSub_def beacon_subs_def Let_def)
qed (simp add: beacon_subs_def)

text \<open>
  C26: a turn of the services on a running state sends what the stored duties ask for, and nothing if
  they ask for nothing: for sync committees one subscription for each validator, in order, and for beacon
  committees one for each attestation.
\<close>

theorem subscriptions_exact:
  assumes "running lib rows contents (svc_state s)"
    and "\<forall>subs p. api_SyncCommitteeSubscriptions (svc_api s) subs \<noteq> Panic p" "\<forall>subs p. api_BeaconCommitteeSubscriptions (svc_api s) subs \<noteq> Panic p"
    and "\<forall>d. DutyObj d \<in> rows (s_memdb (svc_state s)) dutiesTable \<and> Duty_Type d = Ok DutyAttestation \<longrightarrow> Duty_GetAttestation (Some d) \<noteq> None"
  shows "\<exists>ds. (\<forall>d. d \<in> set ds \<longleftrightarrow> DutyObj d \<in> rows (s_memdb (svc_state s)) dutiesTable) \<and>
    sync_turn lib s = Ok (if sync_subs ds = [] then None else Some (sync_subs ds)) \<and>
    beacon_turn lib s = Ok (if beacon_subs ds = [] then None else Some (beacon_subs ds))"
proof -
  obtain ds where ds: "listed_duties lib (svc_state s) = Ok ds"
      "\<forall>d. d \<in> set ds \<longleftrightarrow> DutyObj d \<in> rows (s_memdb (svc_state s)) dutiesTable" "\<forall>d \<in> set ds. d_Job d \<noteq> None"
    using listed_duties_rows [OF assms(1)] by metis
  have votes: "\<forall>d \<in> set ds. Duty_Type d = Ok DutyAttestation \<longrightarrow> Duty_GetAttestation (Some d) \<noteq> None"
    using assms(4) ds(2) by metis
  have sent: "(case api_SyncCommitteeSubscriptions (svc_api s) subs of Panic p \<Rightarrow> Panic p | _ \<Rightarrow> Ok x) = Ok x"
    "(case api_BeaconCommitteeSubscriptions (svc_api s) bsubs of Panic p \<Rightarrow> Panic p | _ \<Rightarrow> Ok y) = Ok y" for subs x bsubs y
    using assms(2,3) by (simp_all split: outcome.split)
  have "sync_turn lib s = Ok (if sync_subs ds = [] then None else Some (sync_subs ds))"
    unfolding sync_turn_def ds(1) obind.simps addSub_fold [OF ds(3)] Let_def sync_subs_group sent by simp
  moreover have "beacon_turn lib s = Ok (if beacon_subs ds = [] then None else Some (beacon_subs ds))"
    unfolding beacon_turn_def ds(1) obind.simps beacon_fold [OF ds(3) votes] Let_def sent by simp
  ultimately show ?thesis using ds(2) by blast
qed

definition demo_service :: "(ref_mem, ref_bolt) SubscriptionService" where
  "demo_service = NewSyncBeaconCommitteeSubscription demo_s1
     (NullAPI\<lparr>api_SyncCommitteeSubscriptions := \<lambda>_. Ok (), api_BeaconCommitteeSubscriptions := \<lambda>_. Ok ()\<rparr>)"

theorem subscriptions_exact_witness:
  "sync_turn demo_lib demo_service = Ok None \<and>
   (\<exists>subs. beacon_turn demo_lib demo_service = Ok (Some subs) \<and>
      set subs = {\<lparr>bcs_ValidatorIndex = 7, bcs_Slot = 0, bcs_CommitteeIndex = 3, bcs_CommitteesAtSlot = 4\<rparr>})"
proof -
  let ?b = "demo_block 7 5 [9]" and ?v = "demo_vote 7 10 15"
  have st: "svc_state demo_service = demo_s1" by (simp add: demo_service_def NewSyncBeaconCommitteeSubscription_def)
  have rows: "DutyObj d \<in> ref_rows (s_memdb (svc_state demo_service)) dutiesTable \<longleftrightarrow> d = ?b \<or> d = ?v" for d
    by (simp add: st ref_rows_def demo_s1_def)
  have kinds: "Duty_Type ?b = Ok DutyBlockProposal" "Duty_Type ?v = Ok DutyAttestation"
    by (simp_all add: demo_block_def demo_vote_def Duty_Type_def)
  have run: "running demo_lib ref_rows ref_contents (svc_state demo_service)" unfolding st by (rule demo_running)
  have apis: "\<forall>subs p. api_SyncCommitteeSubscriptions (svc_api demo_service) subs \<noteq> Panic p"
    "\<forall>subs p. api_BeaconCommitteeSubscriptions (svc_api demo_service) subs \<noteq> Panic p"
    by (simp_all add: demo_service_def NewSyncBeaconCommitteeSubscription_def)
  have job: "Duty_GetAttestation (Some ?v) = Some \<lparr>att_CommitteeIndex = 3, att_CommitteeLength = 5, att_CommitteesAtSlot = 4\<rparr>"
    by (simp add: demo_vote_def Duty_GetAttestation_def Duty_GetJob_def)
  have "\<forall>d. DutyObj d \<in> ref_rows (s_memdb (svc_state demo_service)) dutiesTable \<and> Duty_Type d = Ok DutyAttestation \<longrightarrow>
      Duty_GetAttestation (Some d) \<noteq> None"
    unfolding rows using job kinds(1) by (auto simp: duty_type_defs)
  then obtain ds where ds: "\<forall>d. d \<in> set ds \<longleftrightarrow> d = ?b \<or> d = ?v"
      "sync_turn demo_lib demo_service = Ok (if sync_subs ds = [] then None else Some (sync_subs ds))"
      "beacon_turn demo_lib demo_service = Ok (if beacon_subs ds = [] then None else Some (beacon_subs ds))"
    using subscriptions_exact [OF run apis] unfolding rows by blast
  have set: "set ds = {?b, ?v}" using ds(1) by auto
  have "{d \<in> set ds. is_sync_aggregate d} = {}" using kinds by (auto simp: set duty_type_defs)
  then have "sync_subs ds = []" unfolding sync_subs_def by simp
  moreover have "{d \<in> set ds. Duty_Type d = Ok DutyAttestation} = {?v}" using kinds by (auto simp: set duty_type_defs)
  then have "set (beacon_subs ds) = {\<lparr>bcs_ValidatorIndex = 7, bcs_Slot = 0, bcs_CommitteeIndex = 3, bcs_CommitteesAtSlot = 4\<rparr>}"
    unfolding beacon_subs_def set_map set_filter by (simp add: job) (simp add: demo_vote_def proto_NewDuty_def)
  moreover from this have "beacon_subs ds \<noteq> []" by auto
  ultimately show ?thesis using ds(2,3) by simp
qed

end
