(* ===== verification/Service.thy ===== *)
theory Service
  imports Server Subscriptions
begin

text \<open>
  The gRPC service of \<open>internal/server/service.go\<close>.  The transport is left out: a call is a function of
  the server and the request.
\<close>

definition service_GetGenesis :: "('m, 'b) Server \<Rightarrow> Genesis outcome" where
  "service_GetGenesis v = Ok \<lparr>g_Root = gi_Root (srv_genesis v)\<rparr>"

text \<open>The id of the request is signed; a negative one asks for the duties of every validator.\<close>

definition wanted_duty :: "ListDutiesRequest \<Rightarrow> Duty \<Rightarrow> bool" where
  "wanted_duty req elem \<longleftrightarrow> \<not> (0 \<le> sint (ldr_ValidatorId req) \<and> d_ValidatorIndex elem \<noteq> ldr_ValidatorId req)"

definition service_ListDuties :: "('m, 'b, 'key) ServerLib \<Rightarrow> ('m, 'b) Server \<Rightarrow> ListDutiesRequest \<Rightarrow> ListDutiesResponse outcome" where
  "service_ListDuties lib v req =
     obind (DutiesList (lib_State lib) (srv_state v)) (\<lambda>objs.
     obind (omap as_duty objs) (\<lambda>elems.
     Ok \<lparr>ldr_Duties = filter (wanted_duty req) elems\<rparr>))"

definition service_ValidatorList :: "('m, 'b, 'key) ServerLib \<Rightarrow> ('m, 'b) Server \<Rightarrow> ValidatorListResponse outcome" where
  "service_ValidatorList lib v =
     obind (ValidatorsList (lib_State lib) (srv_state v)) (\<lambda>objs.
     obind (omap as_validator objs) (\<lambda>elems. Ok \<lparr>vlr_Validators = elems\<rparr>))"

lemma ListDuties_rows:
  assumes "running (lib_State lib) rows contents (srv_state v)"
  shows "\<exists>ds. service_ListDuties lib v req = Ok \<lparr>ldr_Duties = ds\<rparr> \<and> (\<forall>d \<in> set ds. d_Job d \<noteq> None) \<and>
    (\<forall>d. d \<in> set ds \<longleftrightarrow> DutyObj d \<in> rows (s_memdb (srv_state v)) dutiesTable \<and> wanted_duty req d)"
proof -
  obtain ds objs where ds: "DutiesList (lib_State lib) (srv_state v) = Ok objs" "omap as_duty objs = Ok ds"
      "\<forall>d. d \<in> set ds \<longleftrightarrow> DutyObj d \<in> rows (s_memdb (srv_state v)) dutiesTable" "\<forall>d \<in> set ds. d_Job d \<noteq> None"
    using listed_duties_rows [OF assms] by metis
  have "service_ListDuties lib v req = Ok \<lparr>ldr_Duties = filter (wanted_duty req) ds\<rparr>"
    by (simp add: service_ListDuties_def ds(1,2))
  then show ?thesis using ds(3,4) by (intro exI [of _ "filter (wanted_duty req) ds"]) simp
qed

section \<open>The interceptor\<close>

text \<open>Every call goes through \<open>loggingServerInterceptor\<close>, which logs it and passes the result on.\<close>

definition loggingServerInterceptor :: "'req \<Rightarrow> ('req \<Rightarrow> 'resp outcome) \<Rightarrow> 'resp outcome" where
  "loggingServerInterceptor req handler = handler req"

end
