(* ===== verification/Slashing.thy ===== *)
theory Slashing
  imports Proto Grouping "HOL-Library.List_Lexorder"
begin

text \<open>
  The slashing export of \<open>internal/slashing/format.go\<close>: block and attestation duties grouped by the
  public key of their account, as JSON.  What is shown: the export is the one a comprehension over the
  duties describes, whatever the order in which Go ranges over its map; and when it panics.
\<close>

section \<open>\<open>encoding/json\<close>\<close>

text \<open>
  What the code marshals: numbers, strings, slices, structs (fields in their order) and maps (keys
  sorted).  Strings are quoted byte by byte, as the library does for ASCII; \<open><\<close>, \<open>>\<close> and \<open>&\<close> are
  escaped like the control characters.
\<close>

datatype json = JNum uint64 | JStr string | JList "json list" | JObj "(string \<times> json) list"

definition json_char :: "char \<Rightarrow> string" where
  "json_char c =
     (let b = of_char c :: nat in
      if b = 34 \<or> b = 92 then [CHR 92, c]
      else if b = 10 then [CHR 92, CHR ''n'']
      else if b = 13 then [CHR 92, CHR ''r'']
      else if b = 9 then [CHR 92, CHR ''t'']
      else if b < 32 \<or> b = 60 \<or> b = 62 \<or> b = 38 then CHR 92 # ''u00'' @ hex_byte (of_nat b)
      else [c])"

definition json_quote :: "string \<Rightarrow> string" where
  "json_quote s = [CHR 34] @ concat (map json_char s) @ [CHR 34]"

fun json_Marshal :: "json \<Rightarrow> string" where
  "json_Marshal (JNum n) = format_uint n"
| "json_Marshal (JStr s) = json_quote s"
| "json_Marshal (JList xs) = ''['' @ join_with '','' (map json_Marshal xs) @ '']''"
| "json_Marshal (JObj kvs) = ''{'' @ join_with '','' (map (\<lambda>p. json_quote (fst p) @ '':'' @ json_Marshal (snd p)) kvs) @ ''}''"

text \<open>A \<open>map[string]interface{}\<close>.\<close>

definition json_map :: "(string \<times> json) list \<Rightarrow> json" where
  "json_map kvs = JObj (sort_key fst kvs)"

section \<open>The export\<close>

definition signedBlock_MarshalJSON :: "Duty \<Rightarrow> json outcome" where
  "signedBlock_MarshalJSON s =
     obind (deref (d_Result s)) (\<lambda>r. obind (deref (res_BlockProposal r)) (\<lambda>b.
     Ok (json_map [(''slot'', JNum (d_Slot s)), (''signing_root'', JStr (''0x'' @ EncodeToString (bpr_Root b)))])))"

definition signedAttestation_MarshalJSON :: "Duty \<Rightarrow> json outcome" where
  "signedAttestation_MarshalJSON s =
     obind (deref (d_Result s)) (\<lambda>r. obind (deref (res_Attestation r)) (\<lambda>a.
     obind (deref (ar_Source a)) (\<lambda>src. obind (deref (ar_Target a)) (\<lambda>tgt.
     Ok (json_map [(''source_epoch'', JNum (cp_Epoch src)), (''target_epoch'', JNum (cp_Epoch tgt)),
       (''signing_root'', JStr (''0x'' @ EncodeToString (ar_Root a)))])))))"

record accountDuties =
  acd_PubKey :: string
  acd_SignedBlocks :: "Duty list"
  acd_SignedAttestation :: "Duty list"

definition accountDuties_json :: "accountDuties \<Rightarrow> json outcome" where
  "accountDuties_json w =
     obind (omap signedBlock_MarshalJSON (acd_SignedBlocks w)) (\<lambda>bs.
     obind (omap signedAttestation_MarshalJSON (acd_SignedAttestation w)) (\<lambda>as.
     Ok (JObj [(''pubkey'', JStr (acd_PubKey w)), (''signed_blocks'', JList bs), (''signed_attestations'', JList as)])))"

record slashing_Input =
  in_GenesisValidatorRoot :: bytes
  in_Duties :: "Duty list"

text \<open>One turn of the loop over the duties; the map of accounts is an association list.\<close>

definition addSigned :: "Duty \<Rightarrow> (string \<times> accountDuties) list \<Rightarrow> (string \<times> accountDuties) list outcome" where
  "addSigned duty dutiesByAccount =
     obind (Duty_Type duty) (\<lambda>t.
     if t \<noteq> DutyBlockProposal \<and> t \<noteq> DutyAttestation then Ok dutiesByAccount
     else let w = (case map_of dutiesByAccount (d_PubKey duty) of
                     Some w \<Rightarrow> w
                   | None \<Rightarrow> \<lparr>acd_PubKey = d_PubKey duty, acd_SignedBlocks = [], acd_SignedAttestation = []\<rparr>);
              w' = (if t = DutyBlockProposal then w\<lparr>acd_SignedBlocks := acd_SignedBlocks w @ [duty]\<rparr>
                    else w\<lparr>acd_SignedAttestation := acd_SignedAttestation w @ [duty]\<rparr>)
          in Ok (AList.update (d_PubKey duty) w' dutiesByAccount))"

definition sortedDuties :: "(string \<times> accountDuties) list \<Rightarrow> accountDuties list" where
  "sortedDuties dutiesByAccount = map (\<lambda>acct. the (map_of dutiesByAccount acct)) (sort (map fst dutiesByAccount))"

definition slashing_Format :: "slashing_Input \<Rightarrow> string outcome" where
  "slashing_Format input =
     obind (ofold addSigned (in_Duties input) []) (\<lambda>dutiesByAccount.
     obind (omap accountDuties_json (sortedDuties dutiesByAccount)) (\<lambda>data.
     Ok (json_Marshal (JObj [
       (''metadata'', JObj [(''interchange_format_version'', JStr ''5''),
          (''genesis_validators_root'', JStr (''0x'' @ EncodeToString (in_GenesisValidatorRoot input)))]),
       (''data'', JList data)]))))"

section \<open>What it exports\<close>

text \<open>The description: accounts in order, each with its blocks and attestations in the order given.\<close>

abbreviation is_block :: "Duty \<Rightarrow> bool" where
  "is_block d \<equiv> Duty_Type d = Ok DutyBlockProposal"

abbreviation is_vote :: "Duty \<Rightarrow> bool" where
  "is_vote d \<equiv> Duty_Type d = Ok DutyAttestation"

definition accounts :: "Duty list \<Rightarrow> string set" where
  "accounts ds = d_PubKey ` {d \<in> set ds. is_block d \<or> is_vote d}"

definition account_of :: "Duty list \<Rightarrow> string \<Rightarrow> accountDuties" where
  "account_of ds pk = \<lparr>acd_PubKey = pk, acd_SignedBlocks = [d \<leftarrow> ds. is_block d \<and> d_PubKey d = pk],
     acd_SignedAttestation = [d \<leftarrow> ds. is_vote d \<and> d_PubKey d = pk]\<rparr>"

definition block_json :: "Duty \<Rightarrow> json" where
  "block_json d = (let b = the (res_BlockProposal (the (d_Result d))) in
     JObj [(''signing_root'', JStr (''0x'' @ EncodeToString (bpr_Root b))), (''slot'', JNum (d_Slot d))])"

definition vote_json :: "Duty \<Rightarrow> json" where
  "vote_json d = (let a = the (res_Attestation (the (d_Result d))) in
     JObj [(''signing_root'', JStr (''0x'' @ EncodeToString (ar_Root a))), (''source_epoch'', JNum (cp_Epoch (the (ar_Source a)))),
       (''target_epoch'', JNum (cp_Epoch (the (ar_Target a))))])"

definition export_spec :: "bytes \<Rightarrow> Duty list \<Rightarrow> json" where
  "export_spec root ds = JObj [
     (''metadata'', JObj [(''interchange_format_version'', JStr ''5''), (''genesis_validators_root'', JStr (''0x'' @ EncodeToString root))]),
     (''data'', JList (map (\<lambda>pk. JObj [(''pubkey'', JStr pk),
        (''signed_blocks'', JList (map block_json [d \<leftarrow> ds. is_block d \<and> d_PubKey d = pk])),
        (''signed_attestations'', JList (map vote_json [d \<leftarrow> ds. is_vote d \<and> d_PubKey d = pk]))])
      (sorted_list_of_set (accounts ds))))]"

definition exported :: "Duty \<Rightarrow> bool" where
  "exported d \<longleftrightarrow> (is_block d \<longrightarrow> (\<exists>r b. d_Result d = Some r \<and> res_BlockProposal r = Some b)) \<and>
     (is_vote d \<longrightarrow> (\<exists>r a s t. d_Result d = Some r \<and> res_Attestation r = Some a \<and> ar_Source a = Some s \<and> ar_Target a = Some t))"

text \<open>The loop is a grouping by public key of the blocks and attestations.\<close>

definition new_account :: "Duty \<Rightarrow> accountDuties" where
  "new_account d = \<lparr>acd_PubKey = d_PubKey d, acd_SignedBlocks = [], acd_SignedAttestation = []\<rparr>"

definition add_signed :: "Duty \<Rightarrow> accountDuties \<Rightarrow> accountDuties" where
  "add_signed d w = (if is_block d then w\<lparr>acd_SignedBlocks := acd_SignedBlocks w @ [d]\<rparr>
     else w\<lparr>acd_SignedAttestation := acd_SignedAttestation w @ [d]\<rparr>)"

interpretation acct: keyed_grouping d_PubKey new_account add_signed acd_PubKey
  by unfold_locales (simp_all add: new_account_def add_signed_def)

abbreviation signed_of :: "Duty list \<Rightarrow> Duty list" where
  "signed_of ds \<equiv> [d \<leftarrow> ds. is_block d \<or> is_vote d]"

lemma addSigned_group:
  assumes "d_Job d \<noteq> None"
  shows "addSigned d m = Ok (if is_block d \<or> is_vote d then group_add d_PubKey new_account add_signed d m else m)"
proof -
  obtain t where "Duty_Type d = Ok t" using assms Duty_Type_Ok_iff by blast
  then show ?thesis
    unfolding addSigned_def group_add_def new_account_def add_signed_def Let_def by (simp add: duty_type_defs)
qed

lemma addSigned_fold:
  "\<forall>d \<in> set ds. d_Job d \<noteq> None \<Longrightarrow> ofold addSigned ds m = Ok (fold (group_add d_PubKey new_account add_signed) (signed_of ds) m)"
  by (induction ds arbitrary: m) (simp_all add: addSigned_group)

lemma add_signed_fold:
  "fold add_signed xs w = \<lparr>acd_PubKey = acd_PubKey w, acd_SignedBlocks = acd_SignedBlocks w @ [d \<leftarrow> xs. is_block d],
     acd_SignedAttestation = acd_SignedAttestation w @ [d \<leftarrow> xs. \<not> is_block d]\<rparr>"
  by (induction xs arbitrary: w) (simp_all add: add_signed_def)

lemma account_group:
  assumes "pk \<in> accounts ds"
  shows "group_of d_PubKey new_account add_signed (signed_of ds) pk = Some (account_of ds pk)"
proof -
  let ?xs = "[d \<leftarrow> signed_of ds. d_PubKey d = pk]"
  have "?xs \<noteq> []" using assms by (auto simp: accounts_def filter_empty_conv)
  then obtain y ys where xs: "?xs = y # ys" by (cases ?xs) auto
  then have "d_PubKey y = pk" by (metis (mono_tags) filter_eq_ConsD)
  moreover have "[d \<leftarrow> ?xs. is_block d] = [d \<leftarrow> ds. is_block d \<and> d_PubKey d = pk]"
    "[d \<leftarrow> ?xs. \<not> is_block d] = [d \<leftarrow> ds. is_vote d \<and> d_PubKey d = pk]"
    by (auto simp: duty_type_defs intro!: filter_cong)
  moreover have "group_of d_PubKey new_account add_signed (signed_of ds) pk = Some (fold add_signed ?xs (new_account y))"
    unfolding group_of_def xs by simp
  ultimately show ?thesis
    unfolding add_signed_fold account_of_def new_account_def by (simp only: accountDuties.select_convs append_Nil)
qed

lemma sortedDuties_accounts:
  "sortedDuties (fold (group_add d_PubKey new_account add_signed) (signed_of ds) []) =
    map (account_of ds) (sorted_list_of_set (accounts ds))"
proof -
  have keys: "d_PubKey ` set (signed_of ds) = accounts ds" by (simp add: accounts_def)
  have fin: "finite (accounts ds)" by (simp add: accounts_def)
  show ?thesis
    unfolding sortedDuties_def acct.read_in_order keys by (rule map_cong [OF refl]) (simp add: account_group fin)
qed

lemma MarshalJSON_total:
  "signedBlock_MarshalJSON d = (if \<exists>r b. d_Result d = Some r \<and> res_BlockProposal r = Some b
     then Ok (block_json d) else Panic ''nil dereference'')"
  "signedAttestation_MarshalJSON d = (if \<exists>r a s t. d_Result d = Some r \<and> res_Attestation r = Some a \<and> ar_Source a = Some s \<and> ar_Target a = Some t
     then Ok (vote_json d) else Panic ''nil dereference'')"
proof -
  show "signedBlock_MarshalJSON d = (if \<exists>r b. d_Result d = Some r \<and> res_BlockProposal r = Some b
     then Ok (block_json d) else Panic ''nil dereference'')"
    by (cases "d_Result d"; cases "res_BlockProposal (the (d_Result d))")
      (simp_all add: signedBlock_MarshalJSON_def block_json_def json_map_def)
  show "signedAttestation_MarshalJSON d = (if \<exists>r a s t. d_Result d = Some r \<and> res_Attestation r = Some a \<and> ar_Source a = Some s \<and> ar_Target a = Some t
     then Ok (vote_json d) else Panic ''nil dereference'')"
    by (cases "d_Result d"; cases "res_Attestation (the (d_Result d))"; cases "ar_Source (the (res_Attestation (the (d_Result d))))";
        cases "ar_Target (the (res_Attestation (the (d_Result d))))")
      (simp_all add: signedAttestation_MarshalJSON_def vote_json_def json_map_def)
qed

lemma omap_total:
  assumes "\<And>x. f x = (if P x then Ok (g x) else Panic p)"
  shows "omap f xs = (if \<forall>x \<in> set xs. P x then Ok (map g xs) else Panic p)"
  by (induction xs) (auto simp: assms)

definition account_json :: "accountDuties \<Rightarrow> json" where
  "account_json w = JObj [(''pubkey'', JStr (acd_PubKey w)), (''signed_blocks'', JList (map block_json (acd_SignedBlocks w))),
     (''signed_attestations'', JList (map vote_json (acd_SignedAttestation w)))]"

lemma accountDuties_total:
  "accountDuties_json (account_of ds pk) = (if \<forall>d \<in> set ds. d_PubKey d = pk \<longrightarrow> exported d
     then Ok (account_json (account_of ds pk)) else Panic ''nil dereference'')"
proof -
  let ?bs = "acd_SignedBlocks (account_of ds pk)" and ?as = "acd_SignedAttestation (account_of ds pk)"
  let ?B = "\<forall>d \<in> set ?bs. \<exists>r b. d_Result d = Some r \<and> res_BlockProposal r = Some b"
  let ?V = "\<forall>d \<in> set ?as. \<exists>r a s t. d_Result d = Some r \<and> res_Attestation r = Some a \<and> ar_Source a = Some s \<and> ar_Target a = Some t"
  have "(\<forall>d \<in> set ds. d_PubKey d = pk \<longrightarrow> exported d) \<longleftrightarrow> ?B \<and> ?V"
    unfolding exported_def account_of_def accountDuties.select_convs set_filter by blast
  moreover have "accountDuties_json (account_of ds pk) = (if ?B \<and> ?V then Ok (account_json (account_of ds pk)) else Panic ''nil dereference'')"
    unfolding accountDuties_json_def omap_total [OF MarshalJSON_total(1)] omap_total [OF MarshalJSON_total(2)]
    by (cases ?B; cases ?V) (simp_all add: account_json_def)
  ultimately show ?thesis by (simp only:)
qed

lemma Format_spec:
  assumes "\<forall>d \<in> set ds. d_Job d \<noteq> None"
  shows "slashing_Format \<lparr>in_GenesisValidatorRoot = root, in_Duties = ds\<rparr> =
    (if \<forall>d \<in> set ds. exported d then Ok (json_Marshal (export_spec root ds)) else Panic ''nil dereference'')"
proof -
  have total: "omap accountDuties_json (map (account_of ds) pks) =
      (if \<forall>pk \<in> set pks. \<forall>d \<in> set ds. d_PubKey d = pk \<longrightarrow> exported d
       then Ok (map (\<lambda>pk. account_json (account_of ds pk)) pks) else Panic ''nil dereference'')" for pks
    by (induction pks) (simp_all add: accountDuties_total)
  have fin: "set (sorted_list_of_set (accounts ds)) = accounts ds" by (simp add: accounts_def)
  have all: "(\<forall>pk \<in> accounts ds. \<forall>d \<in> set ds. d_PubKey d = pk \<longrightarrow> exported d) \<longleftrightarrow> (\<forall>d \<in> set ds. exported d)"
    unfolding accounts_def exported_def by blast
  show ?thesis
    unfolding slashing_Format_def slashing_Input.select_convs addSigned_fold [OF assms] obind.simps sortedDuties_accounts total fin all
    by (simp add: export_spec_def account_json_def account_of_def)
qed

text \<open>
  C24: the export of duties that have a job is the description, accounts in the order of their keys and
  each signed duty once under its own, when all its blocks and attestations are complete; with a block
  or an attestation that has no result yet it panics.
\<close>

theorem Format_exact:
  assumes "\<forall>d \<in> set ds. d_Job d \<noteq> None"
  shows "slashing_Format \<lparr>in_GenesisValidatorRoot = root, in_Duties = ds\<rparr> =
    (if \<forall>d \<in> set ds. exported d then Ok (json_Marshal (export_spec root ds)) else Panic ''nil dereference'')"
  by (rule Format_spec [OF assms])

definition eip_block :: Duty where
  "eip_block = proto_NewDuty\<lparr>d_PubKey := ''0xb8'', d_Slot := 81952, d_Job := Some (Job_BlockProposal None),
     d_Result := Some (empty_Result\<lparr>res_BlockProposal := Some \<lparr>bpr_Root = [0x4f, 0xf6], bpr_Signature = []\<rparr>\<rparr>)\<rparr>"

definition eip_vote :: Duty where
  "eip_vote = proto_NewDuty\<lparr>d_PubKey := ''0xb8'', d_Job := Some (Job_Attestation None),
     d_Result := Some (empty_Result\<lparr>res_Attestation := Some \<lparr>ar_Root = [0x58, 0x7d], ar_Source = Some \<lparr>cp_Root = [], cp_Epoch = 2290\<rparr>,
       ar_Target = Some \<lparr>cp_Root = [], cp_Epoch = 3007\<rparr>\<rparr>\<rparr>)\<rparr>"

text \<open>The input of the test of the repository, with shorter roots and key, gives the file of the test.\<close>

theorem Format_exact_witness:
  "slashing_Format \<lparr>in_GenesisValidatorRoot = [0x04, 0x70], in_Duties = [eip_block, eip_vote]\<rparr> = Ok
    (''{\"metadata\":{\"interchange_format_version\":\"5\",\"genesis_validators_root\":\"0x0470\"},\"data\":[{'' @
     ''\"pubkey\":\"0xb8\",\"signed_blocks\":[{\"signing_root\":\"0x4ff6\",\"slot\":81952}],'' @
     ''\"signed_attestations\":[{\"signing_root\":\"0x587d\",\"source_epoch\":2290,\"target_epoch\":3007}]}]}'') \<and>
   (\<exists>p. slashing_Format \<lparr>in_GenesisValidatorRoot = [], in_Duties = [eip_block\<lparr>d_Result := None\<rparr>]\<rparr> = Panic p)"
proof -
  have jobs: "\<forall>d \<in> set [eip_block, eip_vote]. d_Job d \<noteq> None" "\<forall>d \<in> set [eip_block\<lparr>d_Result := None\<rparr>]. d_Job d \<noteq> None"
    by (simp_all add: eip_block_def eip_vote_def)
  have typs: "Duty_Type eip_block = Ok DutyBlockProposal" "Duty_Type eip_vote = Ok DutyAttestation"
    "Duty_Type (eip_block\<lparr>d_Result := None\<rparr>) = Ok DutyBlockProposal" "d_PubKey eip_block = ''0xb8''" "d_PubKey eip_vote = ''0xb8''"
    by (simp_all add: eip_block_def eip_vote_def Duty_Type_def)
  have done1: "\<forall>d \<in> set [eip_block, eip_vote]. exported d"
    using typs(1,2) by (simp add: exported_def duty_type_defs) (simp add: eip_block_def eip_vote_def)
  have "{d \<in> set [eip_block, eip_vote]. is_block d \<or> is_vote d} = {eip_block, eip_vote}" using typs by auto
  then have acc: "accounts [eip_block, eip_vote] = {''0xb8''}" unfolding accounts_def by (simp add: typs)
  have votes: "\<not> is_vote eip_block" "\<not> is_block eip_vote" using typs by (simp_all add: duty_type_defs)
  let ?tree = "JObj [
     (''metadata'', JObj [(''interchange_format_version'', JStr ''5''), (''genesis_validators_root'', JStr ''0x0470'')]),
     (''data'', JList [JObj [(''pubkey'', JStr ''0xb8''),
        (''signed_blocks'', JList [JObj [(''signing_root'', JStr ''0x4ff6''), (''slot'', JNum 81952)]]),
        (''signed_attestations'', JList [JObj [(''signing_root'', JStr ''0x587d''), (''source_epoch'', JNum 2290), (''target_epoch'', JNum 3007)]])]])]"
  have tree: "export_spec [0x04, 0x70] [eip_block, eip_vote] = ?tree"
    using typs votes by (simp add: export_spec_def acc block_json_def vote_json_def)
      (simp add: eip_block_def eip_vote_def EncodeToString_def hex_byte_def hex_digit_def)
  have print: "json_Marshal ?tree =
    ''{\"metadata\":{\"interchange_format_version\":\"5\",\"genesis_validators_root\":\"0x0470\"},\"data\":[{'' @
    ''\"pubkey\":\"0xb8\",\"signed_blocks\":[{\"signing_root\":\"0x4ff6\",\"slot\":81952}],'' @
    ''\"signed_attestations\":[{\"signing_root\":\"0x587d\",\"source_epoch\":2290,\"target_epoch\":3007}]}]}''"
    by (simp add: json_quote_def json_char_def format_uint_def dec_digits.simps digit_char_def)
  have pending: "\<not> exported (eip_block\<lparr>d_Result := None\<rparr>)" using typs(3) by (simp add: exported_def)
  show ?thesis
    using Format_exact [OF jobs(1), of "[0x04, 0x70]"] Format_exact [OF jobs(2), of "[]"] done1 pending
    unfolding tree print by simp
qed

end
