(* ===== verification/QueueRuns.thy ===== *)
theory QueueRuns
  imports DutyQueue
begin

text \<open>
  Runs of the duty queue of \<open>internal/server/duty_queue.go\<close>: any interleaving of the critical
  sections of \<open>Enqueue\<close>, the timer branch of \<open>runDelayHeap\<close>, \<open>Dequeue\<close> and \<open>Ack\<close>.  A system state
  is the queue with two ghost components, the duties enqueued so far and the ids acknowledged so
  far.  What is shown: no duty is lost or held twice, a duty is handed out only after all it
  depends on is acknowledged, and a well planned set of duties is always completed.
\<close>

section \<open>Steps and reachable states\<close>

record 'c qsys =
  sys_q :: "'c DutyQueue"
  sys_log :: "Duty list"
  sys_acked :: "string set"

abbreviation log_ids :: "Duty list \<Rightarrow> string set" where
  "log_ids ds \<equiv> d_Id ` set ds"

definition init_sys :: "'c qsys" where
  "init_sys = \<lparr>sys_q = NewEvalQueue, sys_log = [], sys_acked = {}\<rparr>"

definition enqueue_sys :: "'c \<Rightarrow> Duty list \<Rightarrow> 'c qsys \<Rightarrow> 'c qsys" where
  "enqueue_sys ctx ds s = s\<lparr>sys_q := snd (Enqueue ctx ds (sys_q s)), sys_log := sys_log s @ ds\<rparr>"

definition ack_sys :: "string \<Rightarrow> 'c qsys \<Rightarrow> 'c qsys" where
  "ack_sys i s = s\<lparr>sys_q := snd (snd (Ack i (sys_q s))),
     sys_acked := (if q_unack (sys_q s) i = None then sys_acked s else insert i (sys_acked s))\<rparr>"

text \<open>
  The steps other than \<open>Enqueue\<close>.  The timer branch fires for a duty that the loop peeked, which
  is in the heap as the loop alone removes; \<open>Dequeue\<close> is a step when it does not wait.
\<close>

inductive drain :: "'c qsys \<Rightarrow> 'c qsys \<Rightarrow> bool" where
  drain_fire: "dh_abs (q_delayHeap (sys_q s)) (d_Id d) = Some (d, t) \<Longrightarrow>
    drain s (s\<lparr>sys_q := fire_delayed d (sys_q s)\<rparr>)"
| drain_dequeue: "Dequeue (sys_q s) = (Some r, q') \<Longrightarrow> drain s (s\<lparr>sys_q := q'\<rparr>)"
| drain_ack: "q_unack (sys_q s) i = Some d \<Longrightarrow> drain s (ack_sys i s)"

text \<open>The states reachable by enqueueing fresh duties, a batch at a time, each batch with \<open>ok\<close>.\<close>

inductive reach :: "(Duty list \<Rightarrow> bool) \<Rightarrow> 'c qsys \<Rightarrow> bool" for ok where
  reach_init: "reach ok init_sys"
| reach_enqueue: "reach ok s \<Longrightarrow> ok ds \<Longrightarrow> distinct (map d_Id ds) \<Longrightarrow> log_ids ds \<inter> log_ids (sys_log s) = {} \<Longrightarrow>
    reach ok (enqueue_sys ctx ds s)"
| reach_drain: "reach ok s \<Longrightarrow> drain s s' \<Longrightarrow> reach ok s'"
| reach_ack_unknown: "reach ok s \<Longrightarrow> q_unack (sys_q s) i = None \<Longrightarrow> reach ok (ack_sys i s)"

inductive_cases drain_cases: "drain s s'"

text \<open>The invariant of the runs.\<close>

definition sys_inv :: "'c qsys \<Rightarrow> bool" where
  "sys_inv s \<longleftrightarrow> queue_inv (sys_q s) \<and> deps_inv (sys_q s) (sys_acked s) \<and>
     sys_acked s \<inter> queue_ids (sys_q s) = {} \<and> log_ids (sys_log s) = queue_ids (sys_q s) \<union> sys_acked s \<and>
     distinct (map d_Id (sys_log s))"

lemma sys_invD:
  assumes "sys_inv s"
  shows "queue_inv (sys_q s)" "deps_inv (sys_q s) (sys_acked s)" "sys_acked s \<inter> queue_ids (sys_q s) = {}"
    "log_ids (sys_log s) = queue_ids (sys_q s) \<union> sys_acked s" "distinct (map d_Id (sys_log s))"
  using assms by (simp_all add: sys_inv_def)

lemma new_queue_heap:
  "dh_inv d_Id (q_delayHeap NewEvalQueue)" "dh_abs (q_delayHeap NewEvalQueue) = Map.empty"
  using dh_New [of "d_Id :: Duty \<Rightarrow> string"] by (simp_all add: NewEvalQueue_def)

lemma sys_inv_init: "sys_inv init_sys"
proof -
  have "queue_ids (NewEvalQueue :: 'a DutyQueue) = {}"
    by (simp add: queue_ids_def waiting_ids_def ready_ids_def new_queue_heap) (simp add: NewEvalQueue_def)
  moreover have "deps_inv (NewEvalQueue :: 'a DutyQueue) {}"
    by (simp add: deps_inv_def launched_def new_queue_heap) (simp add: NewEvalQueue_def)
  ultimately show ?thesis
    using NewEvalQueue_inv by (simp add: sys_inv_def init_sys_def)
qed

lemma fold_enqueue_inv:
  assumes "queue_inv q" "deps_inv q acked" "distinct (map d_Id ds)" "log_ids ds \<inter> queue_ids q = {}"
  shows "queue_inv (fold (enqueue_one ctx) ds q) \<and> deps_inv (fold (enqueue_one ctx) ds q) acked \<and>
    queue_ids (fold (enqueue_one ctx) ds q) = log_ids ds \<union> queue_ids q"
  using assms
proof (induction ds arbitrary: q)
  case (Cons d ds)
  have fresh: "d_Id d \<notin> queue_ids q" using Cons.prems(4) by simp
  note one = queue_inv_enqueue_one [OF Cons.prems(1) fresh] deps_inv_enqueue_one [OF Cons.prems(1,2) fresh]
  have "log_ids ds \<inter> queue_ids (enqueue_one ctx d q) = {}"
    using Cons.prems(3,4) by (auto simp: one(2))
  then show ?case
    using Cons.IH [of "enqueue_one ctx d q"] one Cons.prems(3) by auto
qed simp

lemma Enqueue_fold: "snd (Enqueue ctx ds q) = fold (enqueue_one ctx) ds q"
  by (simp add: Enqueue_def)

lemma sys_inv_enqueue:
  assumes inv: "sys_inv s" and ds: "distinct (map d_Id ds)" "log_ids ds \<inter> log_ids (sys_log s) = {}"
  shows "sys_inv (enqueue_sys ctx ds s)"
proof -
  note i = sys_invD [OF inv]
  have "log_ids ds \<inter> queue_ids (sys_q s) = {}" "log_ids ds \<inter> sys_acked s = {}"
    using ds(2) i(4) by auto
  then show ?thesis
    using fold_enqueue_inv [OF i(1,2) ds(1), of ctx] i(3-5) ds
    by (auto simp: sys_inv_def enqueue_sys_def Enqueue_fold)
qed

lemma deps_inv_cong:
  "deps_inv q acked \<Longrightarrow> (\<And>e. launched q' e \<Longrightarrow> launched q e) \<Longrightarrow> q_blocked q' = q_blocked q \<Longrightarrow>
    q_reverse q' = q_reverse q \<Longrightarrow> deps_inv q' acked"
  unfolding deps_inv_def by metis

lemma sys_inv_drain:
  assumes inv: "sys_inv s" and step: "drain s s'"
  shows "sys_inv s'"
  using step
proof cases
  case (drain_fire d t)
  note i = sys_invD [OF inv]
  have "deps_inv (fire_delayed d (sys_q s)) (sys_acked s)"
    by (rule deps_inv_cong [OF i(2)])
      (use launched_fire [OF queue_inv_heap [OF i(1)] drain_fire(2)] in \<open>blast, simp_all\<close>)
  then show ?thesis
    using queue_inv_fire [OF i(1) drain_fire(2)] i drain_fire(1) by (simp add: sys_inv_def)
next
  case (drain_dequeue r q')
  note i = sys_invD [OF inv]
  obtain d where d: "q_ready (sys_q s) = d # q_ready q'" "q_unack q' = (q_unack (sys_q s))(d_Id d \<mapsto> d)"
      "q_delayHeap q' = q_delayHeap (sys_q s)" "q_blocked q' = q_blocked (sys_q s)" "q_reverse q' = q_reverse (sys_q s)"
    using queue_inv_Dequeue(3) [OF i(1) drain_dequeue(2)] by blast
  have "deps_inv q' (sys_acked s)"
    by (rule deps_inv_cong [OF i(2)]) (use d in \<open>auto simp: launched_def split: if_splits\<close>)
  then show ?thesis
    using queue_inv_Dequeue(1,2) [OF i(1) drain_dequeue(2)] i drain_dequeue(1) by (simp add: sys_inv_def)
next
  case (drain_ack i d)
  note iv = sys_invD [OF inv]
  obtain err sig q' where ack: "Ack i (sys_q s) = (err, sig, q')" by (metis prod_cases3)
  have "i \<in> queue_ids (sys_q s)" using drain_ack(2) by (auto simp: queue_ids_def)
  then show ?thesis
    using Ack_step [OF iv(1-3) drain_ack(2) ack] iv(3-5) drain_ack by (auto simp: sys_inv_def ack_sys_def ack)
qed

lemma reach_inv: "reach ok s \<Longrightarrow> sys_inv s"
proof (induction rule: reach.induct)
  case (reach_ack_unknown s i)
  then show ?case by (simp add: ack_sys_def Ack_unknown)
qed (auto intro: sys_inv_init sys_inv_enqueue sys_inv_drain)

section \<open>Where an enqueued duty can be\<close>

text \<open>The place of an id: 4 blocked, 3 waiting for its time, 2 ready, 1 being handled, 0 none of them.\<close>

definition places :: "'c DutyQueue \<Rightarrow> string \<Rightarrow> nat list" where
  "places q i =
     (if i \<in> dom (q_blocked q) then [4] else []) @ (if i \<in> waiting_ids q then [3] else []) @
     (if i \<in> ready_ids q then [2] else []) @ (if i \<in> dom (q_unack q) then [1] else [])"

lemma apart_length:
  "apart A B C D \<Longrightarrow> length ((if i \<in> D then [4::nat] else []) @ (if i \<in> A then [3] else []) @
     (if i \<in> B then [2] else []) @ (if i \<in> C then [1] else [])) = (if i \<in> A \<union> B \<union> C \<union> D then 1 else 0)"
  unfolding apart_def by auto

lemma places_one: "queue_apart q \<Longrightarrow> length (places q i) = (if i \<in> queue_ids q then 1 else 0)"
  unfolding queue_apart_def places_def queue_ids_def by (rule apart_length)

section \<open>The queue hands out the duties it was given\<close>

definition held :: "'c DutyQueue \<Rightarrow> Duty \<Rightarrow> bool" where
  "held q d \<longleftrightarrow> launched q d \<or> (\<exists>i b. q_blocked q i = Some b \<and> bd_Duty b = d)"

lemma held_enqueue_one:
  assumes "queue_inv q" "d_Id d \<notin> queue_ids q" "held (enqueue_one ctx d q) e"
  shows "e = d \<or> held q e"
proof (cases "d_BlockedBy d = []")
  case True
  have w: "dh_inv d_Id (q_delayHeap q)" "d_Id d \<notin> waiting_ids q"
    using queue_inv_heap [OF assms(1)] assms(2) by (auto simp: queue_ids_def)
  have "held (enqueue_one ctx d q) e = held (push_delayed d q) e"
    using True by (simp add: enqueue_one_def enqueue_free_def Let_def held_def launched_def)
  then show ?thesis
    using assms(3) launched_push_delayed [OF w] by (auto simp: held_def)
next
  case False
  have "launched (enqueue_one ctx d q) e = launched q e"
    "q_blocked (enqueue_one ctx d q) = (q_blocked q)(d_Id d \<mapsto> \<lparr>bd_Duty = d, bd_Blocked = set (d_BlockedBy d)\<rparr>)"
    using False by (simp_all add: enqueue_one_def enqueue_blocked_def Let_def launched_def)
  then show ?thesis
    using assms(3) unfolding held_def by (auto split: if_splits)
qed

lemma held_fold_enqueue:
  assumes "queue_inv q" "deps_inv q acked" "distinct (map d_Id ds)" "log_ids ds \<inter> queue_ids q = {}"
    "held (fold (enqueue_one ctx) ds q) e"
  shows "e \<in> set ds \<or> held q e"
  using assms
proof (induction ds arbitrary: q)
  case (Cons d ds)
  have fresh: "d_Id d \<notin> queue_ids q" using Cons.prems(4) by simp
  note one = queue_inv_enqueue_one [OF Cons.prems(1) fresh] deps_inv_enqueue_one [OF Cons.prems(1,2) fresh]
  have "log_ids ds \<inter> queue_ids (enqueue_one ctx d q) = {}"
    using Cons.prems(3,4) by (auto simp: one(2))
  then have "e \<in> set ds \<or> held (enqueue_one ctx d q) e"
    using Cons.IH [of "enqueue_one ctx d q"] one Cons.prems(3,5) by simp
  then show ?case
    using held_enqueue_one [OF Cons.prems(1) fresh] by auto
qed simp

lemma held_unblock:
  assumes inv: "queue_inv q" and b: "q_blocked q j = Some b"
  shows "held (release_last j b q) e \<Longrightarrow> held q e" "held (release_some i j b q) e \<Longrightarrow> held q e"
proof -
  assume h: "held (release_last j b q) e"
  show "held q e"
    using h b release_last_inv(3) [OF inv b] unfolding held_def release_frame by (metis fun_upd_apply option.distinct(1))
next
  assume h: "held (release_some i j b q) e"
  have "\<exists>k c. q_blocked q k = Some c \<and> bd_Duty c = e"
    if "((q_blocked q)(j \<mapsto> b\<lparr>bd_Blocked := bd_Blocked b - {i}\<rparr>)) k = Some c" "bd_Duty c = e" for k c
  proof (cases "k = j")
    case True
    then have "bd_Duty b = e" using that by auto
    then show ?thesis using b by blast
  qed (use that in auto)
  then show "held q e"
    using h release_some_inv(3) [OF inv b] unfolding held_def release_frame by blast
qed

lemma held_Ack:
  assumes "queue_inv q" "deps_inv q acked" "acked \<inter> queue_ids q = {}" "q_unack q i = Some d"
    "held (snd (snd (Ack i q))) e"
  shows "held q e"
proof -
  have base: "held (ack_base i q) e \<Longrightarrow> held q e"
    using launched_ack_base by (auto simp: held_def)
  show ?thesis
  proof (cases "q_reverse q i")
    case None
    then show ?thesis using assms(4,5) base by (simp add: Ack_unfold)
  next
    case (Some l)
    have "i \<notin> acked" using assms(3,4) by (auto simp: queue_ids_def)
    then obtain j b where b: "l = [j]" "q_blocked (ack_base i q) j = Some b" "i \<in> bd_Blocked b"
      using deps_invD(3) [OF assms(2) Some] by auto
    note rel = held_unblock [OF ack_base_inv(1) [OF assms(1,4)] b(2)]
    show ?thesis
      using assms(4,5) Some base rel unblock_one_cases [OF b(2,3)] b(1)
      by (simp add: Ack_unfold split: if_splits)
  qed
qed

lemma held_drain:
  assumes inv: "sys_inv s" and step: "drain s s'" and held: "held (sys_q s') e"
  shows "held (sys_q s) e"
  using step
proof cases
  case (drain_fire d t)
  then show ?thesis
    using held launched_fire [OF queue_inv_heap [OF sys_invD(1) [OF inv]] drain_fire(2)] by (simp add: held_def)
next
  case (drain_dequeue r q')
  obtain d where d: "q_ready (sys_q s) = d # q_ready q'" "q_unack q' = (q_unack (sys_q s))(d_Id d \<mapsto> d)"
      "q_delayHeap q' = q_delayHeap (sys_q s)" "q_blocked q' = q_blocked (sys_q s)"
    using queue_inv_Dequeue(3) [OF sys_invD(1) [OF inv] drain_dequeue(2)] by blast
  then show ?thesis
    using held drain_dequeue(1) by (auto simp: held_def launched_def split: if_splits)
next
  case (drain_ack i d)
  then show ?thesis
    using held held_Ack [OF sys_invD(1-3) [OF inv] drain_ack(2)] by (simp add: ack_sys_def)
qed

lemma reach_held: "reach ok s \<Longrightarrow> held (sys_q s) e \<Longrightarrow> e \<in> set (sys_log s)"
proof (induction arbitrary: e rule: reach.induct)
  case reach_init
  then show ?case
    by (simp add: init_sys_def held_def launched_def new_queue_heap) (simp add: NewEvalQueue_def)
next
  case (reach_enqueue s ds ctx)
  note i = sys_invD [OF reach_inv [OF reach_enqueue.hyps(1)]]
  have "log_ids ds \<inter> queue_ids (sys_q s) = {}" using reach_enqueue.hyps(4) i(4) by auto
  then have "e \<in> set ds \<or> held (sys_q s) e"
    using held_fold_enqueue [OF i(1,2) reach_enqueue.hyps(3), of ctx e] reach_enqueue.prems
    by (simp add: enqueue_sys_def Enqueue_fold)
  then show ?case
    using reach_enqueue.IH by (auto simp: enqueue_sys_def)
next
  case (reach_drain s s')
  have "sys_log s' = sys_log s"
    using reach_drain.hyps(2) by cases (simp_all add: ack_sys_def)
  then show ?case
    using held_drain [OF reach_inv [OF reach_drain.hyps(1)] reach_drain.hyps(2) reach_drain.prems] reach_drain.IH by simp
next
  case (reach_ack_unknown s i)
  then show ?case by (simp add: ack_sys_def Ack_unknown)
qed

section \<open>The properties of a run\<close>

text \<open>
  C6: whatever the interleaving, every duty enqueued so far is either acknowledged or in exactly
  one of the four places of the queue, nothing else is in the queue, and the counters of ready, of
  handled and of waiting duties are the sizes of those places.
\<close>

theorem duty_in_one_place:
  assumes "reach ok s"
  shows "(\<forall>i. length (places (sys_q s) i) = (if i \<in> log_ids (sys_log s) - sys_acked s then 1 else 0)) \<and>
    sys_acked s \<subseteq> log_ids (sys_log s) \<and>
    TotalReady (q_stats (sys_q s)) = int (length (q_ready (sys_q s))) \<and>
    TotalUnacked (q_stats (sys_q s)) = int (card (dom (q_unack (sys_q s)))) \<and>
    TotalWaiting (q_stats (sys_q s)) = int (dh_Length (q_delayHeap (sys_q s)))"
proof -
  note i = sys_invD [OF reach_inv [OF assms]]
  have ids: "log_ids (sys_log s) - sys_acked s = queue_ids (sys_q s)"
    and sub: "sys_acked s \<subseteq> log_ids (sys_log s)"
    using i(3,4) by auto
  have ap: "queue_apart (sys_q s)" and counts: "queue_counts (sys_q s)"
    using i(1) by (simp_all add: queue_inv_def)
  show ?thesis
    unfolding ids using sub counts [unfolded queue_counts_def] by (intro conjI allI) (rule places_one [OF ap], auto)
qed

text \<open>A run of two duties, the second blocked by the first.\<close>

definition demo_duty :: "string \<Rightarrow> string list \<Rightarrow> Duty" where
  "demo_duty i deps = (WithID proto_NewDuty i)\<lparr>d_BlockedBy := deps\<rparr>"

definition demo_batch :: "Duty list" where
  "demo_batch = [demo_duty ''a'' [], demo_duty ''b'' [''a'']]"

definition demo0 :: "unit qsys" where
  "demo0 = enqueue_sys () demo_batch init_sys"

definition demo1 :: "unit qsys" where
  "demo1 = demo0\<lparr>sys_q := fire_delayed (demo_duty ''a'' []) (sys_q demo0)\<rparr>"

definition demo2 :: "unit qsys" where
  "demo2 = demo1\<lparr>sys_q := snd (Dequeue (sys_q demo1))\<rparr>"

lemma demo_simps [simp]: "d_Id (demo_duty i deps) = i" "d_BlockedBy (demo_duty i deps) = deps"
  by (simp_all add: demo_duty_def WithID_def)

lemma demo0_reach: "ok demo_batch \<Longrightarrow> reach ok demo0"
  unfolding demo0_def by (rule reach_enqueue [OF reach_init]) (simp_all add: demo_batch_def init_sys_def)

lemma demo0_state:
  "dh_abs (q_delayHeap (sys_q demo0)) ''a'' = Some (demo_duty ''a'' [], duty_time (demo_duty ''a'' []))"
  "q_ready (sys_q demo0) = []" "q_unack (sys_q demo0) = Map.empty"
  "dom (q_blocked (sys_q demo0)) = {''b''}"
  "dom (q_ctxMap (sys_q demo0)) = {''a'', ''b''}" "sys_acked demo0 = {}" "sys_log demo0 = demo_batch"
proof -
  have w: "dh_inv d_Id (q_delayHeap (NewEvalQueue :: unit DutyQueue))"
    "d_Id (demo_duty ''a'' []) \<notin> waiting_ids (NewEvalQueue :: unit DutyQueue)"
    by (simp_all add: waiting_ids_def new_queue_heap)
  have q: "sys_q demo0 = enqueue_one () (demo_duty ''b'' [''a'']) (enqueue_one () (demo_duty ''a'' []) NewEvalQueue)"
    by (simp add: demo0_def enqueue_sys_def demo_batch_def init_sys_def Enqueue_def)
  show "dh_abs (q_delayHeap (sys_q demo0)) ''a'' = Some (demo_duty ''a'' [], duty_time (demo_duty ''a'' []))"
    using push_delayed_heap(2) [OF w] by (simp add: q enqueue_one_def enqueue_free_def enqueue_blocked_def Let_def)
  show "q_ready (sys_q demo0) = []" "q_unack (sys_q demo0) = Map.empty"
    "dom (q_blocked (sys_q demo0)) = {''b''}" "dom (q_ctxMap (sys_q demo0)) = {''a'', ''b''}"
    by (auto simp: q enqueue_one_def enqueue_free_def enqueue_blocked_def Let_def NewEvalQueue_def)
  show "sys_acked demo0 = {}" "sys_log demo0 = demo_batch"
    by (simp_all add: demo0_def enqueue_sys_def init_sys_def)
qed

lemma demo1_reach: "ok demo_batch \<Longrightarrow> reach ok demo1"
  unfolding demo1_def using demo0_state(1)
  by (intro reach_drain [OF demo0_reach] drain_fire [where t = "duty_time (demo_duty ''a'' [])"]) simp_all

lemma demo1_Dequeue: "\<exists>q'. Dequeue (sys_q demo1) = (Some (Ok (demo_duty ''a'' [], ())), q') \<and>
    q_unack q' = [''a'' \<mapsto> demo_duty ''a'' []]"
proof -
  have "''a'' \<in> dom (q_ctxMap (sys_q demo0))" by (simp add: demo0_state)
  then obtain c where "q_ctxMap (sys_q demo0) ''a'' = Some c" by blast
  then show ?thesis by (simp add: Dequeue_def demo1_def demo0_state Let_def)
qed

lemma demo2_reach: "ok demo_batch \<Longrightarrow> reach ok demo2"
  using demo1_Dequeue unfolding demo2_def
  by (elim exE conjE) (auto intro!: reach_drain [OF demo1_reach] intro: drain_dequeue)

theorem duty_in_one_place_witness:
  "length (places (sys_q demo0) ''b'') = 1 \<and> TotalWaiting (q_stats (sys_q demo0)) = int (dh_Length (q_delayHeap (sys_q demo0)))"
proof -
  have "''b'' \<in> log_ids (sys_log demo0) - sys_acked demo0"
    by (simp add: demo0_state demo_batch_def)
  then show ?thesis
    using duty_in_one_place [OF demo0_reach [of "\<lambda>_. True", OF TrueI]] by simp
qed

lemma Dequeue_handed:
  assumes "reach ok s" "Dequeue (sys_q s) = (Some r, q')"
  shows "\<exists>d ctx. r = Ok (d, ctx) \<and> q_ready (sys_q s) = d # q_ready q' \<and> d \<in> set (sys_log s) \<and>
    q_ctxMap (sys_q s) (d_Id d) = Some ctx \<and> q_unack q' = (q_unack (sys_q s))(d_Id d \<mapsto> d) \<and>
    d_Id d \<notin> sys_acked s \<and> set (d_BlockedBy d) \<subseteq> sys_acked s"
proof -
  note i = sys_invD [OF reach_inv [OF assms(1)]]
  obtain d ctx where d: "q_ready (sys_q s) = d # q_ready q'" "r = Ok (d, ctx)"
      "q_ctxMap (sys_q s) (d_Id d) = Some ctx" "q_unack q' = (q_unack (sys_q s))(d_Id d \<mapsto> d)"
    using queue_inv_Dequeue(3) [OF i(1) assms(2)] by blast
  have l: "launched (sys_q s) d" using d(1) by (simp add: launched_def)
  have "d_Id d \<in> queue_ids (sys_q s)" using d(1) by (auto simp: queue_ids_def ready_ids_def)
  then have "d_Id d \<notin> sys_acked s" using i(3) by blast
  moreover have "d \<in> set (sys_log s)" using reach_held [OF assms(1)] l by (simp add: held_def)
  ultimately show ?thesis using d deps_invD(1) [OF i(2) l] by blast
qed

text \<open>
  C7: whatever the interleaving, \<open>Dequeue\<close> never fails; it hands out the duty that became ready
  first, which is one of the duties enqueued, with its context, and every duty that this one was
  blocked by has been acknowledged.
\<close>

theorem Dequeue_safe:
  assumes "reach ok s" "Dequeue (sys_q s) = (Some r, q')"
  shows "\<exists>d ctx. r = Ok (d, ctx) \<and> q_ready (sys_q s) = d # q_ready q' \<and> d \<in> set (sys_log s) \<and>
    q_ctxMap (sys_q s) (d_Id d) = Some ctx \<and> q_unack q' = (q_unack (sys_q s))(d_Id d \<mapsto> d) \<and>
    d_Id d \<notin> sys_acked s \<and> set (d_BlockedBy d) \<subseteq> sys_acked s"
  by (rule Dequeue_handed [OF assms])

theorem Dequeue_safe_witness:
  "\<exists>q' d ctx. Dequeue (sys_q demo1) = (Some (Ok (d, ctx)), q') \<and> d \<in> set (sys_log demo1) \<and>
    set (d_BlockedBy d) \<subseteq> sys_acked demo1"
proof -
  obtain q' where q': "Dequeue (sys_q demo1) = (Some (Ok (demo_duty ''a'' [], ())), q')"
    using demo1_Dequeue by blast
  show ?thesis
    using Dequeue_safe [OF demo1_reach [of "\<lambda>_. True", OF TrueI] q'] q' by blast
qed

text \<open>
  C8: whatever the interleaving, \<open>Ack\<close> of a duty that is being handled succeeds, removes that
  duty and its context and nothing else, and starts no duty whose dependencies are still open;
  \<open>Ack\<close> of any other id returns the error of the code and changes nothing.
\<close>

theorem Ack_exact:
  assumes "reach ok s" "Ack i (sys_q s) = (err, sig, q')"
  shows "case q_unack (sys_q s) i of
      None \<Rightarrow> err = Some (DutyNotFound i) \<and> q' = sys_q s
    | Some d \<Rightarrow> err = None \<and> queue_ids q' = queue_ids (sys_q s) - {i} \<and>
        dom (q_ctxMap q') = dom (q_ctxMap (sys_q s)) - {i} \<and>
        (\<forall>e. launched q' e \<longrightarrow> set (d_BlockedBy e) \<subseteq> insert i (sys_acked s))"
proof (cases "q_unack (sys_q s) i")
  case None
  then show ?thesis using assms(2) by (simp add: Ack_unknown)
next
  case (Some d)
  note inv = sys_invD [OF reach_inv [OF assms(1)]]
  note ack = Ack_step [OF inv(1-3) Some assms(2)]
  then have "dom (q_ctxMap q') = dom (q_ctxMap (sys_q s)) - {i}"
    using inv(1) by (simp add: queue_inv_def)
  then show ?thesis using ack Some deps_invD(1) [of q'] by simp
qed

theorem Ack_exact_witness:
  "\<exists>sig q'. Ack ''a'' (sys_q demo2) = (None, sig, q') \<and> queue_ids q' = queue_ids (sys_q demo2) - {''a''}"
proof -
  obtain err sig q' where ack: "Ack ''a'' (sys_q demo2) = (err, sig, q')" by (metis prod_cases3)
  have "q_unack (sys_q demo2) ''a'' = Some (demo_duty ''a'' [])"
    using demo1_Dequeue by (auto simp: demo2_def)
  then show ?thesis
    using Ack_exact [OF demo2_reach [of "\<lambda>_. True", OF TrueI] ack] ack by simp
qed

section \<open>Completion\<close>

text \<open>
  A well planned batch: the dependencies of a duty come earlier in its batch, and no duty has two
  dependents.  The plans of the scheduler have this shape.
\<close>

definition batch_ok :: "Duty list \<Rightarrow> bool" where
  "batch_ok ds \<longleftrightarrow> (\<forall>k < length ds. set (d_BlockedBy (ds ! k)) \<subseteq> log_ids (take k ds)) \<and>
     distinct (concat (map d_BlockedBy ds))"

lemma batch_ok_snoc:
  "batch_ok (ds @ [d]) \<longleftrightarrow> batch_ok ds \<and> set (d_BlockedBy d) \<subseteq> log_ids ds \<and> distinct (d_BlockedBy d) \<and>
     set (d_BlockedBy d) \<inter> (\<Union>e \<in> set ds. set (d_BlockedBy e)) = {}"
  by (auto simp: batch_ok_def nth_append less_Suc_eq_le le_less All_less_Suc)

text \<open>
  In a well planned run, with \<open>log\<close> the duties enqueued: what a blocked duty waits for is earlier
  in the log and not acknowledged, and the reverse map names this duty for it.
\<close>

definition earlier :: "Duty list \<Rightarrow> string \<Rightarrow> string \<Rightarrow> bool" where
  "earlier log x y \<longleftrightarrow> (\<exists>xs ys. log = xs @ ys \<and> x \<in> log_ids xs \<and> y \<in> log_ids ys)"

definition open_inv :: "'c DutyQueue \<Rightarrow> Duty list \<Rightarrow> string set \<Rightarrow> bool" where
  "open_inv q log acked \<longleftrightarrow>
     (\<forall>j b dep. q_blocked q j = Some b \<and> dep \<in> bd_Blocked b \<longrightarrow>
        dep \<notin> acked \<and> q_reverse q dep = Some [j] \<and> earlier log dep j) \<and>
     (\<forall>dep. q_reverse q dep \<noteq> None \<longrightarrow> (\<exists>d \<in> set log. dep \<in> set (d_BlockedBy d))) \<and>
     (\<forall>d \<in> set log. set (d_BlockedBy d) \<subseteq> log_ids log)"

lemma open_invD:
  assumes "open_inv q log acked"
  shows "q_blocked q j = Some b \<Longrightarrow> dep \<in> bd_Blocked b \<Longrightarrow> dep \<notin> acked \<and> q_reverse q dep = Some [j] \<and> earlier log dep j"
    "q_reverse q dep \<noteq> None \<Longrightarrow> \<exists>d \<in> set log. dep \<in> set (d_BlockedBy d)"
    "d \<in> set log \<Longrightarrow> set (d_BlockedBy d) \<subseteq> log_ids log"
  using assms unfolding open_inv_def by blast+

lemma earlier_append: "earlier log x y \<Longrightarrow> earlier (log @ ds) x y"
  unfolding earlier_def by (metis Un_iff append.assoc image_Un set_append)

lemma earlier_last: "x \<in> log_ids log \<Longrightarrow> earlier (log @ [d]) x (d_Id d)"
  unfolding earlier_def by (intro exI [of _ log] exI [of _ "[d]"]) simp

lemma open_inv_enqueue_one:
  assumes op: "open_inv q log acked" and dep: "set (d_BlockedBy d) \<subseteq> log_ids log - acked"
    and new: "set (d_BlockedBy d) \<inter> (\<Union>e \<in> set log. set (d_BlockedBy e)) = {}"
    and fresh: "d_Id d \<notin> log_ids log"
  shows "open_inv (enqueue_one ctx d q) (log @ [d]) acked"
proof -
  let ?q = "enqueue_one ctx d q"
  have bl: "q_blocked ?q = (if d_BlockedBy d = [] then q_blocked q
      else (q_blocked q)(d_Id d \<mapsto> \<lparr>bd_Duty = d, bd_Blocked = set (d_BlockedBy d)\<rparr>))"
    and rev: "q_reverse ?q x = (if x \<in> set (d_BlockedBy d) then Some [d_Id d] else q_reverse q x)" for x
    by (simp_all add: enqueue_one_def enqueue_free_def enqueue_blocked_def Let_def fold_add_reverse)
  have fr: "x \<notin> set (d_BlockedBy d)" if "q_reverse q x \<noteq> None" for x
    using open_invD(2) [OF op that] new by blast
  show ?thesis
    unfolding open_inv_def
  proof (intro conjI allI impI ballI)
    fix j b x assume "q_blocked ?q j = Some b \<and> x \<in> bd_Blocked b"
    then consider "j = d_Id d" "x \<in> set (d_BlockedBy d)" | "q_blocked q j = Some b" "x \<in> bd_Blocked b"
      by (auto simp: bl split: if_splits)
    then show "x \<notin> acked" "q_reverse ?q x = Some [j]" "earlier (log @ [d]) x j"
    proof (atomize (full), cases)
      case 1
      then show "x \<notin> acked \<and> q_reverse ?q x = Some [j] \<and> earlier (log @ [d]) x j"
        using dep rev earlier_last [of x log d] by auto
    next
      case 2
      then show "x \<notin> acked \<and> q_reverse ?q x = Some [j] \<and> earlier (log @ [d]) x j"
        using open_invD(1) [OF op 2] fr [of x] by (auto simp: rev intro: earlier_append)
    qed
  next
    fix x assume "q_reverse ?q x \<noteq> None"
    then show "\<exists>e \<in> set (log @ [d]). x \<in> set (d_BlockedBy e)"
      using open_invD(2) [OF op, of x] by (auto simp: rev split: if_splits)
  next
    fix e assume "e \<in> set (log @ [d])"
    then show "set (d_BlockedBy e) \<subseteq> log_ids (log @ [d])"
      using open_invD(3) [OF op, of e] dep by auto
  qed
qed

lemma open_inv_fold:
  assumes "open_inv q log acked" "batch_ok ds" "distinct (map d_Id ds)" "log_ids ds \<inter> log_ids log = {}"
    "acked \<subseteq> log_ids log"
  shows "open_inv (fold (enqueue_one ctx) ds q) (log @ ds) acked"
  using assms
proof (induction ds rule: rev_induct)
  case (snoc d ds)
  have ok: "batch_ok ds" "set (d_BlockedBy d) \<subseteq> log_ids ds"
    "set (d_BlockedBy d) \<inter> (\<Union>e \<in> set ds. set (d_BlockedBy e)) = {}"
    using snoc.prems(2) by (simp_all add: batch_ok_snoc)
  have op: "open_inv (fold (enqueue_one ctx) ds q) (log @ ds) acked"
    using snoc ok(1) by auto
  have deps: "set (d_BlockedBy d) \<subseteq> log_ids (log @ ds) - acked"
    using ok(2) snoc.prems(4,5) by auto
  have "set (d_BlockedBy e) \<subseteq> log_ids log" if "e \<in> set log" for e
    using open_invD(3) [OF snoc.prems(1) that] .
  then have "set (d_BlockedBy d) \<inter> set (d_BlockedBy e) = {}" if "e \<in> set log" for e
    using that ok(2) snoc.prems(4) by fastforce
  then have new: "set (d_BlockedBy d) \<inter> (\<Union>e \<in> set (log @ ds). set (d_BlockedBy e)) = {}"
    using ok(3) by auto
  have "d_Id d \<notin> log_ids (log @ ds)"
    using snoc.prems(3,4) by auto
  then show ?case
    using open_inv_enqueue_one [OF op deps new] by simp
qed simp

lemma Ack_blocked:
  assumes deps: "deps_inv q acked" and "i \<notin> acked" and u: "q_unack q i = Some d"
  shows "q_reverse (snd (snd (Ack i q))) = q_reverse q"
    "q_blocked (snd (snd (Ack i q))) k = Some c \<Longrightarrow>
      \<exists>b. q_blocked q k = Some b \<and> bd_Blocked c \<subseteq> bd_Blocked b \<and> (q_reverse q i = Some [k] \<longrightarrow> i \<notin> bd_Blocked c)"
proof -
  let ?q = "snd (snd (Ack i q))"
  have "q_reverse ?q = q_reverse q \<and> (q_blocked ?q k = Some c \<longrightarrow>
      (\<exists>b. q_blocked q k = Some b \<and> bd_Blocked c \<subseteq> bd_Blocked b \<and> (q_reverse q i = Some [k] \<longrightarrow> i \<notin> bd_Blocked c)))"
  proof (cases "q_reverse q i")
    case None
    then show ?thesis using u by (simp add: Ack_unfold)
  next
    case (Some l)
    then obtain j b where b: "l = [j]" "q_blocked q j = Some b" "i \<in> bd_Blocked b"
      using deps_invD(3) [OF deps Some] assms(2) by auto
    have bp: "q_blocked (ack_base i q) j = Some b" using b(2) by simp
    have "Ack i q = (if bd_Blocked b = {i} then (None, True, release_last j b (ack_base i q))
        else (None, False, release_some i j b (ack_base i q)))"
      using u Some b(1) unblock_one_cases [OF bp b(3)] by (simp add: Ack_unfold)
    then consider "?q = release_last j b (ack_base i q)" | "?q = release_some i j b (ack_base i q)"
      by (cases "bd_Blocked b = {i}") simp_all
    then show ?thesis
    proof cases
      case 1
      then show ?thesis using Some b by (cases "k = j") auto
    next
      case 2
      then show ?thesis using Some b by (cases "k = j") auto
    qed
  qed
  then show "q_reverse ?q = q_reverse q"
    "q_blocked ?q k = Some c \<Longrightarrow>
      \<exists>b. q_blocked q k = Some b \<and> bd_Blocked c \<subseteq> bd_Blocked b \<and> (q_reverse q i = Some [k] \<longrightarrow> i \<notin> bd_Blocked c)"
    by blast+
qed

lemma open_inv_cong:
  "q_blocked q' = q_blocked q \<Longrightarrow> q_reverse q' = q_reverse q \<Longrightarrow> open_inv q log acked \<Longrightarrow> open_inv q' log acked"
  unfolding open_inv_def by metis

lemma open_inv_drain:
  assumes inv: "sys_inv s" and op: "open_inv (sys_q s) (sys_log s) (sys_acked s)" and step: "drain s s'"
  shows "open_inv (sys_q s') (sys_log s') (sys_acked s')"
  using step
proof cases
  case (drain_fire d t)
  then show ?thesis
    using open_inv_cong [OF _ _ op, of "fire_delayed d (sys_q s)"] fire_delayed_frame(3,4) [of d "sys_q s"] by simp
next
  case (drain_dequeue r q')
  then show ?thesis
    using open_inv_cong [OF _ _ op] queue_inv_Dequeue(3) [OF sys_invD(1) [OF inv] drain_dequeue(2)] by auto
next
  case (drain_ack i d)
  note iv = sys_invD [OF inv]
  have ia: "i \<notin> sys_acked s" using drain_ack(2) iv(3) by (auto simp: queue_ids_def)
  note rel = Ack_blocked [OF iv(2) ia drain_ack(2)]
  have s': "sys_q s' = snd (snd (Ack i (sys_q s)))" "sys_log s' = sys_log s" "sys_acked s' = insert i (sys_acked s)"
    using drain_ack by (simp_all add: ack_sys_def)
  show ?thesis
    unfolding open_inv_def s' rel(1)
  proof (intro conjI allI impI ballI)
    fix j c dep assume "q_blocked (snd (snd (Ack i (sys_q s)))) j = Some c \<and> dep \<in> bd_Blocked c"
    then obtain b where b: "q_blocked (sys_q s) j = Some b" "dep \<in> bd_Blocked b"
        "q_reverse (sys_q s) i = Some [j] \<longrightarrow> dep \<noteq> i"
      using rel(2) by blast
    then show "dep \<notin> insert i (sys_acked s)" "q_reverse (sys_q s) dep = Some [j]" "earlier (sys_log s) dep j"
      using open_invD(1) [OF op b(1,2)] by auto
  qed (use open_invD(2,3) [OF op] in blast)+
qed

lemma drain_log: "drain s s' \<Longrightarrow> sys_log s' = sys_log s"
  by (erule drain.cases) (simp_all add: ack_sys_def)

lemma reach_open: "reach batch_ok s \<Longrightarrow> open_inv (sys_q s) (sys_log s) (sys_acked s)"
proof (induction rule: reach.induct)
  case reach_init
  then show ?case by (simp add: open_inv_def init_sys_def NewEvalQueue_def)
next
  case (reach_enqueue s ds ctx)
  note i = sys_invD [OF reach_inv [OF reach_enqueue.hyps(1)]]
  have "sys_acked s \<subseteq> log_ids (sys_log s)" using i(4) by auto
  then show ?case
    using open_inv_fold [OF reach_enqueue.IH reach_enqueue.hyps(2-4)] by (simp add: enqueue_sys_def Enqueue_fold)
next
  case (reach_drain s s')
  then show ?case using open_inv_drain [OF reach_inv] by blast
next
  case (reach_ack_unknown s i)
  then show ?case by (simp add: ack_sys_def Ack_unknown)
qed

text \<open>What is left to do, in steps.\<close>

definition load :: "'c DutyQueue \<Rightarrow> nat" where
  "load q = 4 * card (dom (q_blocked q)) + 3 * dh_Length (q_delayHeap q) + 2 * length (q_ready q) + card (dom (q_unack q))"

lemma finite_places:
  assumes "sys_inv s"
  shows "finite (dom (q_blocked (sys_q s)))" "finite (dom (q_unack (sys_q s)))"
proof -
  have "finite (queue_ids (sys_q s))"
    using sys_invD(4) [OF assms] by (metis finite_Un finite_imageI List.finite_set)
  then show "finite (dom (q_blocked (sys_q s)))" "finite (dom (q_unack (sys_q s)))"
    by (simp_all add: queue_ids_def)
qed

lemma card_dom_remove:
  "finite (dom m) \<Longrightarrow> m k = Some v \<Longrightarrow> card (dom m) = Suc (card (dom (m(k := None))))"
  using card_Suc_Diff1 [of "dom m" k] by (simp add: domI)

lemma load_ack_base:
  "finite (dom (q_unack q)) \<Longrightarrow> q_unack q i = Some d \<Longrightarrow> load q = Suc (load (ack_base i q))"
  using card_dom_remove [of "q_unack q" i d] by (simp add: load_def ack_base_def)

lemma load_release_last:
  assumes inv: "queue_inv q" and b: "q_blocked q j = Some b" and fin: "finite (dom (q_blocked q))"
  shows "load (release_last j b q) < load q"
proof -
  let ?p = "q\<lparr>q_blocked := (q_blocked q)(j := None),
        q_stats := (q_stats q)\<lparr>TotalBlocked := TotalBlocked (q_stats q) - 1,
          TotalWaiting := TotalWaiting (q_stats q) + 1\<rparr>\<rparr>"
  have id: "d_Id (bd_Duty b) = j" using inv b by (simp add: queue_inv_def queue_wf_def)
  have "j \<in> dom (q_blocked q)" using b by auto
  then have w: "dh_inv d_Id (q_delayHeap ?p)" "d_Id (bd_Duty b) \<notin> waiting_ids ?p"
    using inv unfolding queue_inv_def queue_apart_def apart_def queue_wf_def id by auto
  have "dh_Length (q_delayHeap (release_last j b q)) = Suc (dh_Length (q_delayHeap q))"
    using push_delayed_heap(3) [OF w] by (simp add: release_last_def)
  moreover have "q_ready (release_last j b q) = q_ready q" "q_unack (release_last j b q) = q_unack q"
    by (simp_all add: release_last_def)
  ultimately show ?thesis
    using card_dom_remove [OF fin b] by (simp add: load_def)
qed

lemma load_release_some: "q_blocked q j = Some b \<Longrightarrow> load (release_some i j b q) = load q"
  by (simp add: load_def release_some_def insert_absorb domI)

lemma load_drain:
  assumes inv: "sys_inv s" and step: "drain s s'"
  shows "load (sys_q s') < load (sys_q s)"
  using step
proof cases
  case (drain_fire d t)
  note h = queue_inv_heap [OF sys_invD(1) [OF inv]]
  show ?thesis
    using fire_delayed_heap(3) [OF h waiting_idsI [OF drain_fire(2)]] drain_fire(1) by (simp add: load_def)
next
  case (drain_dequeue r q')
  obtain d where d: "q_ready (sys_q s) = d # q_ready q'" "q_unack q' = (q_unack (sys_q s))(d_Id d \<mapsto> d)"
      "q_delayHeap q' = q_delayHeap (sys_q s)" "q_blocked q' = q_blocked (sys_q s)"
    using queue_inv_Dequeue(3) [OF sys_invD(1) [OF inv] drain_dequeue(2)] by blast
  have "card (dom (q_unack q')) \<le> Suc (card (dom (q_unack (sys_q s))))"
    unfolding d(2) dom_fun_upd by (simp add: card_insert_le_m1 card_insert_if finite_places(2) [OF inv])
  then show ?thesis using d drain_dequeue(1) by (simp add: load_def)
next
  case (drain_ack i d)
  note iv = sys_invD [OF inv]
  note base = ack_base_inv(1) [OF iv(1) drain_ack(2)] load_ack_base [OF finite_places(2) [OF inv] drain_ack(2)]
  have s': "sys_q s' = snd (snd (Ack i (sys_q s)))" using drain_ack by (simp add: ack_sys_def)
  show ?thesis
  proof (cases "q_reverse (sys_q s) i")
    case None
    then show ?thesis using s' base(2) drain_ack(2) by (simp add: Ack_unfold)
  next
    case (Some l)
    have "i \<notin> sys_acked s" using drain_ack(2) iv(3) by (auto simp: queue_ids_def)
    then obtain j b where b: "l = [j]" "q_blocked (ack_base i (sys_q s)) j = Some b" "i \<in> bd_Blocked b"
      using deps_invD(3) [OF iv(2) Some] by auto
    have fin: "finite (dom (q_blocked (ack_base i (sys_q s))))" using finite_places(1) [OF inv] by simp
    show ?thesis
      using s' base(2) drain_ack(2) Some b(1) unblock_one_cases [OF b(2,3)]
        load_release_last [OF base(1) b(2) fin] load_release_some [OF b(2), of i]
      by (simp add: Ack_unfold split: if_splits)
  qed
qed

lemma Dequeue_ready:
  assumes "q_ready q \<noteq> []"
  shows "\<exists>r q'. Dequeue q = (Some r, q')"
proof -
  obtain d rest where rd: "q_ready q = d # rest" using assms by (cases "q_ready q") auto
  show ?thesis by (cases "q_ctxMap q (d_Id d)") (simp_all add: Dequeue_def rd Let_def)
qed

lemma prefix_before:
  assumes "us @ vs = xs @ d # ys" "d \<notin> set us"
  shows "set us \<subseteq> set xs"
proof -
  obtain zs where "us = xs @ zs \<and> zs @ vs = d # ys \<or> us @ zs = xs \<and> vs = zs @ d # ys"
    using assms(1) by (auto simp: append_eq_append_conv2)
  then show ?thesis using assms(2) by (cases zs) auto
qed

text \<open>A well planned queue is never stuck with duties left.\<close>

lemma drain_exists:
  assumes r: "reach batch_ok s" and left: "sys_acked s \<noteq> log_ids (sys_log s)"
  shows "\<exists>s'. drain s s'"
proof (rule ccontr)
  assume stuck: "\<nexists>s'. drain s s'"
  note inv = sys_invD [OF reach_inv [OF r]] and op = reach_open [OF r]
  let ?q = "sys_q s"
  have "waiting_ids ?q = {}"
  proof (rule ccontr)
    assume "waiting_ids ?q \<noteq> {}"
    then obtain i d t where "dh_abs (q_delayHeap ?q) i = Some (d, t)"
      unfolding waiting_ids_def by (metis domD ex_in_conv surj_pair)
    then have "dh_abs (q_delayHeap ?q) (d_Id d) = Some (d, t)" using queue_inv_entry [OF inv(1)] by blast
    then show False using stuck drain_fire by blast
  qed
  moreover have "q_ready ?q = []"
  proof (rule ccontr)
    assume "q_ready ?q \<noteq> []"
    then obtain r q' where "Dequeue ?q = (Some r, q')" using Dequeue_ready by blast
    then show False using stuck drain_dequeue by blast
  qed
  moreover have "dom (q_unack ?q) = {}"
    using stuck drain_ack by (metis domIff ex_in_conv not_None_eq)
  ultimately have ids: "queue_ids ?q = dom (q_blocked ?q)"
    by (simp add: queue_ids_def ready_ids_def)
  have all: "dom (q_blocked ?q) \<subseteq> log_ids (sys_log s)" "log_ids (sys_log s) \<subseteq> dom (q_blocked ?q) \<union> sys_acked s"
    using inv(4) ids by auto
  obtain y where "y \<in> log_ids (sys_log s)" "y \<notin> sys_acked s"
    using left inv(4) by blast
  then have "\<exists>d \<in> set (sys_log s). d_Id d \<in> dom (q_blocked ?q)"
    using all(2) by blast
  then obtain xs d ys where log: "sys_log s = xs @ d # ys" "d_Id d \<in> dom (q_blocked ?q)"
      "\<forall>e \<in> set xs. d_Id e \<notin> dom (q_blocked ?q)"
    using split_list_first_prop [of "sys_log s" "\<lambda>e. d_Id e \<in> dom (q_blocked ?q)"] by blast
  then obtain b where b: "q_blocked ?q (d_Id d) = Some b" by blast
  then obtain x where x: "x \<in> bd_Blocked b" using deps_invD(2) [OF inv(2)] by blast
  note dep = open_invD(1) [OF op b x]
  then obtain us vs where uv: "sys_log s = us @ vs" "x \<in> log_ids us" "d_Id d \<in> log_ids vs"
    unfolding earlier_def by blast
  have "d \<notin> set us" using inv(5) uv(1,3) by auto
  then have "set us \<subseteq> set xs"
    using prefix_before [of us vs xs d ys] log(1) uv(1) by simp
  then have "x \<notin> dom (q_blocked ?q)" using uv(2) log(3) by auto
  then show False using dep all(2) uv(1,2) by auto
qed

lemma drain_run:
  assumes "reach batch_ok s" "(drain ^^ n) s s'"
  shows "reach batch_ok s' \<and> sys_log s' = sys_log s \<and> n + load (sys_q s') \<le> load (sys_q s)"
  using assms(2)
proof (induction n arbitrary: s')
  case 0
  then show ?case using assms(1) by simp
next
  case (Suc n)
  then obtain u where u: "(drain ^^ n) s u" "drain u s'" by auto
  note ih = Suc.IH [OF u(1)]
  then show ?case
    using load_drain [OF reach_inv u(2)] reach_drain [OF _ u(2)] drain_log [OF u(2)] by fastforce
qed


lemma demo_batch_ok: "batch_ok demo_batch"
  by (simp add: batch_ok_def demo_batch_def less_Suc_eq All_less_Suc)


section \<open>Two duties that wait for the same duty\<close>

text \<open>Enqueueing a second dependent makes the reverse map forget the first one.\<close>

lemma forgotten_step:
  assumes inv: "sys_inv s" and step: "drain s s'"
    and j: "q_blocked (sys_q s) j = Some b" "dep \<in> bd_Blocked b" "q_reverse (sys_q s) dep = Some [k]" "k \<noteq> j"
  shows "\<exists>b'. q_blocked (sys_q s') j = Some b' \<and> dep \<in> bd_Blocked b' \<and> q_reverse (sys_q s') dep = Some [k]"
  using step
proof cases
  case (drain_fire d t)
  then show ?thesis using j by simp
next
  case (drain_dequeue r q')
  then show ?thesis
    using j queue_inv_Dequeue(3) [OF sys_invD(1) [OF inv] drain_dequeue(2)] by auto
next
  case (drain_ack i d)
  note iv = sys_invD [OF inv]
  have s': "sys_q s' = snd (snd (Ack i (sys_q s)))" using drain_ack by (simp add: ack_sys_def)
  show ?thesis
  proof (cases "q_reverse (sys_q s) i")
    case None
    then show ?thesis using s' j drain_ack(2) by (simp add: Ack_unfold)
  next
    case (Some l)
    have "i \<notin> sys_acked s" using drain_ack(2) iv(3) by (auto simp: queue_ids_def)
    then obtain m c where c: "l = [m]" "q_blocked (ack_base i (sys_q s)) m = Some c" "i \<in> bd_Blocked c"
      using deps_invD(3) [OF iv(2) Some] by auto
    have own: "dep \<noteq> i \<and> c = b" if "m = j"
      using that Some c j by auto
    show ?thesis
      using s' drain_ack(2) Some c(1) unblock_one_cases [OF c(2,3)] j own
      by (cases "m = j") (auto simp: Ack_unfold)
  qed
qed

text \<open>
  C21: once the reverse map no longer names a blocked duty for one of its open dependencies, which
  is what enqueueing a second dependent of the same duty does, that duty stays blocked whatever is
  fired, dequeued and acknowledged afterwards, its dependency included.
\<close>

theorem second_dependent_strands_first:
  assumes "reach ok s" "q_blocked (sys_q s) j = Some b" "dep \<in> bd_Blocked b"
    "q_blocked (sys_q s) (d_Id d) = None" "d_Id d \<notin> log_ids (sys_log s)" "dep \<in> set (d_BlockedBy d)"
    "drain\<^sup>*\<^sup>* (enqueue_sys ctx [d] s) s'"
  shows "\<exists>b'. q_blocked (sys_q s') j = Some b' \<and> dep \<in> bd_Blocked b'"
proof -
  let ?s = "enqueue_sys ctx [d] s"
  have inv: "sys_inv ?s"
    using assms(5) by (intro sys_inv_enqueue reach_inv [OF assms(1)]) simp_all
  have ne: "d_BlockedBy d \<noteq> []" using assms(6) by auto
  have jd: "d_Id d \<noteq> j" using assms(2,4) by auto
  have start: "q_blocked (sys_q ?s) j = Some b" "q_reverse (sys_q ?s) dep = Some [d_Id d]"
    using ne jd assms(2,6)
    by (simp_all add: enqueue_sys_def Enqueue_def enqueue_one_def enqueue_blocked_def Let_def fold_add_reverse)
  have "sys_inv s' \<and> (\<exists>b'. q_blocked (sys_q s') j = Some b' \<and> dep \<in> bd_Blocked b' \<and> q_reverse (sys_q s') dep = Some [d_Id d])"
    using assms(7)
  proof (induction rule: rtranclp_induct)
    case base
    then show ?case using inv start assms(3) by blast
  next
    case (step u v)
    then show ?case
      using forgotten_step [OF _ step.hyps(2) _ _ _ jd] sys_inv_drain [OF _ step.hyps(2)] by blast
  qed
  then show ?thesis by blast
qed

definition twin0 :: "unit qsys" where
  "twin0 = enqueue_sys () [demo_duty ''c'' [''a'']] demo2"

lemma demo2_state:
  "q_unack (sys_q demo2) = [''a'' \<mapsto> demo_duty ''a'' []]"
  "q_blocked (sys_q demo2) = [''b'' \<mapsto> \<lparr>bd_Duty = demo_duty ''b'' [''a''], bd_Blocked = {''a''}\<rparr>]"
  "sys_log demo2 = demo_batch"
proof -
  obtain q' where q': "Dequeue (sys_q demo1) = (Some (Ok (demo_duty ''a'' [], ())), q')"
      "q_unack q' = [''a'' \<mapsto> demo_duty ''a'' []]"
    using demo1_Dequeue by blast
  then show "q_unack (sys_q demo2) = [''a'' \<mapsto> demo_duty ''a'' []]" by (simp add: demo2_def)
  have "q_blocked (sys_q demo2) = q_blocked (sys_q demo0)"
    using queue_inv_Dequeue(3) [OF sys_invD(1) [OF reach_inv [OF demo1_reach [of "\<lambda>_. True", OF TrueI]]] q'(1)] q'(1)
    by (auto simp: demo2_def demo1_def)
  then show "q_blocked (sys_q demo2) = [''b'' \<mapsto> \<lparr>bd_Duty = demo_duty ''b'' [''a''], bd_Blocked = {''a''}\<rparr>]"
    by (simp add: demo0_def enqueue_sys_def demo_batch_def init_sys_def Enqueue_def enqueue_one_def
        enqueue_free_def enqueue_blocked_def Let_def NewEvalQueue_def)
  show "sys_log demo2 = demo_batch" by (simp add: demo2_def demo1_def demo0_state)
qed

theorem second_dependent_strands_first_witness:
  "drain\<^sup>*\<^sup>* twin0 (ack_sys ''a'' twin0) \<and> ''a'' \<in> sys_acked (ack_sys ''a'' twin0) \<and>
    (\<exists>b. q_blocked (sys_q (ack_sys ''a'' twin0)) ''b'' = Some b)"
proof -
  have u: "q_unack (sys_q twin0) ''a'' = Some (demo_duty ''a'' [])"
    by (simp add: twin0_def enqueue_sys_def Enqueue_def enqueue_one_def enqueue_blocked_def Let_def demo2_state)
  then have d: "drain\<^sup>*\<^sup>* twin0 (ack_sys ''a'' twin0)" by (blast intro: drain_ack)
  have "''c'' \<notin> log_ids (sys_log demo2)" by (simp add: demo2_state demo_batch_def)
  then show ?thesis
    using second_dependent_strands_first [OF demo2_reach [of "\<lambda>_. True", OF TrueI], of "''b''" _ "''a''" "demo_duty ''c'' [''a'']" "()", folded twin0_def, OF _ _ _ _ _ d] d u
    by (auto simp: demo2_state ack_sys_def)
qed

end
