(* ===== verification/PlanRuns.thy ===== *)
theory PlanRuns
  imports QueueRuns Scheduler
begin

text \<open>
  The plans of the scheduler in the duty queue: ids and dependencies of a plan
  (\<open>internal/scheduler/scheduler.go\<close>), and what becomes of them once \<open>handleNewEpoch\<close>
  (\<open>internal/server/server.go\<close>) has enqueued the plan (\<open>internal/server/duty_queue.go\<close>).
\<close>

section \<open>Ids and dependencies of a plan\<close>

text \<open>
  The duties before \<open>cleanDuties\<close>: they carry the generated ids in order, and a duty with a
  dependency is the aggregation that follows the attestation it depends on.
\<close>

definition dep_ok :: "Scheduler \<Rightarrow> Evaluation \<Rightarrow> Duty list \<Rightarrow> nat \<Rightarrow> bool" where
  "dep_ok s eval ds k \<longleftrightarrow> d_BlockedBy (ds ! k) = [] \<or>
     (\<exists>j a pr. k = Suc j \<and> a \<in> set (ev_Attestation eval) \<and> ds ! j = attestationDuty s eval a (sc_ids s j) \<and>
        ds ! k = aggregationDuty s eval a pr (sc_ids s k) (sc_ids s j))"

definition raw_ok :: "Scheduler \<Rightarrow> Evaluation \<Rightarrow> Duty list \<Rightarrow> bool" where
  "raw_ok s eval ds \<longleftrightarrow> map d_Id ds = map (sc_ids s) [0..<length ds] \<and> (\<forall>k < length ds. dep_ok s eval ds k)"

lemma dep_ok_append: "k < length ds \<Longrightarrow> dep_ok s eval (ds @ es) k = dep_ok s eval ds k"
  unfolding dep_ok_def by (cases k) (auto simp: nth_append)

lemma raw_ok_snoc:
  "raw_ok s eval (ds @ [d]) \<longleftrightarrow> raw_ok s eval ds \<and> d_Id d = sc_ids s (length ds) \<and> dep_ok s eval (ds @ [d]) (length ds)"
  by (auto simp: raw_ok_def All_less_Suc dep_ok_append)

lemma raw_ok_free:
  assumes "raw_ok s eval ds" "d_Id d = nextId s ds" "d_BlockedBy d = []"
  shows "raw_ok s eval (ds @ [d])"
  using assms by (simp add: raw_ok_snoc nextId_def dep_ok_def nth_append)

lemma raw_ok_agg:
  assumes "raw_ok s eval ds" "a \<in> set (ev_Attestation eval)"
    "ds = ds0 @ [attestationDuty s eval a (nextId s ds0)]"
  shows "raw_ok s eval (ds @ [aggregationDuty s eval a pr (nextId s ds) (nextId s ds0)])"
proof -
  let ?g = "aggregationDuty s eval a pr (nextId s ds) (nextId s ds0)"
  have "dep_ok s eval (ds @ [?g]) (length ds)"
    unfolding dep_ok_def using assms(2,3)
    by (intro disjI2 exI [of _ "length ds0"] exI [of _ a] exI [of _ pr]) (simp add: nth_append nextId_def)
  then show ?thesis
    using assms(1) by (simp add: raw_ok_snoc nextId_def aggregationDuty_def)
qed

lemma duty_ids [simp]:
  "d_Id (proposalDuty s eval p i) = i" "d_BlockedBy (proposalDuty s eval p i) = []"
  "d_Id (attestationDuty s eval a i) = i" "d_BlockedBy (attestationDuty s eval a i) = []"
  "d_Id (aggregationDuty s eval a pr i dep) = i" "d_BlockedBy (aggregationDuty s eval a pr i dep) = [dep]"
  "d_Id (committeeDuty s eval c slot i) = i" "d_BlockedBy (committeeDuty s eval c slot i) = []"
  "d_Id (syncAggregateDuty s eval c slot index pr i) = i" "d_BlockedBy (syncAggregateDuty s eval c slot index pr i) = []"
  by (simp_all add: proposalDuty_def attestationDuty_def aggregationDuty_def committeeDuty_def
      syncAggregateDuty_def proto_NewDuty_def)

lemma raw_ok_addAttestation:
  assumes "raw_ok s eval u" "a \<in> set (ev_Attestation eval)" "addAttestation s eval a u = Ok v"
  shows "raw_ok s eval v"
proof -
  let ?u = "u @ [attestationDuty s eval a (nextId s u)]"
  have r: "raw_ok s eval ?u" by (rule raw_ok_free [OF assms(1)]) simp_all
  obtain pr where "v = ?u \<or> v = ?u @ [aggregationDuty s eval a pr (nextId s ?u) (nextId s u)]"
    using assms(3) by (auto simp: addAttestation_def Let_def outcome_simps split: if_splits)
  then show ?thesis using r raw_ok_agg [OF r assms(2) refl] by blast
qed

lemma raw_ok_addSyncSlot:
  assumes "raw_ok s eval u" "addSyncSlot s eval c slot u = Ok v"
  shows "raw_ok s eval v"
proof -
  obtain subs where "ofold (addSyncAggregate s eval c slot) subs (u @ [committeeDuty s eval c slot (nextId s u)]) = Ok v"
    using assms(2) by (auto simp: addSyncSlot_def Let_def outcome_simps)
  then show ?thesis
  proof (rule ofold_inv)
    show "raw_ok s eval (u @ [committeeDuty s eval c slot (nextId s u)])"
      by (rule raw_ok_free [OF assms(1)]) simp_all
  qed (auto simp: addSyncAggregate_def outcome_simps split: if_splits intro!: raw_ok_free)
qed

lemma raw_ok_allDuties:
  assumes "allDuties s eval = Ok ds"
  shows "raw_ok s eval ds"
proof -
  obtain ds1 ds2 where f: "ofold (addProposal s eval) (ev_Proposer eval) [] = Ok ds1"
      "ofold (addAttestation s eval) (ev_Attestation eval) ds1 = Ok ds2"
      "ofold (addCommittee s eval) (ev_Committee eval) ds2 = Ok ds"
    using assms by (auto simp: allDuties_def outcome_simps)
  have "raw_ok s eval ds1"
    by (rule ofold_inv [OF f(1)]) (auto simp: raw_ok_def [of s eval "[]"] addProposal_def intro!: raw_ok_free)
  then have "raw_ok s eval ds2"
    by (rule ofold_inv [OF f(2)]) (rule raw_ok_addAttestation)
  then show ?thesis
    by (rule ofold_inv [OF f(3)]) (auto simp: addCommittee_def intro: ofold_inv raw_ok_addSyncSlot)
qed

text \<open>The generated ids are different: \<open>sc_ids\<close> is injective.\<close>

lemma raw_distinct:
  assumes "raw_ok s eval ds" "inj (sc_ids s)"
  shows "distinct (map d_Id ds)"
proof -
  have "inj_on (sc_ids s) {0..<length ds}" using assms(2) by (metis inj_on_subset subset_UNIV)
  then show ?thesis using assms(1) by (simp add: raw_ok_def distinct_map)
qed

lemma raw_deps_distinct:
  assumes "raw_ok s eval ds" "inj (sc_ids s)"
  shows "distinct (concat (map d_BlockedBy ds)) \<and>
    (\<forall>x \<in> set (concat (map d_BlockedBy ds)). \<exists>j. x = sc_ids s j \<and> Suc j < length ds)"
  using assms(1)
proof (induction ds rule: rev_induct)
  case (snoc d ds)
  have r: "raw_ok s eval ds" using snoc.prems by (simp add: raw_ok_snoc)
  have "dep_ok s eval (ds @ [d]) (length ds)" using snoc.prems by (simp add: raw_ok_snoc)
  then have new: "d_BlockedBy d = [] \<or> (\<exists>j. length ds = Suc j \<and> d_BlockedBy d = [sc_ids s j])"
    unfolding dep_ok_def by (auto simp: nth_append)
  have ih: "distinct (concat (map d_BlockedBy ds))"
    "\<And>x. x \<in> set (concat (map d_BlockedBy ds)) \<Longrightarrow> \<exists>j. x = sc_ids s j \<and> Suc j < length ds"
    using snoc.IH [OF r] by blast+
  have out: "sc_ids s j \<notin> set (concat (map d_BlockedBy ds))" if "length ds = Suc j" for j
    using ih(2) [of "sc_ids s j"] that assms(2) by (auto dest: injD)
  have up: "\<exists>j. x = sc_ids s j \<and> Suc j < length (ds @ [d])" if "x \<in> set (concat (map d_BlockedBy ds))" for x
    using ih(2) [OF that] by auto
  from new show ?case
  proof
    assume "d_BlockedBy d = []"
    then show ?thesis using ih(1) up by simp
  next
    assume "\<exists>j. length ds = Suc j \<and> d_BlockedBy d = [sc_ids s j]"
    then obtain j where j: "length ds = Suc j" "d_BlockedBy d = [sc_ids s j]" by blast
    then show ?thesis using ih(1) up out [OF j(1)] by auto
  qed
qed simp

lemma clean_snoc:
  "cleanDuties now (ds @ [d]) = cleanDuties now ds @ (if After (AsTime (d_ActiveTime d)) now then [d] else [])"
  by (simp add: cleanDuties_def)

lemma clean_batch_ok:
  assumes "raw_ok s eval ds" "inj (sc_ids s)"
    and late: "\<forall>a \<in> set (ev_Attestation eval). After (AsTime (d_ActiveTime (attestationDuty s eval a []))) now"
  shows "batch_ok (cleanDuties now ds)"
  using assms(1)
proof (induction ds rule: rev_induct)
  case (snoc d ds)
  have r: "raw_ok s eval ds" and dep: "dep_ok s eval (ds @ [d]) (length ds)"
    using snoc.prems by (simp_all add: raw_ok_snoc)
  have "set (d_BlockedBy d) \<subseteq> log_ids (cleanDuties now ds) \<and> distinct (d_BlockedBy d)"
  proof (cases "d_BlockedBy d = []")
    case False
    then obtain j a pr where j: "length ds = Suc j" "a \<in> set (ev_Attestation eval)"
        "(ds @ [d]) ! j = attestationDuty s eval a (sc_ids s j)" "d = aggregationDuty s eval a pr (sc_ids s (length ds)) (sc_ids s j)"
      using dep unfolding dep_ok_def by auto
    have nth: "ds ! j = attestationDuty s eval a (sc_ids s j)"
      using j(1,3) by (simp add: nth_append)
    have "d_ActiveTime (ds ! j) = d_ActiveTime (attestationDuty s eval a [])"
      by (simp add: nth attestationDuty_def)
    moreover have "ds ! j \<in> set ds" using j(1) by (intro nth_mem) simp
    ultimately have "ds ! j \<in> set (cleanDuties now ds)"
      using late j(2) by (simp add: cleanDuties_def)
    then have "sc_ids s j \<in> log_ids (cleanDuties now ds)"
      unfolding nth by (metis duty_ids(3) imageI)
    then show ?thesis using j(4) by simp
  qed simp
  moreover have "set (d_BlockedBy d) \<inter> (\<Union>e \<in> set (cleanDuties now ds). set (d_BlockedBy e)) = {}"
  proof -
    have "set (concat (map d_BlockedBy ds)) \<inter> set (d_BlockedBy d) = {}"
      using raw_deps_distinct [OF snoc.prems assms(2)] by simp
    moreover have "set (cleanDuties now ds) \<subseteq> set ds" by (auto simp: cleanDuties_def)
    ultimately show ?thesis by fastforce
  qed
  ultimately show ?case
    using snoc.IH [OF r] by (simp add: clean_snoc batch_ok_snoc)
qed (simp add: cleanDuties_def batch_ok_def)

lemma finish_frame [simp]:
  "d_Id (finishDuty cfg eval d) = d_Id d" "d_BlockedBy (finishDuty cfg eval d) = d_BlockedBy d"
  "d_ActiveTime (finishDuty cfg eval d) = d_ActiveTime d" "d_Job (finishDuty cfg eval d) = d_Job d"
  by (simp_all add: finishDuty_def)

lemma batch_ok_finish: "batch_ok (map (finishDuty cfg eval) ds) = batch_ok ds"
proof -
  have "d_BlockedBy \<circ> finishDuty cfg eval = d_BlockedBy" "\<And>k. log_ids (take k (map (finishDuty cfg eval) ds)) = log_ids (take k ds)"
    by (simp_all add: fun_eq_iff take_map image_image)
  then show ?thesis by (simp add: batch_ok_def)
qed

lemma Process_raw:
  assumes "Process s eval = Ok plan"
  shows "\<exists>ds. raw_ok s eval ds \<and> p_Duties plan = map (finishDuty (sc_config s) eval) (cleanDuties (sc_now s) ds) \<and> allDuties s eval = Ok ds"
  using assms raw_ok_allDuties by (auto simp: Process_def outcome_simps)

lemma Process_distinct:
  assumes "Process s eval = Ok plan" "inj (sc_ids s)"
  shows "distinct (map d_Id (p_Duties plan))"
proof -
  obtain ds where ds: "raw_ok s eval ds" "p_Duties plan = map (finishDuty (sc_config s) eval) (cleanDuties (sc_now s) ds)"
    using Process_raw [OF assms(1)] by blast
  have "map d_Id (p_Duties plan) = map d_Id (cleanDuties (sc_now s) ds)" by (simp add: ds(2))
  then show ?thesis
    using raw_distinct [OF ds(1) assms(2)] by (simp add: cleanDuties_def distinct_map_filter)
qed

lemma Process_batch_ok:
  assumes "Process s eval = Ok plan" "inj (sc_ids s)"
    "\<forall>a \<in> set (ev_Attestation eval). sc_now s < AsTime (d_ActiveTime (attestationDuty s eval a []))"
  shows "batch_ok (p_Duties plan)"
proof -
  obtain ds where ds: "raw_ok s eval ds" "p_Duties plan = map (finishDuty (sc_config s) eval) (cleanDuties (sc_now s) ds)"
    using Process_raw [OF assms(1)] by blast
  then show ?thesis
    using clean_batch_ok [OF ds(1) assms(2)] assms(3) by (simp add: batch_ok_finish After_def)
qed

section \<open>A plan in the queue\<close>


lemma drain_stops:
  assumes "reach ok s"
  shows "\<exists>n s'. (drain ^^ n) s s' \<and> (\<nexists>s''. drain s' s'')"
  using assms
proof (induction "load (sys_q s)" arbitrary: s rule: less_induct)
  case less
  show ?case
  proof (cases "\<exists>u. drain s u")
    case True
    then obtain u where u: "drain s u" by blast
    have "load (sys_q u) < load (sys_q s)" by (rule load_drain [OF reach_inv [OF less.prems] u])
    then obtain n s' where "(drain ^^ n) u s'" "\<nexists>s''. drain s' s''"
      using less.hyps reach_drain [OF less.prems u] by blast
    then have "(drain ^^ Suc n) s s'" using u by (meson relpowp_Suc_I2)
    then show ?thesis using \<open>\<nexists>s''. drain s' s''\<close> by blast
  next
    case False
    moreover have "(drain ^^ 0) s s" by simp
    ultimately show ?thesis by blast
  qed
qed

lemma demo_ids_inj: "inj (sc_ids (demo_Scheduler now))"
  by (rule injI) (metis demo_Scheduler_def length_replicate Scheduler.select_convs(6))

lemma demo_times:
  "AsTime (d_ActiveTime (attestationDuty (demo_Scheduler now) demo_eval (hd (ev_Attestation demo_eval)) i)) = 16000000000"
  "AsTime (d_ActiveTime (aggregationDuty (demo_Scheduler now) demo_eval (hd (ev_Attestation demo_eval)) pr i j)) = 20000000000"
  by (simp_all add: attestationDuty_def aggregationDuty_def demo_Scheduler_def demo_eval_def atSlot_def demo_Spec_def
      time_Add_def Second_def attestationDelay_def attestationAggregationDelay_def slotDuration_def dur_div_def signed_divide_int_def)


lemma appends_addCommittee: "addCommittee s eval c u = Ok v \<Longrightarrow> \<exists>ys. v = u @ ys"
proof -
  assume "addCommittee s eval c u = Ok v"
  then have "ofold (addSyncSlot s eval c) (epochSlots (sc_config s) (ev_Epoch eval)) u = Ok v"
    by (simp add: addCommittee_def)
  then show ?thesis
  proof (rule ofold_extends)
    fix slot u v assume "addSyncSlot s eval c slot u = Ok v"
    then obtain subs where "ofold (addSyncAggregate s eval c slot) subs (u @ [committeeDuty s eval c slot (nextId s u)]) = Ok v"
      by (auto simp: addSyncSlot_def Let_def outcome_simps)
    then have "\<exists>ys. v = (u @ [committeeDuty s eval c slot (nextId s u)]) @ ys"
      by (rule ofold_extends) (auto simp: addSyncAggregate_def outcome_simps split: if_splits)
    then show "\<exists>ys. v = u @ ys" by auto
  qed
qed

lemma aggregator_pair:
  assumes "allDuties s eval = Ok ds" "a \<in> set (ev_Attestation eval)"
    "isAttestatorAggregate s (ev_Epoch eval) (ad_CommitteeLength a) (ad_Slot a) (ad_ValidatorIndex a) = Ok (True, pr)"
  shows "\<exists>j. Suc j < length ds \<and> ds ! j = attestationDuty s eval a (sc_ids s j) \<and>
    ds ! Suc j = aggregationDuty s eval a pr (sc_ids s (Suc j)) (sc_ids s j)"
proof -
  obtain ds1 ds2 where f: "ofold (addAttestation s eval) (ev_Attestation eval) ds1 = Ok ds2"
      "ofold (addCommittee s eval) (ev_Committee eval) ds2 = Ok ds"
    using assms(1) by (auto simp: allDuties_def outcome_simps)
  have "\<exists>ys. v = u @ ys" if "addAttestation s eval b u = Ok v" for b u v
    using that by (auto simp: addAttestation_def Let_def outcome_simps split: if_splits)
  then obtain u v ys where u: "addAttestation s eval a u = Ok v" "ds2 = v @ ys"
    using ofold_member [OF f(1) assms(2)] by blast
  obtain zs where zs: "ds = ds2 @ zs"
    using ofold_extends [OF f(2)] appends_addCommittee by blast
  have v: "v = u @ [attestationDuty s eval a (sc_ids s (length u)),
      aggregationDuty s eval a pr (sc_ids s (Suc (length u))) (sc_ids s (length u))]"
    using u(1) assms(3) by (simp add: addAttestation_def Let_def nextId_def)
  show ?thesis
    by (rule exI [of _ "length u"]) (simp add: zs u(2) v nth_append)
qed

lemma late_plan:
  assumes "Process sch eval = Ok plan" "inj (sc_ids sch)" "a \<in> set (ev_Attestation eval)"
    "isAttestatorAggregate sch (ev_Epoch eval) (ad_CommitteeLength a) (ad_Slot a) (ad_ValidatorIndex a) = Ok (True, pr)"
    "AsTime (d_ActiveTime (attestationDuty sch eval a [])) \<le> sc_now sch"
    "sc_now sch < AsTime (d_ActiveTime (aggregationDuty sch eval a pr [] []))"
  shows "\<exists>d \<in> set (p_Duties plan). \<exists>j. d_BlockedBy d = [sc_ids sch j] \<and> sc_ids sch j \<notin> log_ids (p_Duties plan)"
proof -
  obtain ds where ds: "raw_ok sch eval ds" "allDuties sch eval = Ok ds"
      "p_Duties plan = map (finishDuty (sc_config sch) eval) (cleanDuties (sc_now sch) ds)"
    using Process_raw [OF assms(1)] by blast
  obtain j where j: "Suc j < length ds" "ds ! j = attestationDuty sch eval a (sc_ids sch j)"
      "ds ! Suc j = aggregationDuty sch eval a pr (sc_ids sch (Suc j)) (sc_ids sch j)"
    using aggregator_pair [OF ds(2) assms(3,4)] by blast
  have t: "d_ActiveTime (attestationDuty sch eval a i) = d_ActiveTime (attestationDuty sch eval a [])"
    "d_ActiveTime (aggregationDuty sch eval a pr i k) = d_ActiveTime (aggregationDuty sch eval a pr [] [])" for i k
    by (simp_all add: attestationDuty_def aggregationDuty_def)
  have kept: "ds ! Suc j \<in> set (cleanDuties (sc_now sch) ds)"
  proof -
    have "ds ! Suc j \<in> set ds" using j(1) by (rule nth_mem)
    moreover have "sc_now sch < AsTime (d_ActiveTime (ds ! Suc j))" unfolding j(3) t(2) [of "sc_ids sch (Suc j)" "sc_ids sch j"] by (rule assms(6))
    ultimately show ?thesis by (simp add: cleanDuties_def After_def)
  qed
  have "sc_ids sch j \<notin> log_ids (cleanDuties (sc_now sch) ds)"
  proof
    assume "sc_ids sch j \<in> log_ids (cleanDuties (sc_now sch) ds)"
    then obtain e where e: "e \<in> set ds" "After (AsTime (d_ActiveTime e)) (sc_now sch)" "d_Id e = sc_ids sch j"
      by (auto simp: cleanDuties_def)
    have "ds ! j \<in> set ds" "d_Id (ds ! j) = sc_ids sch j"
      using j(1) by (simp, simp add: j(2))
    then have "e = ds ! j"
      using raw_distinct [OF ds(1) assms(2)] e(1,3) by (metis distinct_map inj_onD)
    then show False using e(2) assms(5) t(1) [of "sc_ids sch j"] j(2) by (simp add: After_def)
  qed
  then have "sc_ids sch j \<notin> log_ids (p_Duties plan)" by (simp add: ds(3) image_image)
  moreover have "finishDuty (sc_config sch) eval (ds ! Suc j) \<in> set (p_Duties plan)" using kept by (simp add: ds(3))
  moreover have "d_BlockedBy (finishDuty (sc_config sch) eval (ds ! Suc j)) = [sc_ids sch j]" using j(3) by simp
  ultimately show ?thesis by blast
qed

text \<open>
  C22: a plan that is made after the time of an attestation and before the time of its aggregation
  holds the aggregation without the attestation; enqueued, that aggregation is blocked by an id that
  no duty has, and it is never handed out.
\<close>

theorem late_plan_orphans_aggregation:
  assumes "Process sch eval = Ok plan" "inj (sc_ids sch)" "a \<in> set (ev_Attestation eval)"
    "isAttestatorAggregate sch (ev_Epoch eval) (ad_CommitteeLength a) (ad_Slot a) (ad_ValidatorIndex a) = Ok (True, pr)"
    "AsTime (d_ActiveTime (attestationDuty sch eval a [])) \<le> sc_now sch"
    "sc_now sch < AsTime (d_ActiveTime (aggregationDuty sch eval a pr [] []))"
    "reach ok s" "\<And>k. sc_ids sch k \<notin> log_ids (sys_log s)"
    "drain\<^sup>*\<^sup>* (enqueue_sys ctx (p_Duties plan) s) s'"
  shows "\<exists>d \<in> set (p_Duties plan). d_BlockedBy d \<noteq> [] \<and> \<not> launched (sys_q s') d"
proof -
  obtain d j where d: "d \<in> set (p_Duties plan)" "d_BlockedBy d = [sc_ids sch j]" "sc_ids sch j \<notin> log_ids (p_Duties plan)"
    using late_plan [OF assms(1-6)] by blast
  let ?s = "enqueue_sys ctx (p_Duties plan) s"
  obtain ds where ds: "raw_ok sch eval ds" "p_Duties plan = map (finishDuty (sc_config sch) eval) (cleanDuties (sc_now sch) ds)"
    using Process_raw [OF assms(1)] by blast
  have "d_Id e \<in> range (sc_ids sch)" if "e \<in> set ds" for e
  proof -
    have "d_Id e \<in> set (map d_Id ds)" using that by simp
    moreover have "map d_Id ds = map (sc_ids sch) [0..<length ds]" using ds(1) by (simp add: raw_ok_def)
    ultimately show ?thesis by (simp only: set_map) blast
  qed
  then have "log_ids (p_Duties plan) \<subseteq> range (sc_ids sch)"
    by (auto simp: ds(2) cleanDuties_def)
  moreover have "range (sc_ids sch) \<inter> log_ids (sys_log s) = {}"
    using assms(8) by (force simp: disjoint_iff)
  ultimately have "log_ids (p_Duties plan) \<inter> log_ids (sys_log s) = {}" by blast
  then have inv: "sys_inv ?s"
    by (rule sys_inv_enqueue [OF reach_inv [OF assms(7)] Process_distinct [OF assms(1,2)]])
  have run: "sys_inv s' \<and> sys_log s' = sys_log ?s"
    using assms(9)
  proof (induction rule: rtranclp_induct)
    case base
    then show ?case using inv by simp
  next
    case (step u v)
    then show ?case using sys_inv_drain [of u v] drain_log [of u v] by simp
  qed
  have log: "sys_log ?s = sys_log s @ p_Duties plan" by (simp add: enqueue_sys_def)
  have "sc_ids sch j \<notin> log_ids (sys_log s')"
    using d(3) assms(8) [of j] run unfolding log by auto
  moreover have "sys_acked s' \<subseteq> log_ids (sys_log s')"
    using sys_invD(4) [of s'] run by blast
  ultimately have "sc_ids sch j \<notin> sys_acked s'" by blast
  moreover have "sc_ids sch j \<in> sys_acked s'" if "launched (sys_q s') d"
    using deps_invD(1) [OF sys_invD(2) that] run d(2) by simp
  ultimately have "\<not> launched (sys_q s') d" by blast
  then show ?thesis using d(1,2) by (intro bexI [of _ d]) simp_all
qed

theorem late_plan_orphans_aggregation_witness:
  "\<exists>plan. Process (demo_Scheduler 17000000000) demo_eval = Ok plan \<and>
    (\<exists>d \<in> set (p_Duties plan). d_BlockedBy d \<noteq> [] \<and>
      \<not> launched (sys_q (enqueue_sys () (p_Duties plan) init_sys)) d)"
proof -
  let ?s = "demo_Scheduler 17000000000" and ?a = "hd (ev_Attestation demo_eval)"
  obtain plan where p: "Process ?s demo_eval = Ok plan" using demo_Process by blast
  have a: "?a \<in> set (ev_Attestation demo_eval)" by (simp add: demo_eval_def)
  have agg: "isAttestatorAggregate ?s (ev_Epoch demo_eval) (ad_CommitteeLength ?a) (ad_Slot ?a) (ad_ValidatorIndex ?a)
      = Ok (True, replicate 96 1)"
    by (simp add: isAttestatorAggregate_def go_div_def demo_Scheduler_def demo_State_def demo_Spec_def demo_eval_def of_le64_def Let_def)
  have now: "sc_now ?s = 17000000000" by (simp add: demo_Scheduler_def)
  have late: "AsTime (d_ActiveTime (attestationDuty ?s demo_eval ?a [])) \<le> sc_now ?s"
    "sc_now ?s < AsTime (d_ActiveTime (aggregationDuty ?s demo_eval ?a (replicate 96 1) [] []))"
    unfolding demo_times now by simp_all
  have fresh: "sc_ids ?s k \<notin> log_ids (sys_log init_sys)" for k by (simp add: init_sys_def)
  have "\<exists>d \<in> set (p_Duties plan). d_BlockedBy d \<noteq> [] \<and> \<not> launched (sys_q (enqueue_sys () (p_Duties plan) init_sys)) d"
    by (rule late_plan_orphans_aggregation [OF p demo_ids_inj a agg late reach_init fresh rtranclp.rtrancl_refl])
  then show ?thesis using p by (intro exI [of _ plan] conjI)
qed

end
