(* ===== verification/StateQueries.thy ===== *)
theory StateQueries
  imports StateProps
begin

text \<open>
  What the queries of validators and the slashing checks of \<open>internal/server/state/state.go\<close> answer,
  in every running state.
\<close>

section \<open>Validators\<close>

lemma as_validators:
  assumes "\<And>obj. obj \<in> set os \<Longrightarrow> \<exists>v. obj = ValidatorObj v"
  shows "\<exists>vs. omap as_validator os = Ok vs \<and> set os = ValidatorObj ` set vs"
  using assms
proof (induction os)
  case (Cons obj os)
  obtain v where v: "obj = ValidatorObj v" using Cons.prems [of obj] by auto
  obtain vs where "omap as_validator os = Ok vs" "set os = ValidatorObj ` set vs"
    using Cons.IH Cons.prems by (meson list.set_intros(2))
  then show ?case by (simp add: v)
qed simp

lemma be64_le: "be64 u \<le> be64 v \<longleftrightarrow> u \<le> v"
  using be64_less [of v u] by (simp add: not_less [symmetric])

lemma less_Suc_epoch:
  fixes e :: uint64
  assumes "e + 1 \<noteq> 0"
  shows "a < e + 1 \<longleftrightarrow> a \<le> e"
proof -
  have "unat (1 + e) = Suc (unat e)" using assms by (intro unatSuc) (simp add: add.commute)
  then show ?thesis by (simp add: word_less_nat_alt word_le_nat_alt add.commute less_Suc_eq_le)
qed

lemma validator_args:
  assumes "field_laws fi"
  shows "ix_FromArgs (is_Indexer \<lparr>is_Unique = b, is_AllowMissing = c, is_Indexer = activeValidatorIndex (UintFieldIndex fi f)\<rparr>)
      [ArgUint64 u] = Ok (be64 u)"
    "ix_FromArgs (is_Indexer \<lparr>is_Unique = b, is_AllowMissing = c, is_Indexer = FieldSetIndex fi f\<rparr>) [ArgBool False] = Ok [0]"
  using assms by (simp_all add: field_laws_def activeValidatorIndex_def activeValidator_FromArgs_def)

lemma validator_lookups_spec:
  assumes run: "running lib rows contents s"
  shows "(\<exists>r. GetValidatorByIndex lib s i = Ok r \<and>
      (case r of
         None \<Rightarrow> \<forall>v md. ValidatorObj v \<in> rows (s_memdb s) validatorsTable \<longrightarrow> v_Metadata v = Some md \<longrightarrow> vm_Index md \<noteq> i
       | Some v \<Rightarrow> ValidatorObj v \<in> rows (s_memdb s) validatorsTable \<and> (\<exists>md. v_Metadata v = Some md \<and> vm_Index md = i))) \<and>
    (\<exists>vs. GetValidatorsPending lib s = Ok vs \<and>
      set vs = {v. ValidatorObj v \<in> rows (s_memdb s) validatorsTable \<and> v_Metadata v = None})"
proof (intro conjI)
  note fields = running_laws(1) [OF run] and query = running_laws(3) [OF run]
  let ?R = "rows (s_memdb s) validatorsTable" and ?K = "index_keys (lib_Fields lib) validatorsTable"
  obtain r where r: "mem_First lib (s_memdb s) validatorsTable ''index'' [ArgUint64 i] = Ok r"
      "case r of None \<Rightarrow> \<forall>obj \<in> ?R. be64 i \<notin> ?K ''index'' obj | Some obj \<Rightarrow> obj \<in> ?R \<and> be64 i \<in> ?K ''index'' obj"
    using query_lawD(1) [OF query index_of_simps(6) validator_args(1) [OF fields]] by blast
  have key: "be64 i \<in> ?K ''index'' (ValidatorObj v) \<longleftrightarrow> (\<exists>md. v_Metadata v = Some md \<and> vm_Index md = i)" for v
    by (auto simp: keys_simps [OF fields] be64_inj split: option.split)
  show "\<exists>r. GetValidatorByIndex lib s i = Ok r \<and>
      (case r of
         None \<Rightarrow> \<forall>v md. ValidatorObj v \<in> ?R \<longrightarrow> v_Metadata v = Some md \<longrightarrow> vm_Index md \<noteq> i
       | Some v \<Rightarrow> ValidatorObj v \<in> ?R \<and> (\<exists>md. v_Metadata v = Some md \<and> vm_Index md = i))"
  proof (cases r)
    case None
    then show ?thesis using r key by (auto simp: GetValidatorByIndex_def)
  next
    case (Some obj)
    then obtain v where "obj = ValidatorObj v" using r(2) validator_row [OF run, of obj] by auto
    then show ?thesis using r key by (simp add: GetValidatorByIndex_def Some)
  qed
  obtain os where os: "mem_Get lib (s_memdb s) validatorsTable ''pending'' [ArgBool False] = Ok os"
      "set os = {obj \<in> ?R. [0] \<in> ?K ''pending'' obj}"
    using query_lawD(2) [OF query index_of_simps(5) validator_args(2) [OF fields]] by blast
  obtain vs where vs: "omap as_validator os = Ok vs" "set os = ValidatorObj ` set vs"
    using as_validators [of os] os(2) validator_row [OF run] by (metis (no_types, lifting) mem_Collect_eq)
  have mem: "v \<in> set vs \<longleftrightarrow> ValidatorObj v \<in> set os" for v by (simp add: vs(2) image_iff)
  have "set vs = {v. ValidatorObj v \<in> ?R \<and> v_Metadata v = None}"
  proof (intro set_eqI)
    fix v
    show "v \<in> set vs \<longleftrightarrow> v \<in> {v. ValidatorObj v \<in> ?R \<and> v_Metadata v = None}"
      by (simp add: mem os(2) keys_simps(2) [OF fields])
  qed
  then show "\<exists>vs. GetValidatorsPending lib s = Ok vs \<and> set vs = {v. ValidatorObj v \<in> ?R \<and> v_Metadata v = None}"
    using os(1) vs(1) by (simp add: GetValidatorsPending_def)
qed

text \<open>
  C38: \<open>GetValidatorByIndex\<close> finds a stored validator with the index if there is one, and
  \<open>GetValidatorsPending\<close> gives exactly the stored validators without metadata.
\<close>

theorem validator_lookups:
  assumes run: "running lib rows contents s"
  shows "(\<exists>r. GetValidatorByIndex lib s i = Ok r \<and>
      (case r of
         None \<Rightarrow> \<forall>v md. ValidatorObj v \<in> rows (s_memdb s) validatorsTable \<longrightarrow> v_Metadata v = Some md \<longrightarrow> vm_Index md \<noteq> i
       | Some v \<Rightarrow> ValidatorObj v \<in> rows (s_memdb s) validatorsTable \<and> (\<exists>md. v_Metadata v = Some md \<and> vm_Index md = i))) \<and>
    (\<exists>vs. GetValidatorsPending lib s = Ok vs \<and>
      set vs = {v. ValidatorObj v \<in> rows (s_memdb s) validatorsTable \<and> v_Metadata v = None})"
  by (rule validator_lookups_spec [OF run])

lemma GetValidatorsActiveAt_spec:
  assumes run: "running lib rows contents s"
  shows "\<exists>vs. GetValidatorsActiveAt lib s e = Ok vs \<and>
    (\<forall>v md. ValidatorObj v \<in> rows (s_memdb s) validatorsTable \<and> v_Metadata v = Some md \<and>
       vm_ActivationEpoch md \<le> e \<and> e + 1 \<noteq> 0 \<longrightarrow> v \<in> set vs) \<and>
    (\<forall>v \<in> set vs. ValidatorObj v \<in> rows (s_memdb s) validatorsTable \<and>
       (\<exists>md. v_Metadata v = Some md \<and> (if e = 0 then vm_ActivationEpoch md = 0 else vm_ActivationEpoch md \<le> e + 1)))"
proof -
  note fields = running_laws(1) [OF run] and query = running_laws(3) [OF run]
  let ?R = "rows (s_memdb s) validatorsTable" and ?K = "index_keys (lib_Fields lib) validatorsTable ''activationEpoch''"
  have K: "?K (ValidatorObj v) = (case v_Metadata v of None \<Rightarrow> {} | Some md \<Rightarrow> {be64 (vm_ActivationEpoch md)})" for v
    by (simp add: keys_simps [OF fields])
  note q = query_lawD [OF query index_of_simps(7) validator_args(1) [OF fields], of "s_memdb s"]
  obtain os where os: "(if e = 0 then mem_Get lib (s_memdb s) validatorsTable ''activationEpoch'' [ArgUint64 0]
        else mem_ReverseLowerBound lib (s_memdb s) validatorsTable ''activationEpoch'' [ArgUint64 (e + 1)]) = Ok os"
      "\<And>v md. ValidatorObj v \<in> ?R \<Longrightarrow> v_Metadata v = Some md \<Longrightarrow> vm_ActivationEpoch md \<le> e \<Longrightarrow> e + 1 \<noteq> 0 \<Longrightarrow> ValidatorObj v \<in> set os"
      "\<And>v. ValidatorObj v \<in> set os \<Longrightarrow> \<exists>md. v_Metadata v = Some md \<and> (if e = 0 then vm_ActivationEpoch md = 0 else vm_ActivationEpoch md \<le> e + 1)"
      "set os \<subseteq> ?R"
  proof (cases "e = 0")
    case True
    obtain os where "mem_Get lib (s_memdb s) validatorsTable ''activationEpoch'' [ArgUint64 0] = Ok os"
        "set os = {obj \<in> ?R. be64 0 \<in> ?K obj}" using q(2) by blast
    then show ?thesis
      by (intro that [of os]) (auto simp: True K be64_inj split: option.splits)
  next
    case False
    obtain os where os: "mem_ReverseLowerBound lib (s_memdb s) validatorsTable ''activationEpoch'' [ArgUint64 (e + 1)] = Ok os"
        "{obj \<in> ?R. \<exists>k \<in> ?K obj. length k = length (be64 (e + 1)) \<and> k < be64 (e + 1)} \<subseteq> set os"
        "\<forall>obj \<in> set os. obj \<in> ?R \<and> (\<exists>k \<in> ?K obj. length k = length (be64 (e + 1)) \<longrightarrow> k \<le> be64 (e + 1))"
      using q(3) by blast
    show ?thesis
    proof (rule that [of os])
      show "ValidatorObj v \<in> set os"
        if "ValidatorObj v \<in> ?R" "v_Metadata v = Some md" "vm_ActivationEpoch md \<le> e" "e + 1 \<noteq> 0" for v md
        using os(2) that by (auto simp: K be64_less less_Suc_epoch)
      show "\<exists>md. v_Metadata v = Some md \<and> (if e = 0 then vm_ActivationEpoch md = 0 else vm_ActivationEpoch md \<le> e + 1)"
        if "ValidatorObj v \<in> set os" for v
        using os(3) that False by (fastforce simp: K be64_le split: option.splits)
    qed (use os(1,3) False in auto)
  qed
  obtain vs where vs: "omap as_validator os = Ok vs" "set os = ValidatorObj ` set vs"
    using as_validators [of os] os(4) validator_row [OF run] by (metis subset_iff)
  have mem: "v \<in> set vs \<longleftrightarrow> ValidatorObj v \<in> set os" for v by (simp add: vs(2) image_iff)
  show ?thesis
  proof (intro exI [of _ vs] conjI allI impI ballI)
    show "GetValidatorsActiveAt lib s e = Ok vs" using os(1) vs(1) by (simp add: GetValidatorsActiveAt_def)
    show "v \<in> set vs"
      if "ValidatorObj v \<in> ?R \<and> v_Metadata v = Some md \<and> vm_ActivationEpoch md \<le> e \<and> e + 1 \<noteq> 0" for v md
      unfolding mem using os(2) that by blast
    fix v assume "v \<in> set vs"
    then have v: "ValidatorObj v \<in> set os" by (simp only: mem)
    show "ValidatorObj v \<in> ?R" using v os(4) by blast
    show "\<exists>md. v_Metadata v = Some md \<and> (if e = 0 then vm_ActivationEpoch md = 0 else vm_ActivationEpoch md \<le> e + 1)"
      using os(3) [OF v] .
  qed
qed

text \<open>
  C39: \<open>GetValidatorsActiveAt\<close> returns every stored validator whose activation epoch is at most the
  epoch and none whose activation epoch is past the next one; at epoch zero the answer is exact.  At
  the greatest epoch the bound wraps around to zero and active validators are lost.
\<close>

theorem GetValidatorsActiveAt_bounds:
  assumes run: "running lib rows contents s"
  shows "\<exists>vs. GetValidatorsActiveAt lib s e = Ok vs \<and>
    (\<forall>v md. ValidatorObj v \<in> rows (s_memdb s) validatorsTable \<and> v_Metadata v = Some md \<and>
       vm_ActivationEpoch md \<le> e \<and> e + 1 \<noteq> 0 \<longrightarrow> v \<in> set vs) \<and>
    (\<forall>v \<in> set vs. ValidatorObj v \<in> rows (s_memdb s) validatorsTable \<and>
       (\<exists>md. v_Metadata v = Some md \<and> (if e = 0 then vm_ActivationEpoch md = 0 else vm_ActivationEpoch md \<le> e + 1)))"
  by (rule GetValidatorsActiveAt_spec [OF run])

theorem validator_lookups_witness:
  "\<exists>v. GetValidatorByIndex demo_lib demo_s2 7 = Ok (Some v) \<and> ValidatorObj v \<in> ref_rows (s_memdb demo_s2) validatorsTable"
proof -
  have "ValidatorObj demo_val \<in> ref_rows (s_memdb demo_s2) validatorsTable" "v_Metadata demo_val = Some \<lparr>vm_Index = 7, vm_ActivationEpoch = 3\<rparr>"
    by (simp_all add: ref_rows_def demo_s2_def demo_val_def)
  moreover obtain r where "GetValidatorByIndex demo_lib demo_s2 7 = Ok r"
      "case r of
         None \<Rightarrow> \<forall>v md. ValidatorObj v \<in> ref_rows (s_memdb demo_s2) validatorsTable \<longrightarrow> v_Metadata v = Some md \<longrightarrow> vm_Index md \<noteq> 7
       | Some v \<Rightarrow> ValidatorObj v \<in> ref_rows (s_memdb demo_s2) validatorsTable \<and> (\<exists>md. v_Metadata v = Some md \<and> vm_Index md = 7)"
    using validator_lookups [OF demo_running(3), of 7] by blast
  ultimately show ?thesis by (cases r) auto
qed

theorem GetValidatorsActiveAt_bounds_witness:
  "\<exists>vs. GetValidatorsActiveAt demo_lib demo_s2 5 = Ok vs \<and> demo_val \<in> set vs"
proof -
  have "ValidatorObj demo_val \<in> ref_rows (s_memdb demo_s2) validatorsTable" "v_Metadata demo_val = Some \<lparr>vm_Index = 7, vm_ActivationEpoch = 3\<rparr>"
    by (simp_all add: ref_rows_def demo_s2_def demo_val_def)
  moreover obtain vs where "GetValidatorsActiveAt demo_lib demo_s2 5 = Ok vs"
      "\<forall>v md. ValidatorObj v \<in> ref_rows (s_memdb demo_s2) validatorsTable \<and> v_Metadata v = Some md \<and>
         vm_ActivationEpoch md \<le> 5 \<and> (5 :: uint64) + 1 \<noteq> 0 \<longrightarrow> v \<in> set vs"
    using GetValidatorsActiveAt_bounds [OF demo_running(3), of 5] by blast
  ultimately show ?thesis by fastforce
qed

end
