(* ===== verification/StateStore.thy ===== *)
theory StateStore
  imports StateProps
begin

text \<open>
  The state of \<open>internal/server/state/state.go\<close> as the store of the server: it keeps the promises of
  DutyStore in every state that can be reached.
\<close>

lemma DutyByID_rows:
  assumes "running lib rows contents s" "running lib rows contents s'"
    and "rows (s_memdb s') dutiesTable = rows (s_memdb s) dutiesTable"
  shows "DutyByID lib s' i = DutyByID lib s i"
proof -
  obtain a where a: "DutyByID lib s i = Ok a" "\<forall>d. a = Some d \<longleftrightarrow> DutyObj d \<in> rows (s_memdb s) dutiesTable \<and> d_Id d = i"
    using DutyByID_iff [OF assms(1)] by blast
  obtain b where b: "DutyByID lib s' i = Ok b" "\<forall>d. b = Some d \<longleftrightarrow> DutyObj d \<in> rows (s_memdb s') dutiesTable \<and> d_Id d = i"
    using DutyByID_iff [OF assms(2)] by blast
  have "b = a" by (rule option_eqI) (simp add: a(2) b(2) assms(3))
  then show ?thesis by (simp add: a(1) b(1))
qed

lemma UpsertValidator_duties:
  assumes run: "running lib rows contents s" and up: "UpsertValidator lib s vs = (s', r)"
  shows "running lib rows contents s'" "rows (s_memdb s') dutiesTable = rows (s_memdb s) dutiesTable"
proof -
  show "running lib rows contents s'"
    using state_run.validators [of lib contents s vs] run up by (simp add: running_def)
  show "rows (s_memdb s') dutiesTable = rows (s_memdb s) dutiesTable"
  proof (cases "r = Ok ()")
    case True
    obtain m tx where ok: "ofold (upsert_validator lib) vs (s_memdb s, s_db s) = Ok (m, tx)" "s_memdb s' = m"
      using update_both_cases(1) [OF up [unfolded UpsertValidator_def True]] by blast
    have "(\<lambda>(m, tx). consistent lib rows contents m tx \<and> rows m dutiesTable = rows (s_memdb s) dutiesTable) (m, tx)"
    proof (rule ofold_inv [OF ok(1)])
      fix val u w
      assume u: "(\<lambda>(m, tx). consistent lib rows contents m tx \<and> rows m dutiesTable = rows (s_memdb s) dutiesTable) u"
        and step: "upsert_validator lib val u = Ok w"
      obtain mu txu mw txw where [simp]: "u = (mu, txu)" "w = (mw, txw)" by (cases u, cases w)
      show "(\<lambda>(m, tx). consistent lib rows contents m tx \<and> rows m dutiesTable = rows (s_memdb s) dutiesTable) w"
        using upsert_validator_consistent(1,3) [OF running_laws(1,2,5,6) [OF run], of mu txu val mw txw] u step by simp
    qed (simp add: running_consistent [OF run])
    then show ?thesis using ok(2) by simp
  next
    case False
    then show ?thesis using update_both_cases(2) [OF up [unfolded UpsertValidator_def]] by simp
  qed
qed

interpretation store: server_store "running lib rows contents" "UpsertDuties lib" "DutyByID lib" "UpsertValidator lib"
  for lib :: "('m, 'b) StateLib" and rows :: "'m \<Rightarrow> string \<Rightarrow> raw set" and contents :: "'b \<Rightarrow> bytes \<Rightarrow> bytes \<Rightarrow> bytes option"
proof unfold_locales
  fix s s' :: "('m, 'b) State" and ds r
  assume run: "running lib rows contents s"
  assume up: "UpsertDuties lib s ds = (s', r)"
  show "running lib rows contents s'" by (rule running_UpsertDuties [OF run up])
  show "s' = s" if "r \<noteq> Ok ()" using UpsertDuties_lookup [OF run up] that by simp
next
  fix s s' :: "('m, 'b) State" and ds i
  assume run: "running lib rows contents s" and up: "UpsertDuties lib s ds = (s', Ok ())"
  show "DutyByID lib s' i = (case latest i ds of Some d \<Rightarrow> Ok (Some d) | None \<Rightarrow> DutyByID lib s i)"
    using UpsertDuties_lookup [OF run up] by simp
next
  fix s s' :: "('m, 'b) State" and vs r i
  assume run: "running lib rows contents s" and up: "UpsertValidator lib s vs = (s', r)"
  note u = UpsertValidator_duties [OF run up]
  show "running lib rows contents s'" by (rule u(1))
  show "DutyByID lib s' i = DutyByID lib s i" by (rule DutyByID_rows [OF run u])
qed

end
