(* ===== verification/ServerRuns.thy ===== *)
theory ServerRuns
  imports Server PlanRuns StateQueries StateStore
begin

text \<open>
  Runs of the server (\<open>internal/server/server.go\<close>): the routines that plan epochs, hand out and
  complete duties and look for activated validators, in any interleaving, over the queue and the state.
\<close>

section \<open>Aggregations in a plan\<close>

abbreviation is_attestation :: "Duty \<Rightarrow> bool" where
  "is_attestation d \<equiv> (\<exists>p. d_Job d = Some (Job_Attestation p))"

abbreviation is_aggregation :: "Duty \<Rightarrow> bool" where
  "is_aggregation d \<equiv> (\<exists>p. d_Job d = Some (Job_AttestationAggregate p))"

definition agg_blocked :: "Duty list \<Rightarrow> bool" where
  "agg_blocked ds \<longleftrightarrow> (\<forall>d \<in> set ds. is_aggregation d \<longrightarrow> d_BlockedBy d \<noteq> [])"

lemma agg_blocked_snoc: "agg_blocked (ds @ [d]) \<longleftrightarrow> agg_blocked ds \<and> (is_aggregation d \<longrightarrow> d_BlockedBy d \<noteq> [])"
  by (auto simp: agg_blocked_def)

lemma job_simps [simp]:
  "d_Job (proposalDuty s eval p i) = Some (Job_BlockProposal None)" "is_attestation (attestationDuty s eval a i)"
  "\<not> is_aggregation (attestationDuty s eval a i)"
  "d_Job (committeeDuty s eval c slot i) = Some (Job_SyncCommittee None)"
  "\<not> is_aggregation (syncAggregateDuty s eval c slot index pr i)"
  by (simp_all add: proposalDuty_def attestationDuty_def committeeDuty_def syncAggregateDuty_def)

lemma agg_blocked_addAttestation:
  assumes "agg_blocked u" "addAttestation s eval a u = Ok v"
  shows "agg_blocked v"
proof -
  let ?u = "u @ [attestationDuty s eval a (nextId s u)]"
  obtain pr where "v = ?u \<or> v = ?u @ [aggregationDuty s eval a pr (nextId s ?u) (nextId s u)]"
    using assms(2) by (auto simp: addAttestation_def Let_def outcome_simps split: if_splits)
  then show ?thesis
    using assms(1) agg_blocked_snoc [of u] agg_blocked_snoc [of ?u] by (elim disjE) (simp_all del: append_assoc)
qed

lemma agg_blocked_addSyncSlot:
  assumes "agg_blocked u" "addSyncSlot s eval c slot u = Ok v"
  shows "agg_blocked v"
proof -
  obtain subs where "ofold (addSyncAggregate s eval c slot) subs (u @ [committeeDuty s eval c slot (nextId s u)]) = Ok v"
    using assms(2) by (auto simp: addSyncSlot_def Let_def outcome_simps)
  then show ?thesis
  proof (rule ofold_inv)
    show "agg_blocked (u @ [committeeDuty s eval c slot (nextId s u)])" using assms(1) by (simp add: agg_blocked_snoc)
    show "agg_blocked w" if "agg_blocked x" "addSyncAggregate s eval c slot index x = Ok w" for index x w
      using that by (auto simp: addSyncAggregate_def outcome_simps agg_blocked_snoc split: if_splits)
  qed
qed

lemma agg_blocked_allDuties:
  assumes "allDuties s eval = Ok ds"
  shows "agg_blocked ds"
proof -
  obtain ds1 ds2 where f: "ofold (addProposal s eval) (ev_Proposer eval) [] = Ok ds1"
      "ofold (addAttestation s eval) (ev_Attestation eval) ds1 = Ok ds2"
      "ofold (addCommittee s eval) (ev_Committee eval) ds2 = Ok ds"
    using assms by (auto simp: allDuties_def outcome_simps)
  have "agg_blocked ds1"
    by (rule ofold_inv [OF f(1)]) (auto simp: agg_blocked_def [of "[]"] addProposal_def agg_blocked_snoc)
  then have "agg_blocked ds2"
    by (rule ofold_inv [OF f(2)]) (rule agg_blocked_addAttestation)
  then show ?thesis
    by (rule ofold_inv [OF f(3)]) (auto simp: addCommittee_def intro: ofold_inv agg_blocked_addSyncSlot)
qed

lemma plan_aggregation:
  assumes "Process s eval = Ok plan" "inj (sc_ids s)" "d \<in> set (p_Duties plan)"
  shows "d_Id d \<in> range (sc_ids s)"
    "is_aggregation d \<Longrightarrow> \<exists>dep \<in> range (sc_ids s). d_BlockedBy d = [dep] \<and>
       (\<forall>e \<in> set (p_Duties plan). d_Id e = dep \<longrightarrow> is_attestation e)"
proof -
  obtain ds where ds: "raw_ok s eval ds" "p_Duties plan = map (finishDuty (sc_config s) eval) (cleanDuties (sc_now s) ds)"
      "allDuties s eval = Ok ds"
    using Process_raw [OF assms(1)] by blast
  have member: "\<exists>k < length ds. e = finishDuty (sc_config s) eval (ds ! k) \<and> d_Id e = sc_ids s k" if e: "e \<in> set (p_Duties plan)" for e
  proof -
    obtain x where x: "x \<in> set ds" "e = finishDuty (sc_config s) eval x" using e by (auto simp: ds(2) cleanDuties_def)
    then obtain k where "k < length ds" "x = ds ! k" by (metis in_set_conv_nth)
    moreover have "d_Id (ds ! k) = sc_ids s k" if "k < length ds" for k
      using ds(1) that by (metis add_0 diff_zero length_map length_upt nth_map nth_upt raw_ok_def)
    ultimately show ?thesis using x by auto
  qed
  obtain k where k: "k < length ds" "d = finishDuty (sc_config s) eval (ds ! k)" "d_Id d = sc_ids s k"
    using member [OF assms(3)] by blast
  then show "d_Id d \<in> range (sc_ids s)" by simp
  assume "is_aggregation d"
  then have "d_BlockedBy (ds ! k) \<noteq> []"
    using agg_blocked_allDuties [OF ds(3)] k by (auto simp: agg_blocked_def)
  then obtain j a pr where j: "k = Suc j" "ds ! j = attestationDuty s eval a (sc_ids s j)"
      "ds ! k = aggregationDuty s eval a pr (sc_ids s k) (sc_ids s j)"
    using ds(1) k(1) unfolding raw_ok_def dep_ok_def by blast
  have "is_attestation e" if e: "e \<in> set (p_Duties plan)" "d_Id e = sc_ids s j" for e
  proof -
    obtain m where m: "e = finishDuty (sc_config s) eval (ds ! m)" "d_Id e = sc_ids s m" using member [OF e(1)] by blast
    then have "m = j" using e(2) assms(2) by (metis injD)
    then show ?thesis using m(1) j(2) job_simps(2) [of s eval a "sc_ids s j"] by simp
  qed
  then show "\<exists>dep \<in> range (sc_ids s). d_BlockedBy d = [dep] \<and> (\<forall>e \<in> set (p_Duties plan). d_Id e = dep \<longrightarrow> is_attestation e)"
    using j(3) k(2) by auto
qed

section \<open>Runs\<close>

text \<open>
  The state of a run: the server, with its queue also seen as the system of QueueRuns (which keeps the
  duties enqueued and acknowledged), and the ids generated so far.  The steps are the turns of the
  routines that do not panic, in any order.  \<open>complete\<close> takes the result of a handler that ran on any
  state of the node and of the server, since handlers run next to the other routines; the ids of a
  plan are new.
\<close>

inductive server_run :: "('m, 'b, 'key) ServerLib \<Rightarrow> ('b \<Rightarrow> bytes \<Rightarrow> bytes \<Rightarrow> bytes option) \<Rightarrow> ('m, 'b) Server \<Rightarrow>
    unit qsys \<Rightarrow> string set \<Rightarrow> bool" for lib contents where
  start: "state_run (lib_State lib) contents (srv_state v) \<Longrightarrow> srv_evalQueue v = NewEvalQueue \<Longrightarrow>
    server_run lib contents v init_sys {}"
| epoch: "server_run lib contents v sys used \<Longrightarrow> HandleEpoch (NewScheduler lib v env) e = Ok plan \<Longrightarrow>
    inj (pe_ids env) \<Longrightarrow> range (pe_ids env) \<inter> used = {} \<Longrightarrow> handleNewEpoch lib v env e = (v', r) \<Longrightarrow> (\<forall>p. r \<noteq> Panic p) \<Longrightarrow>
    server_run lib contents v' (enqueue_sys () (p_Duties plan) sys) (used \<union> range (pe_ids env))"
| timer: "server_run lib contents v sys used \<Longrightarrow> dh_abs (q_delayHeap (srv_evalQueue v)) (d_Id d) = Some (d, t) \<Longrightarrow>
    server_run lib contents (v\<lparr>srv_evalQueue := fire_delayed d (srv_evalQueue v)\<rparr>) (sys\<lparr>sys_q := fire_delayed d (srv_evalQueue v)\<rparr>) used"
| worker: "server_run lib contents v sys used \<Longrightarrow> runWorker v = (v', Ok (Some d)) \<Longrightarrow>
    server_run lib contents v' (sys\<lparr>sys_q := srv_evalQueue v'\<rparr>) used"
| complete: "server_run lib contents v sys used \<Longrightarrow> q_unack (srv_evalQueue v) (d_Id d) = Some d \<Longrightarrow>
    snd (Handle dutyLogic d) = Ok res \<Longrightarrow> completeDuty lib v d res = (v', Ok ()) \<Longrightarrow>
    server_run lib contents v' (ack_sys (d_Id d) sys) used"
| lifecycle: "server_run lib contents v sys used \<Longrightarrow> validatorLifecycle lib v = (v', Ok ()) \<Longrightarrow>
    server_run lib contents v' sys used"

definition result_stored :: "('m, 'b, 'key) ServerLib \<Rightarrow> ('m, 'b) Server \<Rightarrow> string \<Rightarrow> bool" where
  "result_stored lib v i \<longleftrightarrow>
     (\<exists>a r at. srv_DutyByID lib v i = Ok (Some a) \<and> d_Result a = Some r \<and> res_Attestation r = Some at)"

definition deps_typed :: "Duty list \<Rightarrow> string set \<Rightarrow> bool" where
  "deps_typed log used \<longleftrightarrow> log_ids log \<subseteq> used \<and>
     (\<forall>d \<in> set log. is_aggregation d \<longrightarrow> (\<exists>dep \<in> used. d_BlockedBy d = [dep] \<and>
        (\<forall>e \<in> set log. d_Id e = dep \<longrightarrow> is_attestation e)))"

definition server_inv :: "('m, 'b, 'key) ServerLib \<Rightarrow> ('b \<Rightarrow> bytes \<Rightarrow> bytes \<Rightarrow> bytes option) \<Rightarrow> ('m, 'b) Server \<Rightarrow>
    unit qsys \<Rightarrow> string set \<Rightarrow> bool" where
  "server_inv lib contents v sys used \<longleftrightarrow>
     sys_q sys = srv_evalQueue v \<and> reach (\<lambda>_. True) sys \<and> state_run (lib_State lib) contents (srv_state v) \<and>
     deps_typed (sys_log sys) used \<and>
     (\<forall>e \<in> set (sys_log sys). d_Id e \<in> sys_acked sys \<and> is_attestation e \<longrightarrow> result_stored lib v (d_Id e))"

lemma deps_typed_plan:
  assumes typed: "deps_typed log used" and plan: "Process s eval = Ok plan" "inj (sc_ids s)" "range (sc_ids s) \<inter> used = {}"
  shows "deps_typed (log @ p_Duties plan) (used \<union> range (sc_ids s))" "log_ids (p_Duties plan) \<inter> log_ids log = {}"
proof -
  have new: "d_Id d \<in> range (sc_ids s)" if "d \<in> set (p_Duties plan)" for d
    by (rule plan_aggregation(1) [OF plan(1,2) that])
  have old: "d_Id d \<in> used" if "d \<in> set log" for d using typed that by (auto simp: deps_typed_def)
  show "log_ids (p_Duties plan) \<inter> log_ids log = {}"
  proof (rule equals0I)
    fix x assume "x \<in> log_ids (p_Duties plan) \<inter> log_ids log"
    then have "x \<in> range (sc_ids s)" "x \<in> used" using new old by (elim IntE imageE; simp)+
    then show False using plan(3) by (metis IntI empty_iff)
  qed
  have "\<exists>dep \<in> used \<union> range (sc_ids s). d_BlockedBy d = [dep] \<and>
      (\<forall>e \<in> set (log @ p_Duties plan). d_Id e = dep \<longrightarrow> is_attestation e)"
    if d: "d \<in> set (log @ p_Duties plan)" "is_aggregation d" for d
  proof (cases "d \<in> set log")
    case True
    then obtain dep where dep: "dep \<in> used" "d_BlockedBy d = [dep]" "\<forall>e \<in> set log. d_Id e = dep \<longrightarrow> is_attestation e"
      using typed d(2) by (auto simp: deps_typed_def)
    moreover have "\<forall>e \<in> set (p_Duties plan). d_Id e \<noteq> dep" using new plan(3) dep(1) by (metis IntI empty_iff)
    ultimately show ?thesis by auto
  next
    case False
    then have "d \<in> set (p_Duties plan)" using d(1) by simp
    then obtain dep where dep: "dep \<in> range (sc_ids s)" "d_BlockedBy d = [dep]"
        "\<forall>e \<in> set (p_Duties plan). d_Id e = dep \<longrightarrow> is_attestation e"
      using plan_aggregation(2) [OF plan(1,2) _ d(2)] by blast
    moreover have "\<forall>e \<in> set log. d_Id e \<noteq> dep" using old plan(3) dep(1) by (metis IntI empty_iff)
    ultimately show ?thesis by auto
  qed
  then show "deps_typed (log @ p_Duties plan) (used \<union> range (sc_ids s))"
    using typed new by (auto simp: deps_typed_def)
qed

section \<open>What the steps keep\<close>

definition lib_laws :: "('m, 'b, 'key) ServerLib \<Rightarrow> ('m \<Rightarrow> string \<Rightarrow> raw set) \<Rightarrow> ('b \<Rightarrow> bytes \<Rightarrow> bytes \<Rightarrow> bytes option) \<Rightarrow> bool" where
  "lib_laws lib rows contents \<longleftrightarrow>
     memdb_laws (lib_State lib) rows \<and> bolt_laws (lib_State lib) contents \<and> codec_laws (lib_State lib)"

lemma runningI: "lib_laws lib rows contents \<Longrightarrow> state_run (lib_State lib) contents s \<Longrightarrow> running (lib_State lib) rows contents s"
  by (simp add: running_def lib_laws_def)

lemma attestation_result:
  assumes "d_Job d = Some (Job_Attestation p)" "snd (Handle dl d) = Ok res"
  shows "\<exists>r at. res = Some r \<and> res_Attestation r = Some at"
  using assms by (auto simp: Handle_Ok to_some_def runSingleAttestation_def act_simps Let_def)

lemma runWorker_Some:
  assumes "runWorker v = (v', Ok (Some d))"
  shows "\<exists>ctx q. Dequeue (srv_evalQueue v) = (Some (Ok (d, ctx)), q) \<and> v' = v\<lparr>srv_evalQueue := q\<rparr>"
  using assms by (auto simp: runWorker_def outcome_simps split: prod.splits option.splits outcome.splits)

lemma completeDuty_Ok:
  assumes "completeDuty lib v d res = (v', Ok ())"
  shows "\<exists>s. UpsertDuties (lib_State lib) (srv_state v) [d\<lparr>d_Result := res, d_State := Duty_COMPLETE\<rparr>] = (s, Ok ()) \<and>
    v' = v\<lparr>srv_state := s, srv_evalQueue := snd (snd (Ack (d_Id d) (srv_evalQueue v)))\<rparr>"
  using assms by (auto simp: completeDuty_def UpsertDuty_def split: prod.splits outcome.splits)

lemma handleNewEpoch_Ok:
  assumes "HandleEpoch (NewScheduler lib v env) e = Ok plan" "handleNewEpoch lib v env e = (v', r)" "\<forall>p. r \<noteq> Panic p"
  shows "\<exists>s. UpsertDuties (lib_State lib) (srv_state v) (p_Duties plan) = (s, r) \<and>
    v' = v\<lparr>srv_state := s, srv_evalQueue := snd (Enqueue () (p_Duties plan) (srv_evalQueue v))\<rparr>"
proof -
  have "type_counts m ds \<noteq> Err err" for m ds err
    by (induction ds arbitrary: m) (auto simp: outcome_simps Duty_Type_def split: option.splits isDuty_Job.splits)
  then have "Plan_GoPrint (pe_types env) plan \<noteq> Err err" for err by (simp add: Plan_GoPrint_def Let_def outcome_simps)
  then show ?thesis using assms
    by (auto simp: handleNewEpoch_def outcome_simps Let_def split: outcome.splits prod.splits)
qed

lemma HandleEpoch_Process: "HandleEpoch s e = Ok plan \<Longrightarrow> \<exists>eval. Process s eval = Ok plan"
  by (auto simp: HandleEpoch_def outcome_simps Let_def)

lemma server_invD:
  assumes "server_inv lib contents v sys used"
  shows "sys_q sys = srv_evalQueue v" "reach (\<lambda>_. True) sys" "state_run (lib_State lib) contents (srv_state v)"
    "deps_typed (sys_log sys) used"
    "e \<in> set (sys_log sys) \<Longrightarrow> d_Id e \<in> sys_acked sys \<Longrightarrow> is_attestation e \<Longrightarrow> result_stored lib v (d_Id e)"
  using assms unfolding server_inv_def by blast+

lemma inv_queue_step:
  assumes "server_inv lib contents v sys used" "drain sys (sys\<lparr>sys_q := q\<rparr>)"
  shows "server_inv lib contents (v\<lparr>srv_evalQueue := q\<rparr>) (sys\<lparr>sys_q := q\<rparr>) used"
  using assms reach_drain [OF server_invD(2) [OF assms(1)] assms(2)]
  by (simp add: server_inv_def result_stored_def srv_DutyByID_def)

lemma inv_lifecycle:
  assumes laws: "lib_laws lib rows contents" and inv: "server_inv lib contents v sys used"
    and step: "validatorLifecycle lib v = (v', Ok ())"
  shows "server_inv lib contents v' sys used"
proof -
  note run = runningI [OF laws server_invD(3) [OF inv]]
  obtain vs s r where s: "UpsertValidator (lib_State lib) (srv_state v) vs = (s, r)" "v' = v\<lparr>srv_state := s\<rparr>"
    using step by (auto simp: validatorLifecycle_def Let_def split: outcome.splits prod.splits)
  have "DutyByID (lib_State lib) s i = DutyByID (lib_State lib) (srv_state v) i" for i
    by (rule store.get_register [OF run s(1)])
  then show ?thesis
    using inv store.register_inv [OF run s(1)] by (simp add: server_inv_def result_stored_def srv_DutyByID_def s(2) running_def)
qed

lemma inv_epoch:
  assumes laws: "lib_laws lib rows contents" and inv: "server_inv lib contents v sys used"
    and plan: "HandleEpoch (NewScheduler lib v env) e = Ok plan" "inj (pe_ids env)" "range (pe_ids env) \<inter> used = {}"
    and step: "handleNewEpoch lib v env e = (v', r)" "\<forall>p. r \<noteq> Panic p"
  shows "server_inv lib contents v' (enqueue_sys () (p_Duties plan) sys) (used \<union> range (pe_ids env))"
proof -
  note i = server_invD [OF inv] and run = runningI [OF laws server_invD(3) [OF inv]]
  have ids [simp]: "sc_ids (NewScheduler lib v env) = pe_ids env" by (simp add: NewScheduler_def)
  obtain eval where eval: "Process (NewScheduler lib v env) eval = Ok plan" using HandleEpoch_Process [OF plan(1)] by blast
  note typed = deps_typed_plan [OF i(4) eval, unfolded ids, OF plan(2,3)]
  have dist: "distinct (map d_Id (p_Duties plan))" using Process_distinct [OF eval] plan(2) by simp
  obtain s where s: "UpsertDuties (lib_State lib) (srv_state v) (p_Duties plan) = (s, r)"
      "v' = v\<lparr>srv_state := s, srv_evalQueue := snd (Enqueue () (p_Duties plan) (srv_evalQueue v))\<rparr>"
    using handleNewEpoch_Ok [OF plan(1) step] by blast
  have acked: "sys_acked sys \<subseteq> log_ids (sys_log sys)" using sys_invD(4) [OF reach_inv [OF i(2)]] by simp
  have same: "DutyByID (lib_State lib) s k = DutyByID (lib_State lib) (srv_state v) k" if "k \<in> sys_acked sys" for k
    by (rule store.get_kept [OF run s(1)]) (use that acked typed(2) in blast)
  have "result_stored lib v' (d_Id d)" if d: "d \<in> set (sys_log sys @ p_Duties plan)" "d_Id d \<in> sys_acked sys" "is_attestation d" for d
  proof -
    have "d \<notin> set (p_Duties plan)" using d(2) acked typed(2) by blast
    then have "result_stored lib v (d_Id d)" using i(5) d by simp
    then show ?thesis using same [OF d(2)] by (simp add: result_stored_def srv_DutyByID_def s(2))
  qed
  moreover have "reach (\<lambda>_. True) (enqueue_sys () (p_Duties plan) sys)"
    by (rule reach_enqueue [OF i(2) TrueI dist typed(2)])
  moreover have "state_run (lib_State lib) contents s"
    using state_run.duties [OF i(3), of "p_Duties plan"] by (simp add: s(1))
  ultimately show ?thesis
    using typed(1) by (simp add: server_inv_def s(2) enqueue_sys_def i(1))
qed

lemma inv_complete:
  assumes laws: "lib_laws lib rows contents" and inv: "server_inv lib contents v sys used"
    and d: "q_unack (srv_evalQueue v) (d_Id d) = Some d" and h: "snd (Handle dl d) = Ok res"
    and step: "completeDuty lib v d res = (v', Ok ())"
  shows "server_inv lib contents v' (ack_sys (d_Id d) sys) used"
proof -
  note i = server_invD [OF inv] and run = runningI [OF laws server_invD(3) [OF inv]]
  let ?d = "d\<lparr>d_Result := res, d_State := Duty_COMPLETE\<rparr>"
  obtain s where s: "UpsertDuties (lib_State lib) (srv_state v) [?d] = (s, Ok ())"
      "v' = v\<lparr>srv_state := s, srv_evalQueue := snd (snd (Ack (d_Id d) (srv_evalQueue v)))\<rparr>"
    using completeDuty_Ok [OF step] by blast
  have look: "srv_DutyByID lib v' k = (if k = d_Id d then Ok (Some ?d) else srv_DutyByID lib v k)" for k
    using store.get_put_one [OF run s(1)] by (simp add: srv_DutyByID_def s(2))
  have "launched (sys_q sys) d" using d by (auto simp: launched_def i(1))
  then have log: "d \<in> set (sys_log sys)" using reach_held [OF i(2)] by (simp add: held_def)
  have "distinct (map d_Id (sys_log sys))" using sys_invD(5) [OF reach_inv [OF i(2)]] .
  then have only: "e = d" if "e \<in> set (sys_log sys)" "d_Id e = d_Id d" for e
    using that log by (metis distinct_map inj_onD)
  have "result_stored lib v' (d_Id e)"
    if e: "e \<in> set (sys_log sys)" "d_Id e \<in> insert (d_Id d) (sys_acked sys)" "is_attestation e" for e
  proof (cases "d_Id e = d_Id d")
    case True
    then have "is_attestation d" using only [OF e(1)] e(3) by simp
    then show ?thesis using attestation_result [OF _ h] look True by (auto simp: result_stored_def)
  next
    case False
    then have "result_stored lib v (d_Id e)" using i(5) e by simp
    then show ?thesis using False look by (simp add: result_stored_def)
  qed
  moreover have "reach (\<lambda>_. True) (ack_sys (d_Id d) sys)"
    by (rule reach_drain [OF i(2) drain_ack]) (use d i(1) in simp)
  moreover have "state_run (lib_State lib) contents s"
    using state_run.duties [OF i(3), of "[?d]"] by (simp add: s(1))
  ultimately show ?thesis
    using i(1,4) d by (simp add: server_inv_def ack_sys_def s(2))
qed

lemma server_run_inv:
  assumes laws: "lib_laws lib rows contents" and "server_run lib contents v sys used"
  shows "server_inv lib contents v sys used"
  using assms(2)
proof (induction rule: server_run.induct)
  case (start v)
  then show ?case by (simp add: server_inv_def reach_init deps_typed_def) (simp add: init_sys_def)
next
  case (epoch v sys used env e plan v' r)
  show ?case by (rule inv_epoch [OF laws epoch.IH epoch.hyps(2-6)])
next
  case (timer v sys used d t)
  have "drain sys (sys\<lparr>sys_q := fire_delayed d (sys_q sys)\<rparr>)"
    by (rule drain_fire) (use timer.hyps server_invD(1) [OF timer.IH] in simp)
  then show ?case using inv_queue_step [OF timer.IH] server_invD(1) [OF timer.IH] by simp
next
  case (worker v sys used v' d)
  obtain ctx q where q: "Dequeue (srv_evalQueue v) = (Some (Ok (d, ctx)), q)" "v' = v\<lparr>srv_evalQueue := q\<rparr>"
    using runWorker_Some [OF worker.hyps(2)] by blast
  have "drain sys (sys\<lparr>sys_q := q\<rparr>)"
    by (rule drain_dequeue) (use q(1) server_invD(1) [OF worker.IH] in simp)
  then show ?case using inv_queue_step [OF worker.IH] q(2) by simp
next
  case (complete v sys used d dutyLogic res v')
  show ?case by (rule inv_complete [OF laws complete.IH complete.hyps(2-4)])
next
  case (lifecycle v sys used v')
  show ?case by (rule inv_lifecycle [OF laws lifecycle.IH lifecycle.hyps(2)])
qed


end
