(* ===== verification/ServerDemo.thy ===== *)
theory ServerDemo
  imports ServerRuns
begin

text \<open>
  A server that runs: one registered validator, a node that gives it one attestation whose aggregation
  it wins, and the reference store of RefStore.  The witnesses of the properties of ServerRuns use it.
\<close>

section \<open>A duty and the one that waits for it, through the queue\<close>

lemma pair_queue:
  fixes a b :: Duty
  assumes a: "d_BlockedBy a = []" and b: "d_BlockedBy b = [d_Id a]" and ne: "d_Id a \<noteq> d_Id b"
  defines "q0 \<equiv> snd (Enqueue () [a, b] NewEvalQueue)"
  defines "q2 \<equiv> snd (Dequeue (fire_delayed a q0))"
  defines "q3 \<equiv> snd (snd (Ack (d_Id a) q2))"
  shows "dh_abs (q_delayHeap q0) (d_Id a) = Some (a, duty_time a)"
    "fst (Dequeue (fire_delayed a q0)) = Some (Ok (a, ()))" "q_unack q2 (d_Id a) = Some a"
    "dh_abs (q_delayHeap q3) (d_Id b) = Some (b, duty_time b)"
    "fst (Dequeue (fire_delayed b q3)) = Some (Ok (b, ()))"
proof -
  have q0: "q0 = enqueue_one () b (enqueue_one () a NewEvalQueue)" by (simp add: q0_def Enqueue_def)
  have new: "dh_inv d_Id (q_delayHeap (NewEvalQueue :: unit DutyQueue))" "d_Id a \<notin> waiting_ids (NewEvalQueue :: unit DutyQueue)"
    by (simp_all add: waiting_ids_def new_queue_heap)
  have heap: "q_delayHeap q0 = q_delayHeap (push_delayed a (NewEvalQueue :: unit DutyQueue))"
    by (simp add: q0 enqueue_one_def enqueue_free_def enqueue_blocked_def Let_def a b)
  note h0 = push_delayed_heap(1,2) [OF new, folded heap]
  show w0: "dh_abs (q_delayHeap q0) (d_Id a) = Some (a, duty_time a)" by (simp add: h0(2))
  have f0: "q_ready q0 = []" "q_unack q0 = Map.empty" "q_ctxMap q0 = [d_Id a \<mapsto> (), d_Id b \<mapsto> ()]"
    "q_blocked q0 = [d_Id b \<mapsto> \<lparr>bd_Duty = b, bd_Blocked = {d_Id a}\<rparr>]" "q_reverse q0 = [d_Id a \<mapsto> [d_Id b]]"
    by (simp_all add: q0 enqueue_one_def enqueue_free_def enqueue_blocked_def Let_def NewEvalQueue_def a b add_reverse_def)
  let ?q1 = "fire_delayed a q0"
  have "d_Id a \<in> waiting_ids q0" using w0 by (auto simp: waiting_ids_def)
  note h1 = fire_delayed_heap(1,2) [OF h0(1) this]
  show "fst (Dequeue ?q1) = Some (Ok (a, ()))" by (simp add: Dequeue_def Let_def f0 ne)
  have f2: "q_ready q2 = []" "q_unack q2 = [d_Id a \<mapsto> a]" "q_ctxMap q2 = q_ctxMap q0" "q_blocked q2 = q_blocked q0"
    "q_reverse q2 = q_reverse q0" "q_delayHeap q2 = q_delayHeap ?q1"
    by (simp_all add: q2_def Dequeue_def Let_def f0 ne)
  then show u: "q_unack q2 (d_Id a) = Some a" by simp
  let ?b = "\<lparr>bd_Duty = b, bd_Blocked = {d_Id a}\<rparr>"
  have q3: "q3 = release_last (d_Id b) ?b (ack_base (d_Id a) q2)"
    using unblock_one_cases [of "ack_base (d_Id a) q2" "d_Id b" ?b "d_Id a"]
    by (simp add: q3_def Ack_unfold [OF u] f2 f0)
  have "dh_inv d_Id (q_delayHeap q2)" "d_Id b \<notin> waiting_ids q2"
    using h1 h0(2) ne by (simp_all add: f2 waiting_ids_def new_queue_heap)
  then show "dh_abs (q_delayHeap q3) (d_Id b) = Some (b, duty_time b)"
    using push_delayed_heap(2) [of "ack_base (d_Id a) q2\<lparr>q_blocked := x, q_stats := y\<rparr>" b for x y]
    by (simp add: q3 release_last_def ack_base_def waiting_ids_def)
  show "fst (Dequeue (fire_delayed b q3)) = Some (Ok (b, ()))"
    by (simp add: Dequeue_def Let_def q3 release_last_def ack_base_def f2 f0 ne)
qed

section \<open>A server with one validator\<close>

definition run_Api :: Api where
  "run_Api = NullAPI\<lparr>
     api_GetAttesterDuties := \<lambda>_ _. Ok [\<lparr>ad_ValidatorIndex = 7, ad_Slot = 130, ad_CommitteeIndex = 3,
       ad_CommitteeLength = 5, ad_CommitteeAtSlot = 4\<rparr>],
     api_GetProposerDuties := \<lambda>_. Ok [], api_GetCommitteeSyncDuties := \<lambda>_ _. Ok []\<rparr>"

definition run_att :: Duty where
  "run_att = proto_NewDuty\<lparr>d_Id := ''x'', d_Slot := 130, d_Epoch := 4, d_ActiveTime := Some 1564000000000,
     d_Fork := Duty_Phase0, d_State := Duty_PENDING, d_ValidatorIndex := 7, d_Job := Some (Job_Attestation (Some demo_job))\<rparr>"

definition run_agg :: Duty where
  "run_agg = proto_NewDuty\<lparr>d_Id := ''xx'', d_Slot := 130, d_Epoch := 4, d_ActiveTime := Some 1568000000000,
     d_Fork := Duty_Phase0, d_State := Duty_PENDING, d_ValidatorIndex := 7, d_Job := Some (Job_AttestationAggregate (Some \<lparr>agg_SelectionProof = replicate 96 1\<rparr>)),
     d_BlockedBy := [''x'']\<rparr>"

definition run_result :: Duty_Result where
  "run_result = empty_Result\<lparr>res_Attestation := Some \<lparr>ar_Root = [5], ar_Source = Some \<lparr>cp_Root = [1], cp_Epoch = 3\<rparr>,
     ar_Target = Some \<lparr>cp_Root = [2], cp_Epoch = 4\<rparr>\<rparr>\<rparr>"

lemma run_att_Handle: "snd (Handle demo_Logic run_att) = Ok (Some run_result)"
  by (simp add: Handle_def run_defs ask_def perform_def duty_Sign_def demo_Logic_def run_att_def demo_State_def run_result_def
      Duty_GetAttestation_def Duty_GetJob_def demo_job_def proto_NewDuty_def proto_Checkpoint_def demo_data_def)

abbreviation run_done :: Duty where
  "run_done \<equiv> run_att\<lparr>d_Result := Some run_result, d_State := Duty_COMPLETE\<rparr>"

definition run_code :: "(bytes \<times> raw) list" where
  "run_code = [([1], DutyObj run_att), ([2], DutyObj run_agg), ([3], ValidatorObj demo_val), ([4], DutyObj run_done)]"

definition run_lib :: "(ref_mem, ref_bolt, unit) ServerLib" where
  "run_lib = \<lparr>lib_State = ref_lib (\<lambda>_ _. []) run_code, lib_Consensus = du_lib demo_Logic, lib_Client = \<lambda>_. undefined,
     bls_NewKeyFromPriv = \<lambda>_. Ok (), bls_PubKey = \<lambda>_. [170], bls_Sign = \<lambda>_ _. Ok (replicate 96 1),
     lib_ComputeDomain = \<lambda>d f r. Ok (d @ f), lib_SigningRoot = \<lambda>r d. Ok (r @ d), lib_Sum256 = \<lambda>_. replicate 32 0,
     lib_SelectionRoot = \<lambda>_. Ok [], lib_Listen = \<lambda>_. Ok (), lib_Resource = \<lambda>_. Ok [], lib_Exporter = \<lambda>_. Ok [], lib_GitCommit = []\<rparr>"

definition run_s0 :: "(ref_mem, ref_bolt) State" where
  "run_s0 = \<lparr>s_db = (\<lambda>_. [])(validatorsBucket := [(bytes_of_string ''aa'', [3])]),
     s_memdb = (\<lambda>_. [])(validatorsTable := [ValidatorObj demo_val])\<rparr>"

definition run_v0 :: "(ref_mem, ref_bolt) Server" where
  "run_v0 = \<lparr>srv_config = DefaultConfig, srv_state = run_s0, srv_client = run_Api, srv_evalQueue = NewEvalQueue,
     srv_beaconConfig = demo_Spec, srv_genesis = \<lparr>gi_Time = 0, gi_Root = []\<rparr>, srv_grpc = True, srv_routines = Map.empty\<rparr>"

definition run_env :: PlanEnv where
  "run_env = \<lparr>pe_ids = \<lambda>n. replicate (Suc n) (CHR ''x''), pe_order = \<lambda>xs. xs, pe_types = [DutyAttestation, DutyAttestationAggregate], pe_now = 0\<rparr>"

lemma run_ids: "inj (pe_ids run_env)"
  by (rule injI) (metis run_env_def length_replicate PlanEnv.select_convs(1) nat.inject)

lemma run_duties [simp]:
  "d_Id run_att = ''x''" "d_Id run_agg = ''xx''" "d_BlockedBy run_att = []" "d_BlockedBy run_agg = [''x'']"
  "d_Job run_att = Some (Job_Attestation (Some demo_job))"
  "d_Job run_agg = Some (Job_AttestationAggregate (Some \<lparr>agg_SelectionProof = replicate 96 1\<rparr>))"
  "d_Result run_att = None" "d_Result run_agg = None" "d_State run_att = Duty_PENDING"
  by (simp_all add: run_att_def run_agg_def proto_NewDuty_def)

lemma run_code_distinct: "distinct (map fst run_code)"
  by (simp add: run_code_def)

lemma run_laws: "lib_laws run_lib ref_rows ref_contents"
  by (simp add: lib_laws_def run_lib_def ref_memdb_laws ref_bolt_laws ref_codec_laws run_code_distinct)

lemma run_register: "UpsertValidator (lib_State run_lib) demo_s0 [demo_val] = (run_s0, Ok ())"
  by (simp add: UpsertValidator_def upsert_validator_def dbPut_def update_both_def run_lib_def ref_lib_def demo_insertable
      demo_s0_def run_s0_def run_code_def) (simp add: demo_val_def)

lemma run_start: "server_run run_lib ref_contents run_v0 init_sys {}"
proof (rule server_run.start)
  have "NewState (lib_State run_lib) ''new'' = Ok demo_s0"
    by (simp add: run_lib_def NewState_def ref_lib_def reIndex_def indexObject_def demo_s0_def)
  moreover have "bolt_Open (lib_State run_lib) ''new'' = Ok (\<lambda>_. [])" by (simp add: run_lib_def ref_lib_def)
  ultimately have "state_run (lib_State run_lib) ref_contents demo_s0"
    using state_run.fresh [of "lib_State run_lib" "''new''" "\<lambda>_. []" ref_contents demo_s0] by (simp add: ref_contents_def)
  then show "state_run (lib_State run_lib) ref_contents (srv_state run_v0)"
    using state_run.validators [of "lib_State run_lib" ref_contents demo_s0 "[demo_val]"] by (simp add: run_register run_v0_def)
qed (simp add: run_v0_def)

lemma run_val [simp]: "v_Metadata demo_val = Some \<lparr>vm_Index = 7, vm_ActivationEpoch = 3\<rparr>" "v_PrivKey demo_val = ''01''"
  by (simp_all add: demo_val_def)

lemma run_key: "DecodeString ''01'' = Ok [1]"
  by code_simp

lemma run_rows: "s_memdb (srv_state run_v0) = (\<lambda>_. [])(validatorsTable := [ValidatorObj demo_val])"
  by (simp add: run_v0_def run_s0_def)

lemma run_query:
  "mem_First (lib_State run_lib) m validatorsTable ''index'' [ArgUint64 u] =
     Ok (find (\<lambda>obj. be64 u \<in> index_keys ref_fields validatorsTable ''index'' obj) (m validatorsTable))"
  "mem_ReverseLowerBound (lib_State run_lib) m validatorsTable ''activationEpoch'' [ArgUint64 u] =
     Ok (filter (\<lambda>obj. \<exists>k \<in> index_keys ref_fields validatorsTable ''activationEpoch'' obj. k < be64 u) (m validatorsTable))"
  by (simp_all add: run_lib_def ref_lib_def ref_First_def ref_Reverse_def ref_query_def index_of_simps activeValidatorIndex_def
      activeValidator_FromArgs_def ref_fields_def ref_uint_index_def)

lemma run_Sign: "Sign run_lib run_v0 DomainSelectionProofType e 7 root = Ok (replicate 96 1)"
proof -
  have "GetValidatorByIndex (lib_State run_lib) (srv_state run_v0) 7 = Ok (Some demo_val)"
    by (simp add: GetValidatorByIndex_def run_rows run_query index_of_simps keys_simps [OF ref_field_laws])
  then show ?thesis
    by (simp add: Sign_def Let_def domainTypToDomain_def run_lib_def Validator_Key_def run_key del: DecodeString.simps)
qed

lemma run_active: "st_GetValidatorsActiveAt (sc_state (NewScheduler run_lib run_v0 run_env)) 4 = Ok [demo_val]"
  by (simp add: NewScheduler_def srv_SchedState_def srv_GetValidatorsActiveAt_def GetValidatorsActiveAt_def run_rows run_query
      keys_simps [OF ref_field_laws] be64_less)

lemma run_times:
  "time_Add (atSlot demo_Spec 0 130) (attestationDelay demo_Spec) = 1564000000000"
  "time_Add (atSlot demo_Spec 0 130) (attestationAggregationDelay demo_Spec) = 1568000000000"
  by (simp_all add: atSlot_def demo_Spec_def attestationDelay_def attestationAggregationDelay_def slotDuration_def
      time_Add_def Second_def dur_div_def signed_divide_int_def)

lemma run_plan: "HandleEpoch (NewScheduler run_lib run_v0 run_env) 4 = Ok \<lparr>p_Duties = [run_att, run_agg]\<rparr>"
proof -
  let ?s = "NewScheduler run_lib run_v0 run_env"
  have s: "sc_config ?s = demo_Spec" "sc_now ?s = 0" "sc_client ?s = run_Api" "sc_ids ?s n = replicate (Suc n) (CHR ''x'')"
    "sc_Sum256 ?s sig = replicate 32 0" "st_Genesis (sc_state ?s) = 0" for n sig
    by (simp_all add: NewScheduler_def run_v0_def run_env_def run_lib_def srv_SchedState_def srv_Genesis_def Unix_def)
  have sign: "st_Sign (sc_state ?s) DomainSelectionProofType e 7 root = Ok (replicate 96 1)" for e root
    by (simp add: NewScheduler_def srv_SchedState_def run_Sign)
  have spec: "TargetAggregatorsPerCommittee demo_Spec = 16" "duty_fork demo_Spec 4 = Duty_Phase0"
    by (simp_all add: demo_Spec_def duty_fork_def)
  show ?thesis
    by (simp add: HandleEpoch_def run_active s sign spec run_Api_def Process_def allDuties_def addAttestation_def nextId_def Let_def
      isAttestatorAggregate_def go_div_def of_le64_def attestationDuty_def aggregationDuty_def run_times cleanDuties_def
      After_def finishDuty_def run_att_def run_agg_def demo_job_def proto_NewDuty_def)
qed

section \<open>The run\<close>

definition run_s1 :: "(ref_mem, ref_bolt) State" where
  "run_s1 = \<lparr>s_db = (s_db run_s0)(dutiesBucket := [(bytes_of_string ''xx'', [2]), (bytes_of_string ''x'', [1])]),
     s_memdb = (s_memdb run_s0)(dutiesTable := [DutyObj run_att, DutyObj run_agg])\<rparr>"

definition run_s2 :: "(ref_mem, ref_bolt) State" where
  "run_s2 = \<lparr>s_db = (s_db run_s1)(dutiesBucket := (bytes_of_string ''x'', [4]) # s_db run_s1 dutiesBucket),
     s_memdb = (s_memdb run_s1)(dutiesTable := [DutyObj run_agg, DutyObj run_done])\<rparr>"

lemma run_insertable:
  "insertable ref_fields dutiesTable (DutyObj run_att)" "insertable ref_fields dutiesTable (DutyObj run_agg)"
  "insertable ref_fields dutiesTable (DutyObj run_done)"
  by (simp_all add: insertable_def schema_def index_ok_def ref_fields_def ref_string_index_def IndexJob_def IndexJob_FromObject_def
      slashingBlockIndex_def slashingBlock_FromObject_def slashingAttestIndex_def slashingAttest_FromObject_def addCheckpoint_def
      Duty_Type_def duty_type_defs dutiesTable_def validatorsTable_def run_result_def)

lemma run_differ: "run_att \<noteq> run_agg" "run_att \<noteq> run_done" "run_agg \<noteq> run_done" "run_done \<noteq> run_att"
  by (auto dest: arg_cong [of _ _ d_Id] arg_cong [of _ _ d_State])

lemma run_enc:
  "pb_Marshal (lib_State run_lib) (DutyObj run_att) = Ok [1]" "pb_Marshal (lib_State run_lib) (DutyObj run_agg) = Ok [2]"
  "pb_Marshal (lib_State run_lib) (DutyObj run_done) = Ok [4]"
  using run_differ by (simp_all add: run_lib_def ref_lib_def run_code_def)

lemma run_ops:
  "mem_Insert (lib_State run_lib) m t obj = (if insertable ref_fields t obj
     then Ok (m(t := filter (\<lambda>p. raw_id p \<noteq> raw_id obj) (m t) @ [obj])) else Err BadObject)"
  "bolt_Put (lib_State run_lib) tx b k e = Ok (tx(b := (k, e) # tx b))" "bolt_Commit (lib_State run_lib) tx = Ok tx"
  by (simp_all add: run_lib_def ref_lib_def)

lemmas run_upsert = UpsertDuties_def upsert_duty_def dbPut_def update_both_def run_enc run_ops run_insertable

lemma run_store: "UpsertDuties (lib_State run_lib) run_s0 [run_att, run_agg] = (run_s1, Ok ())"
  by (simp add: run_upsert run_s0_def run_s1_def)

lemma run_complete: "UpsertDuty (lib_State run_lib) run_s1 run_done = (run_s2, Ok ())"
  by (simp add: UpsertDuty_def run_upsert run_s1_def run_s2_def run_s0_def)

definition run_v1 :: "(ref_mem, ref_bolt) Server" where
  "run_v1 = run_v0\<lparr>srv_evalQueue := snd (Enqueue () [run_att, run_agg] NewEvalQueue), srv_state := run_s1\<rparr>"

lemma run_epoch: "handleNewEpoch run_lib run_v0 run_env 4 = (run_v1, Ok ())"
proof -
  have "\<exists>x. Plan_GoPrint (pe_types run_env) \<lparr>p_Duties = [run_att, run_agg]\<rparr> = Ok x"
    by (simp add: Plan_GoPrint_def Duty_Type_def duty_type_defs Let_def)
  moreover have "srv_evalQueue run_v0 = NewEvalQueue" "srv_state run_v0 = run_s0" by (simp_all add: run_v0_def)
  ultimately show ?thesis
    by (auto simp: handleNewEpoch_def run_plan Let_def run_store run_v1_def)
qed

definition run_v2 :: "(ref_mem, ref_bolt) Server" where
  "run_v2 = run_v1\<lparr>srv_evalQueue := fire_delayed run_att (srv_evalQueue run_v1)\<rparr>"

definition run_v3 :: "(ref_mem, ref_bolt) Server" where
  "run_v3 = run_v2\<lparr>srv_evalQueue := snd (Dequeue (srv_evalQueue run_v2))\<rparr>"

definition run_v4 :: "(ref_mem, ref_bolt) Server" where
  "run_v4 = run_v3\<lparr>srv_state := run_s2, srv_evalQueue := snd (snd (Ack ''x'' (srv_evalQueue run_v3)))\<rparr>"

definition run_v5 :: "(ref_mem, ref_bolt) Server" where
  "run_v5 = run_v4\<lparr>srv_evalQueue := fire_delayed run_agg (srv_evalQueue run_v4)\<rparr>"

lemma run_queue:
  "dh_abs (q_delayHeap (srv_evalQueue run_v1)) (d_Id run_att) = Some (run_att, duty_time run_att)"
  "runWorker run_v2 = (run_v3, Ok (Some run_att))" "q_unack (srv_evalQueue run_v3) (d_Id run_att) = Some run_att"
  "dh_abs (q_delayHeap (srv_evalQueue run_v4)) (d_Id run_agg) = Some (run_agg, duty_time run_agg)"
  "\<exists>v. runWorker run_v5 = (v, Ok (Some run_agg))"
proof -
  have pair: "d_BlockedBy run_att = []" "d_BlockedBy run_agg = [d_Id run_att]" "d_Id run_att \<noteq> d_Id run_agg" by simp_all
  note p = pair_queue [OF pair]
  have q: "srv_evalQueue run_v1 = snd (Enqueue () [run_att, run_agg] NewEvalQueue)" by (simp add: run_v1_def)
  show "dh_abs (q_delayHeap (srv_evalQueue run_v1)) (d_Id run_att) = Some (run_att, duty_time run_att)"
    "q_unack (srv_evalQueue run_v3) (d_Id run_att) = Some run_att"
    "dh_abs (q_delayHeap (srv_evalQueue run_v4)) (d_Id run_agg) = Some (run_agg, duty_time run_agg)"
    using p(1,3,4) by (simp_all add: q run_v2_def run_v3_def run_v4_def)
  have kinds: "\<exists>t. Duty_Type run_att = Ok t" "\<exists>t. Duty_Type run_agg = Ok t" by (simp_all add: Duty_Type_def)
  show "runWorker run_v2 = (run_v3, Ok (Some run_att))"
    using p(2) kinds(1) by (auto simp: runWorker_def run_v3_def run_v2_def q split: prod.split)
  show "\<exists>v. runWorker run_v5 = (v, Ok (Some run_agg))"
    using p(5) kinds(2) by (auto simp: runWorker_def run_v5_def run_v4_def run_v3_def run_v2_def q split: prod.split)
qed

lemma run_reaches: "\<exists>sys used. server_run run_lib ref_contents run_v5 sys used"
proof -
  have 1: "server_run run_lib ref_contents run_v1 (enqueue_sys () [run_att, run_agg] init_sys) (range (pe_ids run_env))"
    using server_run.epoch [OF run_start run_plan run_ids _ run_epoch] by simp
  obtain s2 where 2: "server_run run_lib ref_contents run_v2 s2 (range (pe_ids run_env))"
    using server_run.timer [OF 1 run_queue(1)] by (auto simp: run_v2_def)
  obtain s3 where 3: "server_run run_lib ref_contents run_v3 s3 (range (pe_ids run_env))"
    using server_run.worker [OF 2 run_queue(2)] by blast
  have "srv_state run_v3 = run_s1" by (simp add: run_v3_def run_v2_def run_v1_def)
  then have "completeDuty run_lib run_v3 run_att (Some run_result) = (run_v4, Ok ())"
    using run_complete by (simp add: completeDuty_def run_v4_def)
  then obtain s4 where 4: "server_run run_lib ref_contents run_v4 s4 (range (pe_ids run_env))"
    using server_run.complete [OF 3 run_queue(3) run_att_Handle] by blast
  show ?thesis
    using server_run.timer [OF 4 run_queue(4)] by (auto simp: run_v5_def)
qed


end
