(* ===== verification/Commands.thy ===== *)
theory Commands
  imports Service Slashing ServerDemo
begin

text \<open>
  The client commands of \<open>internal/cmd\<close>.  A run of a command is its output, the
  files it writes and its exit code.  The flag library, the gRPC connection, the file system and the
  library that aligns columns are parameters, the record \<open>CmdLib\<close>; so is the order in which
  \<open>sort.Slice\<close> leaves elements, since the comparison it is given is not an order.
\<close>

section \<open>Surroundings\<close>

record ValidatorServiceClient =
  vc_GetGenesis :: "Genesis outcome"
  vc_ListDuties :: "ListDutiesRequest \<Rightarrow> ListDutiesResponse outcome"
  vc_ValidatorList :: "ValidatorListResponse outcome"

record Flags =
  fl_address :: string
  fl_export :: bool
  fl_Args :: "string list"

datatype flag_default = StringFlag string | BoolFlag bool

type_synonym FlagSet = "string \<times> (string \<times> flag_default) list"

record CmdLib =
  cl_Parse :: "FlagSet \<Rightarrow> string list \<Rightarrow> Flags outcome"
  cl_Dial :: "string \<Rightarrow> ValidatorServiceClient outcome"
  cl_WriteFile :: "string \<Rightarrow> string \<Rightarrow> unit outcome"
  cl_Columnize :: "string \<Rightarrow> string option \<Rightarrow> string list \<Rightarrow> string"
  cl_Slice :: "(Duty \<Rightarrow> Duty \<Rightarrow> bool) \<Rightarrow> Duty list \<Rightarrow> Duty list"
  cl_Error :: "go_error \<Rightarrow> string"

datatype ui = Output string | Error string | Written string string

text \<open>
  A set of flags holds their defaults; \<open>Columnize\<close> takes the text of empty cells and, unless it is the
  library's own, the text between columns.
\<close>

text \<open>\<open>c.UI.Error(err.Error()); return 1\<close> on an error, else the rest of the run.\<close>

definition or_fail :: "CmdLib \<Rightarrow> 'a outcome \<Rightarrow> ('a \<Rightarrow> (ui list \<times> int) outcome) \<Rightarrow> (ui list \<times> int) outcome" where
  "or_fail lib r f = (case r of Ok x \<Rightarrow> f x | Err e \<Rightarrow> Ok ([Error (cl_Error lib e)], 1) | Panic p \<Rightarrow> Panic p)"

definition Meta_FlagSet :: "string \<Rightarrow> FlagSet" where
  "Meta_FlagSet n = (n, [(''address'', StringFlag ''localhost:4002'')])"

definition ValidatorDuties_Flags :: FlagSet where
  "ValidatorDuties_Flags = (let flags = Meta_FlagSet ''validator duties'' in (fst flags, snd flags @ [(''export'', BoolFlag False)]))"

definition Meta_Conn :: "CmdLib \<Rightarrow> Flags \<Rightarrow> ValidatorServiceClient outcome" where
  "Meta_Conn lib m = wrap_err ''failed to connect to server'' (cl_Dial lib (fl_address m))"

definition formatList :: "CmdLib \<Rightarrow> string list \<Rightarrow> string" where
  "formatList lib rows = cl_Columnize lib ''<none>'' None rows"

definition formatKV :: "CmdLib \<Rightarrow> string list \<Rightarrow> string" where
  "formatKV lib rows = cl_Columnize lib ''<none>'' (Some '' = '') rows"

section \<open>Lists of duties and validators\<close>

definition duty_less :: "Duty \<Rightarrow> Duty \<Rightarrow> bool" where
  "duty_less d0 d1 = (if d_PubKey d0 < d_PubKey d1 then True else if d_Slot d0 < d_Slot d1 then True else False)"

text \<open>A row; \<open>d.Id[:8]\<close> panics for a shorter id.\<close>

definition duty_row_text :: "Duty \<Rightarrow> string outcome" where
  "duty_row_text d =
     (if length (d_Id d) < 8 then Panic ''slice bounds out of range''
      else obind (Duty_Type d) (\<lambda>t. Ok (take 8 (d_Id d) @ ''|'' @ format_uint (d_ValidatorIndex d) @ ''|'' @ t @ ''|'' @
        format_uint (d_Slot d) @ ''|'' @ Duty_State_String (d_State d))))"

definition formatDuties :: "CmdLib \<Rightarrow> Duty list \<Rightarrow> string outcome" where
  "formatDuties lib duties =
     (let sorted = cl_Slice lib duty_less duties in
      if length sorted = 0 then Ok ''No duties found''
      else obind (omap duty_row_text sorted) (\<lambda>rows. Ok (formatList lib (''ID|Validator|Type|Slot|State'' # rows))))"

text \<open>The slice of rows has the length of all validators; the rows after those of the active ones stay empty.\<close>

definition formatValidators :: "CmdLib \<Rightarrow> Validator list \<Rightarrow> string" where
  "formatValidators lib vals =
     (if length vals = 0 then ''No validators found''
      else let activeVals = [md. Some md \<leftarrow> map v_Metadata vals];
               rows = map (\<lambda>md. format_uint (vm_Index md) @ ''|'' @ format_uint (vm_ActivationEpoch md)) activeVals
           in formatList lib (''Validator id|Activation epoch'' # rows @ replicate (length vals - length activeVals) []))"

section \<open>The commands\<close>

definition DutyList_Run :: "CmdLib \<Rightarrow> string list \<Rightarrow> (ui list \<times> int) outcome" where
  "DutyList_Run lib args =
     or_fail lib (cl_Parse lib (Meta_FlagSet ''duty list'') args) (\<lambda>flags.
     or_fail lib (Meta_Conn lib flags) (\<lambda>conn.
     or_fail lib (vc_ListDuties conn \<lparr>ldr_ValidatorId = - 1\<rparr>) (\<lambda>resp.
     obind (formatDuties lib (ldr_Duties resp)) (\<lambda>out. Ok ([Output out], 0)))))"

text \<open>\<open>strconv.ParseInt(s, 10, 64)\<close>.\<close>

definition ParseInt64 :: "string \<Rightarrow> int64 outcome" where
  "ParseInt64 s =
     (let neg = (s \<noteq> [] \<and> hd s = CHR ''-'');
          digits = (if s \<noteq> [] \<and> (hd s = CHR ''-'' \<or> hd s = CHR ''+'') then tl s else s)
      in obind (ParseUint 64 digits) (\<lambda>un.
         if \<not> neg \<and> 2 ^ 63 \<le> un then Err (BadNumber s)
         else if neg \<and> 2 ^ 63 < un then Err (BadNumber s)
         else Ok (if neg then - un else un)))"

definition ValidatorDuties_Run :: "CmdLib \<Rightarrow> string list \<Rightarrow> (ui list \<times> int) outcome" where
  "ValidatorDuties_Run lib args =
     or_fail lib (cl_Parse lib ValidatorDuties_Flags args) (\<lambda>flags.
     if length (fl_Args flags) \<noteq> 1 then Ok ([Error ''validator not found in args''], 1)
     else case ParseInt64 (hd (fl_Args flags)) of
       Panic p \<Rightarrow> Panic p
     | Err e \<Rightarrow> Ok ([Error ''cannot convert arg to int''], 1)
     | Ok validatorId \<Rightarrow>
         or_fail lib (Meta_Conn lib flags) (\<lambda>conn.
         or_fail lib (vc_ListDuties conn \<lparr>ldr_ValidatorId = validatorId\<rparr>) (\<lambda>resp.
         if fl_export flags
         then or_fail lib (vc_GetGenesis conn) (\<lambda>genesis.
              or_fail lib (slashing_Format \<lparr>in_GenesisValidatorRoot = g_Root genesis, in_Duties = ldr_Duties resp\<rparr>) (\<lambda>res.
              or_fail lib (cl_WriteFile lib ''output.json'' res) (\<lambda>_.
              Ok ([Written ''output.json'' res, Output ''Slashing info exported to output.json...''], 0))))
         else obind (formatDuties lib (ldr_Duties resp)) (\<lambda>out. Ok ([Output out], 0)))))"

definition ValidatorsList_Run :: "CmdLib \<Rightarrow> string list \<Rightarrow> (ui list \<times> int) outcome" where
  "ValidatorsList_Run lib args =
     or_fail lib (cl_Parse lib (Meta_FlagSet ''validator list'') args) (\<lambda>flags.
     or_fail lib (Meta_Conn lib flags) (\<lambda>conn.
     or_fail lib (vc_ValidatorList conn) (\<lambda>resp.
     Ok ([Output (formatValidators lib (vlr_Validators resp))], 0))))"

definition Validators_Run :: "string list \<Rightarrow> ui list \<times> int" where "Validators_Run args = ([], 0)"
definition Duty_Run :: "string list \<Rightarrow> ui list \<times> int" where "Duty_Run args = ([], 0)"

definition Version_Run :: "string \<Rightarrow> string list \<Rightarrow> ui list \<times> int" where
  "Version_Run GitCommit args = ([Output (GetVersion GitCommit)], 0)"

text \<open>The table of commands.\<close>

datatype command = ServerCommand | ValidatorsCommand | ValidatorsListCommand | ValidatorDutiesCommand | DutyCommand
  | DutyListCommand | VersionCommand

definition cmd_Commands :: "(string \<times> command) list" where
  "cmd_Commands = [(''server'', ServerCommand), (''validator'', ValidatorsCommand), (''validator list'', ValidatorsListCommand),
     (''validator duties'', ValidatorDutiesCommand), (''duty'', DutyCommand), (''duty list'', DutyListCommand), (''version'', VersionCommand)]"

text \<open>
  The main program runs the command line library on the table; the library picks the command by the
  first words of the arguments and gives its exit code.
\<close>

definition main_Run :: "((string \<times> command) list \<Rightarrow> string list \<Rightarrow> int outcome) \<Rightarrow> string list \<Rightarrow> int outcome" where
  "main_Run cli_Run args =
     (case cli_Run cmd_Commands args of
        Ok exitCode \<Rightarrow> Ok exitCode
      | Err e \<Rightarrow> Ok 1
      | Panic p \<Rightarrow> Panic p)"

section \<open>Exporting the history of a validator\<close>

text \<open>
  C25: with a server that runs, \<open>validator duties --export\<close> writes the slashing export of exactly the
  stored duties of the validator it names; when one of its blocks or attestations is still without
  result the command panics instead, and writes nothing.
\<close>

theorem export_command_exact:
  assumes "running (lib_State lib) rows contents (srv_state v)"
    and "cl_Parse cl ValidatorDuties_Flags args = Ok \<lparr>fl_address = addr, fl_export = True, fl_Args = [arg]\<rparr>"
    and "ParseInt64 arg = Ok i" "0 \<le> sint i" "cl_Dial cl addr = Ok conn"
    and "vc_ListDuties conn = service_ListDuties lib v" "vc_GetGenesis conn = service_GetGenesis v" "\<forall>f c. cl_WriteFile cl f c = Ok ()"
  shows "\<exists>ds. (\<forall>d. d \<in> set ds \<longleftrightarrow> DutyObj d \<in> rows (s_memdb (srv_state v)) dutiesTable \<and> d_ValidatorIndex d = i) \<and>
    (if \<forall>d \<in> set ds. exported d
     then ValidatorDuties_Run cl args = Ok ([Written ''output.json'' (json_Marshal (export_spec (gi_Root (srv_genesis v)) ds)),
        Output ''Slashing info exported to output.json...''], 0)
     else ValidatorDuties_Run cl args = Panic ''nil dereference'')"
proof -
  obtain ds where ds: "service_ListDuties lib v \<lparr>ldr_ValidatorId = i\<rparr> = Ok \<lparr>ldr_Duties = ds\<rparr>" "\<forall>d \<in> set ds. d_Job d \<noteq> None"
      "\<forall>d. d \<in> set ds \<longleftrightarrow> DutyObj d \<in> rows (s_memdb (srv_state v)) dutiesTable \<and> wanted_duty \<lparr>ldr_ValidatorId = i\<rparr> d"
    using ListDuties_rows [OF assms(1)] by metis
  have "wanted_duty \<lparr>ldr_ValidatorId = i\<rparr> d \<longleftrightarrow> d_ValidatorIndex d = i" for d
    using assms(4) by (simp add: wanted_duty_def)
  moreover have "ValidatorDuties_Run cl args =
      (case slashing_Format \<lparr>in_GenesisValidatorRoot = gi_Root (srv_genesis v), in_Duties = ds\<rparr> of
         Ok res \<Rightarrow> Ok ([Written ''output.json'' res, Output ''Slashing info exported to output.json...''], 0)
       | Err e \<Rightarrow> Ok ([Error (cl_Error cl e)], 1) | Panic p \<Rightarrow> Panic p)"
    using assms(2,3,5-8) ds(1)
    by (simp add: ValidatorDuties_Run_def or_fail_def Meta_Conn_def service_GetGenesis_def split: outcome.split)
  ultimately show ?thesis
    using ds(3) Format_spec [OF ds(2), of "gi_Root (srv_genesis v)"] by (intro exI [of _ ds]) simp
qed

definition demo_server :: "(ref_mem, ref_bolt) Server" where
  "demo_server = run_v0\<lparr>srv_state := demo_s1\<rparr>"

definition demo_server_lib :: "(ref_mem, ref_bolt, unit) ServerLib" where
  "demo_server_lib = run_lib\<lparr>lib_State := demo_lib\<rparr>"

definition demo_CmdLib :: CmdLib where
  "demo_CmdLib = \<lparr>cl_Parse = \<lambda>_ args. Ok \<lparr>fl_address = ''localhost:4002'', fl_export = ''--export'' \<in> set args, fl_Args = removeAll ''--export'' args\<rparr>,
     cl_Dial = \<lambda>_. Ok \<lparr>vc_GetGenesis = service_GetGenesis demo_server, vc_ListDuties = service_ListDuties demo_server_lib demo_server,
       vc_ValidatorList = service_ValidatorList demo_server_lib demo_server\<rparr>,
     cl_WriteFile = \<lambda>_ _. Ok (), cl_Columnize = \<lambda>_ _ rows. concat rows, cl_Slice = \<lambda>_ ds. ds, cl_Error = \<lambda>_. ''error''\<rparr>"

theorem export_command_exact_witness:
  "\<exists>res. ValidatorDuties_Run demo_CmdLib [''7'', ''--export''] =
     Ok ([Written ''output.json'' res, Output ''Slashing info exported to output.json...''], 0)"
proof -
  have lib: "lib_State demo_server_lib = demo_lib" "srv_state demo_server = demo_s1"
    by (simp_all add: demo_server_lib_def demo_server_def)
  have run: "running (lib_State demo_server_lib) ref_rows ref_contents (srv_state demo_server)"
    unfolding lib by (rule demo_running(2))
  have parse: "cl_Parse demo_CmdLib ValidatorDuties_Flags [''7'', ''--export''] = Ok \<lparr>fl_address = ''localhost:4002'', fl_export = True, fl_Args = [''7'']\<rparr>"
    by (simp add: demo_CmdLib_def)
  have int: "ParseInt64 ''7'' = Ok 7"
    by (simp add: ParseInt64_def ParseUint_def digit_val_def Let_def)
  let ?conn = "\<lparr>vc_GetGenesis = service_GetGenesis demo_server, vc_ListDuties = service_ListDuties demo_server_lib demo_server,
       vc_ValidatorList = service_ValidatorList demo_server_lib demo_server\<rparr>"
  have dial: "cl_Dial demo_CmdLib ''localhost:4002'' = Ok ?conn" by (simp add: demo_CmdLib_def)
  obtain ds where ds: "\<forall>d. d \<in> set ds \<longleftrightarrow> DutyObj d \<in> ref_rows (s_memdb (srv_state demo_server)) dutiesTable \<and> d_ValidatorIndex d = 7"
      "if \<forall>d \<in> set ds. exported d
       then ValidatorDuties_Run demo_CmdLib [''7'', ''--export''] = Ok ([Written ''output.json''
          (json_Marshal (export_spec (gi_Root (srv_genesis demo_server)) ds)), Output ''Slashing info exported to output.json...''], 0)
       else ValidatorDuties_Run demo_CmdLib [''7'', ''--export''] = Panic ''nil dereference''"
    using export_command_exact [OF run parse int _ dial] by (auto simp: demo_CmdLib_def)
  have "d = demo_block 7 5 [9] \<or> d = demo_vote 7 10 15" if "d \<in> set ds" for d
    using ds(1) that by (simp add: lib ref_rows_def demo_s1_def)
  moreover have "exported (demo_block 7 5 [9])" "exported (demo_vote 7 10 15)"
    by (simp_all add: exported_def demo_block_def demo_vote_def Duty_Type_def duty_type_defs)
  ultimately have "\<forall>d \<in> set ds. exported d" by blast
  then show ?thesis using ds(2) by auto
qed

end
