(* ===== verification/ServerProps.thy ===== *)
theory ServerProps
  imports ServerDemo
begin

text \<open>
  What the server signs with, what a turn of the validator lifecycle stores, and the state a server
  starts in (\<open>internal/server/server.go\<close>).
\<close>

section \<open>Signing\<close>

lemma domain_inj: "domainTypToDomain a = Ok x \<Longrightarrow> domainTypToDomain b = Ok x \<Longrightarrow> a = b"
  by (auto simp: domainTypToDomain_def split: if_splits)

text \<open>
  C5: a signature is made with the key of a stored validator that has the index, over the root under
  the domain of its type and of the fork that duties of the epoch carry; different types of domain never
  share their bytes; and an index no stored validator has is refused once the domain is computed.
\<close>

theorem Sign_own_key:
  assumes "lib_laws lib rows contents" "state_run (lib_State lib) contents (srv_state v)"
  shows "(\<forall>sig. Sign lib v domain epoch i root = Ok sig \<longrightarrow> (\<exists>val md key dm dd h.
      ValidatorObj val \<in> rows (s_memdb (srv_state v)) validatorsTable \<and> v_Metadata val = Some md \<and> vm_Index md = i \<and>
      domainTypToDomain domain = Ok dm \<and> lib_ComputeDomain lib dm
        (case duty_fork (srv_beaconConfig v) epoch of Duty_Bellatrix \<Rightarrow> BellatrixForkVersion (srv_beaconConfig v)
         | Duty_Altair \<Rightarrow> AltairForkVersion (srv_beaconConfig v) | Duty_Phase0 \<Rightarrow> GenesisForkVersion (srv_beaconConfig v))
        (gi_Root (srv_genesis v)) = Ok dd \<and>
      lib_SigningRoot lib root dd = Ok h \<and> Validator_Key (bls_NewKeyFromPriv lib) val = Ok key \<and> bls_Sign lib key h = Ok sig \<and>
      (\<forall>other. domainTypToDomain other = Ok dm \<longrightarrow> other = domain))) \<and>
    ((\<forall>val md. ValidatorObj val \<in> rows (s_memdb (srv_state v)) validatorsTable \<and> v_Metadata val = Some md \<longrightarrow> vm_Index md \<noteq> i) \<and>
     domainTypToDomain domain = Ok dm \<and> lib_ComputeDomain lib dm (fork_version (srv_beaconConfig v) epoch) (gi_Root (srv_genesis v)) = Ok dd \<and>
     lib_SigningRoot lib root dd = Ok h \<longrightarrow> Sign lib v domain epoch i root = Err (ValidatorNotFound i))"
proof -
  have version: "(case duty_fork (srv_beaconConfig v) epoch of Duty_Bellatrix \<Rightarrow> BellatrixForkVersion (srv_beaconConfig v)
         | Duty_Altair \<Rightarrow> AltairForkVersion (srv_beaconConfig v) | Duty_Phase0 \<Rightarrow> GenesisForkVersion (srv_beaconConfig v))
      = fork_version (srv_beaconConfig v) epoch"
    by (simp add: duty_fork_def fork_version_def)
  note run = runningI [OF assms]
  obtain r where r: "GetValidatorByIndex (lib_State lib) (srv_state v) i = Ok r"
      "case r of
         None \<Rightarrow> \<forall>val md. ValidatorObj val \<in> rows (s_memdb (srv_state v)) validatorsTable \<longrightarrow> v_Metadata val = Some md \<longrightarrow> vm_Index md \<noteq> i
       | Some val \<Rightarrow> ValidatorObj val \<in> rows (s_memdb (srv_state v)) validatorsTable \<and> (\<exists>md. v_Metadata val = Some md \<and> vm_Index md = i)"
    using validator_lookups_spec [OF run, of i] by blast
  show ?thesis
    unfolding version
  proof (intro conjI allI impI)
    fix sig assume "Sign lib v domain epoch i root = Ok sig"
    then obtain val dm dd h key where s: "r = Some val" "domainTypToDomain domain = Ok dm"
        "lib_ComputeDomain lib dm (fork_version (srv_beaconConfig v) epoch) (gi_Root (srv_genesis v)) = Ok dd"
        "lib_SigningRoot lib root dd = Ok h" "Validator_Key (bls_NewKeyFromPriv lib) val = Ok key" "bls_Sign lib key h = Ok sig"
      by (auto simp: Sign_def Let_def outcome_simps r(1) split: option.splits)
    then show "\<exists>val md key dm dd h. ValidatorObj val \<in> rows (s_memdb (srv_state v)) validatorsTable \<and> v_Metadata val = Some md \<and>
        vm_Index md = i \<and> domainTypToDomain domain = Ok dm \<and>
        lib_ComputeDomain lib dm (fork_version (srv_beaconConfig v) epoch) (gi_Root (srv_genesis v)) = Ok dd \<and>
        lib_SigningRoot lib root dd = Ok h \<and> Validator_Key (bls_NewKeyFromPriv lib) val = Ok key \<and> bls_Sign lib key h = Ok sig \<and>
        (\<forall>other. domainTypToDomain other = Ok dm \<longrightarrow> other = domain)"
      using r(2) domain_inj by (auto simp: s(1))
  next
    assume none: "(\<forall>val md. ValidatorObj val \<in> rows (s_memdb (srv_state v)) validatorsTable \<and> v_Metadata val = Some md \<longrightarrow> vm_Index md \<noteq> i) \<and>
      domainTypToDomain domain = Ok dm \<and> lib_ComputeDomain lib dm (fork_version (srv_beaconConfig v) epoch) (gi_Root (srv_genesis v)) = Ok dd \<and>
      lib_SigningRoot lib root dd = Ok h"
    then have "r = None" using r(2) by (cases r) auto
    then show "Sign lib v domain epoch i root = Err (ValidatorNotFound i)" using none r(1) by (simp add: Sign_def Let_def)
  qed
qed

theorem Sign_own_key_witness:
  "Sign run_lib run_v0 DomainSelectionProofType 4 7 [5] = Ok (replicate 96 1) \<and>
   Sign run_lib run_v0 DomainSelectionProofType 4 8 [5] = Err (ValidatorNotFound 8)"
proof -
  have run: "state_run (lib_State run_lib) ref_contents (srv_state run_v0)"
    using server_run_inv [OF run_laws run_start] by (simp add: server_inv_def)
  have stored: "ValidatorObj val \<in> ref_rows (s_memdb (srv_state run_v0)) validatorsTable \<longleftrightarrow> val = demo_val" for val
    by (simp add: ref_rows_def run_rows)
  have "domainTypToDomain DomainSelectionProofType = Ok [5, 0, 0, 0]"
    by code_simp
  moreover have "lib_ComputeDomain run_lib d f x = Ok (d @ f)" "lib_SigningRoot run_lib x y = Ok (x @ y)" for d f x y
    by (simp_all add: run_lib_def)
  moreover have "(8 :: uint64) \<noteq> 7" by simp
  ultimately show ?thesis
    using Sign_own_key [OF run_laws run, of DomainSelectionProofType 4 8 "[5]"] run_Sign
    unfolding stored by auto
qed

section \<open>The validator lifecycle\<close>

text \<open>A validator with what the node knows of it, if the node answers.\<close>

definition refreshed :: "('m, 'b) Server \<Rightarrow> Validator \<Rightarrow> Validator option" where
  "refreshed v val =
     (case api_GetValidatorByPubKey (srv_client v) (''0x'' @ v_PubKey val) of
        Ok hv \<Rightarrow> Some (val\<lparr>v_Metadata := Some \<lparr>vm_Index = hv_Index hv, vm_ActivationEpoch = hv_ActivationEpoch hv\<rparr>\<rparr>)
      | _ \<Rightarrow> None)"

lemma refreshed_PubKey: "refreshed v val = Some w \<Longrightarrow> v_PubKey w = v_PubKey val"
  by (auto simp: refreshed_def split: outcome.splits)

lemma activated_refreshed:
  assumes "\<forall>k p. api_GetValidatorByPubKey (srv_client v) k \<noteq> Panic p"
  shows "activated v val = Ok (case refreshed v val of None \<Rightarrow> [] | Some w \<Rightarrow> [w])"
  using assms by (auto simp: activated_def refreshed_def Validator_Copy_def split: outcome.splits)

lemma activated_all:
  assumes "\<forall>k p. api_GetValidatorByPubKey (srv_client v) k \<noteq> Panic p"
  shows "omap (activated v) vals = Ok (map (\<lambda>val. case refreshed v val of None \<Rightarrow> [] | Some w \<Rightarrow> [w]) vals)"
  by (induction vals) (simp_all add: activated_refreshed [OF assms])

lemma set_refreshed:
  "set (concat (map (\<lambda>val. case refreshed v val of None \<Rightarrow> [] | Some w \<Rightarrow> [w]) vals)) = {w. \<exists>val \<in> set vals. refreshed v val = Some w}"
  by (induction vals) (auto split: option.splits)

text \<open>The last validator with a public key in a list.\<close>

fun latest_validator :: "string \<Rightarrow> Validator list \<Rightarrow> Validator option" where
  "latest_validator k [] = None"
| "latest_validator k (v # vs) =
     (case latest_validator k vs of Some w \<Rightarrow> Some w | None \<Rightarrow> if v_PubKey v = k then Some v else None)"

lemma latest_validator_key: "latest_validator k vs = Some w \<Longrightarrow> w \<in> set vs \<and> v_PubKey w = k"
  by (induction vs) (auto split: option.splits if_splits)

lemma latest_validator_None: "latest_validator k vs = None \<longleftrightarrow> k \<notin> v_PubKey ` set vs"
  by (induction vs) (auto split: option.splits)

lemma latest_validator_inj:
  assumes "inj_on v_PubKey (set vs)"
  shows "latest_validator (v_PubKey w) vs = Some w \<longleftrightarrow> w \<in> set vs"
proof
  assume w: "w \<in> set vs"
  then obtain u where u: "latest_validator (v_PubKey w) vs = Some u"
    using latest_validator_None [of "v_PubKey w" vs] by (cases "latest_validator (v_PubKey w) vs") auto
  then show "latest_validator (v_PubKey w) vs = Some w"
    using latest_validator_key [OF u] inj_onD [OF assms _ _ w] by auto
qed (use latest_validator_key in blast)

lemma upsert_validators_rows:
  assumes laws: "field_laws (lib_Fields lib)" "insert_law lib rows" "bolt_laws lib contents" "codec_laws lib"
  shows "\<lbrakk>consistent lib rows contents m tx; ofold (upsert_validator lib) vs (m, tx) = Ok (m', tx')\<rbrakk> \<Longrightarrow>
    ValidatorObj w \<in> rows m' validatorsTable \<longleftrightarrow>
      latest_validator (v_PubKey w) vs = Some w \<or> (latest_validator (v_PubKey w) vs = None \<and> ValidatorObj w \<in> rows m validatorsTable)"
proof (induction vs arbitrary: m tx)
  case (Cons v vs)
  obtain m1 tx1 where one: "upsert_validator lib v (m, tx) = Ok (m1, tx1)" and rest: "ofold (upsert_validator lib) vs (m1, tx1) = Ok (m', tx')"
    using Cons.prems(2) by (auto simp: outcome_simps)
  note st = upsert_validator_consistent [OF laws Cons.prems(1) one]
  have m1: "ValidatorObj w \<in> rows m1 validatorsTable \<longleftrightarrow> w = v \<or> (ValidatorObj w \<in> rows m validatorsTable \<and> v_PubKey w \<noteq> v_PubKey v)"
    by (simp add: st(2))
  show ?case unfolding Cons.IH [OF st(1) rest] m1 by (cases "latest_validator (v_PubKey w) vs") auto
qed simp

lemma UpsertValidator_rows:
  assumes run: "running lib rows contents s" and up: "UpsertValidator lib s vs = (s', Ok ())"
  shows "ValidatorObj w \<in> rows (s_memdb s') validatorsTable \<longleftrightarrow>
    latest_validator (v_PubKey w) vs = Some w \<or>
    (latest_validator (v_PubKey w) vs = None \<and> ValidatorObj w \<in> rows (s_memdb s) validatorsTable)"
proof -
  obtain m tx where "ofold (upsert_validator lib) vs (s_memdb s, s_db s) = Ok (m, tx)" "s_memdb s' = m"
    using update_both_cases(1) [OF up [unfolded UpsertValidator_def]] by blast
  then show ?thesis
    using upsert_validators_rows [OF running_laws(1,2,5,6) [OF run] running_consistent [OF run]] by simp
qed

lemma validator_unique:
  assumes "running lib rows contents s" "ValidatorObj a \<in> rows (s_memdb s) validatorsTable" "ValidatorObj b \<in> rows (s_memdb s) validatorsTable"
    and "v_PubKey a = v_PubKey b"
  shows "a = b"
  using mirrored_id(2) [OF conjunct2 [OF running_consistent [OF assms(1), unfolded consistent_def]] assms(2,3)] assms(4) by simp

text \<open>A stored validator after a turn.\<close>

definition turned :: "('m, 'b) Server \<Rightarrow> Validator \<Rightarrow> Validator" where
  "turned v val = (if v_Metadata val = None then (case refreshed v val of Some w \<Rightarrow> w | None \<Rightarrow> val) else val)"

lemma refreshed_keys:
  assumes same: "inj_on v_PubKey R"
    and vs: "\<And>w. w \<in> vs \<longleftrightarrow> (\<exists>val. val \<in> R \<and> v_Metadata val = None \<and> refreshed v val = Some w)"
  shows "inj_on v_PubKey vs"
    "w \<in> R \<Longrightarrow> v_PubKey w \<in> v_PubKey ` vs \<longleftrightarrow> v_Metadata w = None \<and> refreshed v w \<noteq> None"
proof -
  have origin: "\<exists>val. val \<in> R \<and> v_Metadata val = None \<and> refreshed v val = Some w \<and> v_PubKey val = v_PubKey w" if w: "w \<in> vs" for w
  proof -
    obtain val where val: "val \<in> R" "v_Metadata val = None" "refreshed v val = Some w" using w unfolding vs by blast
    then show ?thesis using refreshed_PubKey [OF val(3)] by auto
  qed
  show "inj_on v_PubKey vs"
  proof (intro inj_onI)
    fix a b assume "a \<in> vs" "b \<in> vs" and eq: "v_PubKey a = v_PubKey b"
    from origin [OF this(1)] obtain c where c: "c \<in> R" "refreshed v c = Some a" "v_PubKey c = v_PubKey a" by blast
    from origin [OF \<open>b \<in> vs\<close>] obtain d where d: "d \<in> R" "refreshed v d = Some b" "v_PubKey d = v_PubKey b" by blast
    have "c = d" using inj_onD [OF same _ c(1) d(1)] c(3) d(3) eq by simp
    then show "a = b" using c(2) d(2) by simp
  qed
  show "v_PubKey w \<in> v_PubKey ` vs \<longleftrightarrow> v_Metadata w = None \<and> refreshed v w \<noteq> None" if w: "w \<in> R"
  proof
    assume "v_PubKey w \<in> v_PubKey ` vs"
    then obtain a where a: "v_PubKey w = v_PubKey a" "a \<in> vs" by blast
    from origin [OF a(2)] obtain c where ac: "c \<in> R" "v_Metadata c = None" "refreshed v c = Some a" "v_PubKey c = v_PubKey a" by blast
    then have "w = c" using inj_onD [OF same _ w ac(1)] a(1) ac(4) by simp
    then show "v_Metadata w = None \<and> refreshed v w \<noteq> None" using ac by simp
  next
    assume "v_Metadata w = None \<and> refreshed v w \<noteq> None"
    then obtain a where a: "v_Metadata w = None" "refreshed v w = Some a" by blast
    then have "a \<in> vs" using w by (auto simp: vs)
    then show "v_PubKey w \<in> v_PubKey ` vs" using refreshed_PubKey [OF a(2)] by (metis imageI)
  qed
qed

lemma refreshed_turned:
  assumes same: "inj_on v_PubKey R"
    and vs: "\<And>w. w \<in> vs \<longleftrightarrow> (\<exists>val. val \<in> R \<and> v_Metadata val = None \<and> refreshed v val = Some w)"
  shows "w \<in> vs \<or> (w \<in> R \<and> v_PubKey w \<notin> v_PubKey ` vs) \<longleftrightarrow> (\<exists>val. val \<in> R \<and> w = turned v val)"
proof
  note key = refreshed_keys(2) [OF same vs]
  assume "w \<in> vs \<or> (w \<in> R \<and> v_PubKey w \<notin> v_PubKey ` vs)"
  then consider "w \<in> vs" | "w \<in> R" "v_PubKey w \<notin> v_PubKey ` vs" by blast
  then show "\<exists>val. val \<in> R \<and> w = turned v val"
  proof cases
    case 1
    then show ?thesis unfolding vs by (force simp: turned_def)
  next
    case 2
    have "turned v w = w" using 2(2) unfolding key [OF 2(1)] turned_def by (auto split: option.split)
    then show ?thesis using 2(1) by (intro exI [of _ w]) simp
  qed
next
  note key = refreshed_keys(2) [OF same vs]
  assume "\<exists>val. val \<in> R \<and> w = turned v val"
  then obtain val where val: "val \<in> R" "w = turned v val" by blast
  show "w \<in> vs \<or> (w \<in> R \<and> v_PubKey w \<notin> v_PubKey ` vs)"
  proof (cases "v_Metadata val = None \<and> refreshed v val \<noteq> None")
    case True
    then show ?thesis using val by (auto simp: vs turned_def)
  next
    case False
    then have "w = val" using val(2) by (auto simp: turned_def)
    moreover have "v_PubKey val \<notin> v_PubKey ` vs" using False unfolding key [OF val(1)] .
    ultimately show ?thesis using val(1) by simp
  qed
qed

text \<open>
  C17: a turn of the validator lifecycle gives every stored validator without metadata that the node
  answers for the index and the activation epoch of the answer, whatever that epoch is, and leaves all
  other validators, all duties and the rest of the server as they are; if the upsert fails nothing is
  stored, and the error is dropped: the turn panics only where the upsert does.
\<close>

theorem validatorLifecycle_exact:
  assumes "lib_laws lib rows contents" "state_run (lib_State lib) contents (srv_state v)"
    and nopanic: "\<forall>k p. api_GetValidatorByPubKey (srv_client v) k \<noteq> Panic p"
    and step: "validatorLifecycle lib v = (v', r)"
  shows "\<exists>u vs. UpsertValidator (lib_State lib) (srv_state v) vs = (srv_state v', u) \<and>
    set vs = {w. \<exists>val. ValidatorObj val \<in> rows (s_memdb (srv_state v)) validatorsTable \<and> v_Metadata val = None \<and> refreshed v val = Some w} \<and>
    r = (case u of Panic p \<Rightarrow> Panic p | _ \<Rightarrow> Ok ()) \<and>
    v' = v\<lparr>srv_state := srv_state v'\<rparr> \<and>
    (if u = Ok () then
       rows (s_memdb (srv_state v')) validatorsTable =
         {ValidatorObj (turned v val) | val. ValidatorObj val \<in> rows (s_memdb (srv_state v)) validatorsTable} \<and>
       rows (s_memdb (srv_state v')) dutiesTable = rows (s_memdb (srv_state v)) dutiesTable
     else srv_state v' = srv_state v)"
proof -
  let ?R = "rows (s_memdb (srv_state v)) validatorsTable"
  note run = runningI [OF assms(1,2)]
  obtain pending where p: "GetValidatorsPending (lib_State lib) (srv_state v) = Ok pending"
      "set pending = {val. ValidatorObj val \<in> ?R \<and> v_Metadata val = None}"
    using validator_lookups_spec [OF run] by blast
  define vs where "vs = concat (map (\<lambda>val. case refreshed v val of None \<Rightarrow> [] | Some w \<Rightarrow> [w]) pending)"
  obtain s u where u: "UpsertValidator (lib_State lib) (srv_state v) vs = (s, u)" by fastforce
  have v': "v' = v\<lparr>srv_state := s\<rparr>" "r = (case u of Panic p \<Rightarrow> Panic p | _ \<Rightarrow> Ok ())"
    using step by (simp_all add: validatorLifecycle_def p(1) activated_all [OF nopanic] vs_def [symmetric] u)
  have vs: "w \<in> set vs \<longleftrightarrow> (\<exists>val. ValidatorObj val \<in> ?R \<and> v_Metadata val = None \<and> refreshed v val = Some w)" for w
    unfolding vs_def set_refreshed p(2) by blast
  have same: "inj_on v_PubKey {val. ValidatorObj val \<in> ?R}"
    using validator_unique [OF run] by (intro inj_onI) simp
  have vs': "w \<in> set vs \<longleftrightarrow> (\<exists>val. val \<in> {val. ValidatorObj val \<in> ?R} \<and> v_Metadata val = None \<and> refreshed v val = Some w)" for w
    by (simp add: vs)
  note inj = refreshed_keys(1) [OF same vs']
  have after: "if u = Ok () then rows (s_memdb s) validatorsTable = {ValidatorObj (turned v val) | val. ValidatorObj val \<in> ?R} \<and>
       rows (s_memdb s) dutiesTable = rows (s_memdb (srv_state v)) dutiesTable
     else s = srv_state v"
  proof (cases "u = Ok ()")
    case True
    note up = UpsertValidator_duties [OF run u] UpsertValidator_rows [OF run u [unfolded True], unfolded latest_validator_inj [OF inj] latest_validator_None]
    have row: "ValidatorObj w \<in> rows (s_memdb s) validatorsTable \<longleftrightarrow> (\<exists>val. ValidatorObj val \<in> ?R \<and> w = turned v val)" for w
      using refreshed_turned [OF same vs', of w] up(3) [of w] by (simp add: conj_commute)
    have "obj \<in> rows (s_memdb s) validatorsTable \<longleftrightarrow> (\<exists>val. obj = ValidatorObj (turned v val) \<and> ValidatorObj val \<in> ?R)" for obj
    proof (cases "\<exists>w. obj = ValidatorObj w")
      case True
      then show ?thesis using row by auto
    qed (use validator_row [OF up(1)] in blast)
    then have "rows (s_memdb s) validatorsTable = {ValidatorObj (turned v val) | val. ValidatorObj val \<in> ?R}" by (intro set_eqI) simp
    then show ?thesis using True up(2) by simp
  next
    case False
    then show ?thesis using update_both_cases(2) [OF u [unfolded UpsertValidator_def]] by simp
  qed
  show ?thesis
    by (rule exI [of _ u], rule exI [of _ vs]) (use u v' vs after in auto)
qed

text \<open>A server with one validator that the node has just given an index.\<close>

definition new_val :: Validator where "new_val = demo_val\<lparr>v_Metadata := None\<rparr>"

definition new_lib :: "(ref_mem, ref_bolt, unit) ServerLib" where
  "new_lib = run_lib\<lparr>lib_State := ref_lib (\<lambda>_ _. []) [([3], ValidatorObj demo_val), ([4], ValidatorObj new_val)]\<rparr>"

definition new_v0 :: "(ref_mem, ref_bolt) Server" where
  "new_v0 = run_v0\<lparr>srv_state := \<lparr>s_db = (\<lambda>_. [])(validatorsBucket := [(bytes_of_string ''aa'', [4])]),
       s_memdb = (\<lambda>_. [])(validatorsTable := [ValidatorObj new_val])\<rparr>,
     srv_client := run_Api\<lparr>api_GetValidatorByPubKey := \<lambda>k. if k = ''0xaa'' then Ok \<lparr>hv_Index = 7, hv_ActivationEpoch = 3\<rparr> else Err BadObject\<rparr>\<rparr>"

lemma new_val_simps [simp]: "v_PubKey new_val = ''aa''" "v_Metadata new_val = None" "new_val \<noteq> demo_val" "demo_val \<noteq> new_val"
  by (simp_all add: new_val_def demo_val_def)

lemma new_insertable: "insertable ref_fields validatorsTable (ValidatorObj new_val)"
  by (simp add: insertable_def schema_def index_ok_def ref_fields_def ref_string_index_def dutiesTable_def validatorsTable_def
      ref_set_index_def activeValidatorIndex_def activeValidator_FromObject_def new_val_def demo_val_def ref_uint_index_def)

lemma new_laws: "lib_laws new_lib ref_rows ref_contents"
  by (simp add: lib_laws_def new_lib_def ref_memdb_laws ref_bolt_laws ref_codec_laws)

lemma new_run: "state_run (lib_State new_lib) ref_contents (srv_state new_v0)"
proof -
  have "NewState (lib_State new_lib) ''new'' = Ok demo_s0" "bolt_Open (lib_State new_lib) ''new'' = Ok (\<lambda>_. [])"
    by (simp_all add: new_lib_def NewState_def ref_lib_def reIndex_def indexObject_def demo_s0_def)
  then have "state_run (lib_State new_lib) ref_contents demo_s0"
    using state_run.fresh [of "lib_State new_lib" "''new''" "\<lambda>_. []" ref_contents demo_s0] by (simp add: ref_contents_def)
  moreover have "UpsertValidator (lib_State new_lib) demo_s0 [new_val] = (srv_state new_v0, Ok ())"
    by (simp add: UpsertValidator_def upsert_validator_def dbPut_def update_both_def new_lib_def ref_lib_def new_insertable
        demo_s0_def new_v0_def run_v0_def run_s0_def)
  ultimately show ?thesis
    using state_run.validators [of "lib_State new_lib" ref_contents demo_s0 "[new_val]"] by simp
qed

lemma new_refreshed: "refreshed new_v0 new_val = Some demo_val"
  by (simp add: refreshed_def new_v0_def) (simp add: new_val_def demo_val_def)

lemma new_upserts:
  assumes "set vs = {demo_val}"
  shows "snd (UpsertValidator (lib_State new_lib) s vs) = Ok ()"
proof -
  have "\<exists>m' tx'. ofold (upsert_validator (lib_State new_lib)) ws (m, tx) = Ok (m', tx')" if "set ws \<subseteq> {demo_val}" for ws m tx
    using that
  proof (induction ws arbitrary: m tx)
    case (Cons w ws)
    then show ?case
      by (simp add: upsert_validator_def dbPut_def new_lib_def ref_lib_def demo_insertable(3))
  qed simp
  then obtain m tx where "ofold (upsert_validator (lib_State new_lib)) vs (s_memdb s, s_db s) = Ok (m, tx)"
    using assms by (metis order_refl)
  then show ?thesis by (simp add: UpsertValidator_def update_both_def) (simp add: new_lib_def ref_lib_def)
qed

theorem validatorLifecycle_exact_witness:
  "snd (validatorLifecycle new_lib new_v0) = Ok () \<and>
   ref_rows (s_memdb (srv_state (fst (validatorLifecycle new_lib new_v0)))) validatorsTable = {ValidatorObj demo_val}"
proof -
  obtain v' r where step: "validatorLifecycle new_lib new_v0 = (v', r)" by fastforce
  have rows: "ref_rows (s_memdb (srv_state new_v0)) validatorsTable = {ValidatorObj new_val}"
    by (simp add: ref_rows_def new_v0_def)
  have silent: "\<forall>k p. api_GetValidatorByPubKey (srv_client new_v0) k \<noteq> Panic p" by (simp add: new_v0_def)
  obtain u vs where u: "UpsertValidator (lib_State new_lib) (srv_state new_v0) vs = (srv_state v', u)"
      "set vs = {demo_val}" "r = (case u of Panic p \<Rightarrow> Panic p | _ \<Rightarrow> Ok ())"
      "u = Ok () \<longrightarrow> ref_rows (s_memdb (srv_state v')) validatorsTable = {ValidatorObj (turned new_v0 new_val)}"
    using validatorLifecycle_exact [OF new_laws new_run silent step] unfolding rows by (auto simp: new_refreshed)
  have "u = Ok ()" using new_upserts [of vs "srv_state new_v0"] u(1,2) by simp
  then show ?thesis using u(3,4) by (simp add: step turned_def new_refreshed)
qed

end
