(* ===== verification/Routine.thy ===== *)
theory Routine
  imports Prelude
begin

text \<open>
  The manager of the long-running goroutines, \<open>internal/routine/routine.go\<close>.

  Contexts and channels are names: numbers that a counter gives out.  The state of the world beside a
  manager is the counter, the contexts cancelled so far, the channels closed so far, the goroutines that
  run \<open>execute\<close>, and the log.  The order of \<open>range m.routines\<close> is a parameter, a list of the names.
  A goroutine ends when its routine returns, with the error it returns.
\<close>

section \<open>The manager and its surroundings\<close>

record routineTracker =
  stoppedCh :: nat

record 'r Manager =
  m_instances :: "string \<rightharpoonup> routineTracker"
  m_routines :: "string \<rightharpoonup> 'r"
  m_cancelFn :: "nat option"

datatype exit_error = DeadlineExceeded | Canceled | OtherError go_error

datatype log_line = StartedRoutine string | StoppedRoutine string | ExitedWithError string exit_error

record 'r goroutine =
  gr_ctx :: nat
  gr_name :: string
  gr_routine :: 'r
  gr_done :: nat

record 'r Routines =
  rt_m :: "'r Manager"
  rt_next :: nat
  rt_cancelled :: "nat set"
  rt_closed :: "nat set"
  rt_running :: "'r goroutine list"
  rt_log :: "log_line list"

section \<open>The operations\<close>

definition NewManager :: "'r Manager" where
  "NewManager = \<lparr>m_instances = Map.empty, m_routines = Map.empty, m_cancelFn = None\<rparr>"

definition Manager_Add :: "string \<Rightarrow> 'r \<Rightarrow> 'r Manager \<Rightarrow> 'r Manager" where
  "Manager_Add n r m = m\<lparr>m_routines := (m_routines m)(n \<mapsto> r)\<rparr>"

text \<open>One turn of the loop of \<open>Start\<close>, for a name of the map.\<close>

definition start_one :: "nat \<Rightarrow> string \<Rightarrow> 'r Routines \<Rightarrow> 'r Routines" where
  "start_one rtCtx n w =
     (case m_routines (rt_m w) n of
        None \<Rightarrow> w
      | Some routine \<Rightarrow>
          let instance = \<lparr>stoppedCh = rt_next w\<rparr>;
              g = \<lparr>gr_ctx = rtCtx, gr_name = n, gr_routine = routine, gr_done = stoppedCh instance\<rparr>
          in w\<lparr>rt_next := rt_next w + 1, rt_running := rt_running w @ [g],
               rt_m := (rt_m w)\<lparr>m_instances := (m_instances (rt_m w))(n \<mapsto> instance)\<rparr>,
               rt_log := rt_log w @ [StartedRoutine n]\<rparr>)"

definition Manager_Start :: "string list \<Rightarrow> 'r Routines \<Rightarrow> 'r Routines" where
  "Manager_Start order w =
     (let rtCtx = rt_next w;
          w1 = w\<lparr>rt_next := rt_next w + 1, rt_m := (rt_m w)\<lparr>m_cancelFn := Some rtCtx\<rparr>\<rparr>
      in fold (start_one rtCtx) order w1)"

text \<open>
  The end of \<open>execute\<close>, when the routine has returned: the log line and, deferred, the closing of the
  channel, which panics if the channel is closed already.
\<close>

definition exit_line :: "string \<Rightarrow> exit_error option \<Rightarrow> log_line" where
  "exit_line n err =
     (case err of
        Some e \<Rightarrow> if e \<noteq> DeadlineExceeded \<and> e \<noteq> Canceled then ExitedWithError n e else StoppedRoutine n
      | None \<Rightarrow> StoppedRoutine n)"

definition execute :: "'r goroutine \<Rightarrow> exit_error option \<Rightarrow> 'r Routines \<Rightarrow> 'r Routines outcome" where
  "execute g err w =
     (let w1 = w\<lparr>rt_running := remove1 g (rt_running w), rt_log := rt_log w @ [exit_line (gr_name g) err]\<rparr>
      in if gr_done g \<in> rt_closed w1 then Panic ''close of closed channel''
         else Ok (w1\<lparr>rt_closed := insert (gr_done g) (rt_closed w1)\<rparr>))"

text \<open>\<open>wait\<close> returns once the channel is closed.\<close>

definition tracker_wait :: "routineTracker \<Rightarrow> 'r Routines \<Rightarrow> bool" where
  "tracker_wait r w \<longleftrightarrow> stoppedCh r \<in> rt_closed w"

text \<open>
  \<open>Stop\<close> cancels the context, calling a nil function if nothing was started, and returns once it has
  waited for every instance.
\<close>

definition stop_cancel :: "'r Routines \<Rightarrow> 'r Routines outcome" where
  "stop_cancel w =
     (case m_cancelFn (rt_m w) of
        None \<Rightarrow> Panic ''nil dereference''
      | Some c \<Rightarrow> Ok (w\<lparr>rt_cancelled := insert c (rt_cancelled w)\<rparr>))"

definition stop_return :: "string list \<Rightarrow> 'r Routines \<Rightarrow> 'r Routines option" where
  "stop_return order w =
     (if \<forall>n \<in> set order. case m_instances (rt_m w) n of Some i \<Rightarrow> tracker_wait i w | None \<Rightarrow> True
      then Some (w\<lparr>rt_m := (rt_m w)\<lparr>m_instances := Map.empty\<rparr>\<rparr>) else None)"

section \<open>Runs\<close>

text \<open>
  The runs of a manager that is started only when it has no instances, as the server does.  A list
  ranges over a map if it holds each of its keys once.
\<close>

definition ranges :: "string list \<Rightarrow> (string \<rightharpoonup> 'a) \<Rightarrow> bool" where
  "ranges order m \<longleftrightarrow> distinct order \<and> set order = dom m"

inductive routine_run :: "'r Routines \<Rightarrow> bool" where
  fresh: "routine_run \<lparr>rt_m = NewManager, rt_next = 0, rt_cancelled = {}, rt_closed = {}, rt_running = [], rt_log = []\<rparr>"
| add: "routine_run w \<Longrightarrow> routine_run (w\<lparr>rt_m := Manager_Add n r (rt_m w)\<rparr>)"
| start: "\<lbrakk>routine_run w; m_instances (rt_m w) = Map.empty; ranges order (m_routines (rt_m w))\<rbrakk> \<Longrightarrow>
    routine_run (Manager_Start order w)"
| ends: "\<lbrakk>routine_run w; g \<in> set (rt_running w); execute g err w = Ok w'\<rbrakk> \<Longrightarrow> routine_run w'"
| cancel: "\<lbrakk>routine_run w; stop_cancel w = Ok w'\<rbrakk> \<Longrightarrow> routine_run w'"
| returns: "\<lbrakk>routine_run w; ranges order (m_instances (rt_m w)); stop_return order w = Some w'\<rbrakk> \<Longrightarrow> routine_run w'"

text \<open>
  What holds in every run: the channels of the running goroutines are open and distinct, each of them
  is an instance under the context of the last start, and the channel of every other instance is closed.
\<close>

definition routine_inv :: "'r Routines \<Rightarrow> bool" where
  "routine_inv w \<longleftrightarrow>
     distinct (map gr_done (rt_running w)) \<and>
     (\<forall>g \<in> set (rt_running w). gr_done g \<notin> rt_closed w \<and> gr_done g < rt_next w \<and> m_cancelFn (rt_m w) = Some (gr_ctx g) \<and>
        m_instances (rt_m w) (gr_name g) = Some \<lparr>stoppedCh = gr_done g\<rparr>) \<and>
     (\<forall>n i. m_instances (rt_m w) n = Some i \<longrightarrow>
        stoppedCh i \<in> rt_closed w \<or> (\<exists>g \<in> set (rt_running w). gr_name g = n \<and> gr_done g = stoppedCh i)) \<and>
     (\<forall>c \<in> rt_closed w. c < rt_next w)"

lemma routine_invI:
  assumes "distinct (map gr_done (rt_running w))"
    and "\<And>g. g \<in> set (rt_running w) \<Longrightarrow> gr_done g \<notin> rt_closed w \<and> gr_done g < rt_next w \<and>
      m_cancelFn (rt_m w) = Some (gr_ctx g) \<and> m_instances (rt_m w) (gr_name g) = Some \<lparr>stoppedCh = gr_done g\<rparr>"
    and "\<And>n i. m_instances (rt_m w) n = Some i \<Longrightarrow>
      stoppedCh i \<in> rt_closed w \<or> (\<exists>g \<in> set (rt_running w). gr_name g = n \<and> gr_done g = stoppedCh i)"
    and "\<And>c. c \<in> rt_closed w \<Longrightarrow> c < rt_next w"
  shows "routine_inv w"
  using assms unfolding routine_inv_def by blast

lemma routine_invD:
  assumes "routine_inv w"
  shows "distinct (map gr_done (rt_running w))"
    "g \<in> set (rt_running w) \<Longrightarrow> gr_done g \<notin> rt_closed w"
    "g \<in> set (rt_running w) \<Longrightarrow> gr_done g < rt_next w"
    "g \<in> set (rt_running w) \<Longrightarrow> m_cancelFn (rt_m w) = Some (gr_ctx g)"
    "g \<in> set (rt_running w) \<Longrightarrow> m_instances (rt_m w) (gr_name g) = Some \<lparr>stoppedCh = gr_done g\<rparr>"
    "m_instances (rt_m w) n = Some i \<Longrightarrow>
      stoppedCh i \<in> rt_closed w \<or> (\<exists>g \<in> set (rt_running w). gr_name g = n \<and> gr_done g = stoppedCh i)"
    "c \<in> rt_closed w \<Longrightarrow> c < rt_next w"
  using assms unfolding routine_inv_def by blast+

lemma inv_no_instances: "routine_inv w \<Longrightarrow> m_instances (rt_m w) = Map.empty \<Longrightarrow> rt_running w = []"
  using routine_invD(5) [of w] by (cases "rt_running w") force+

lemma start_one_cases:
  assumes "m_routines (rt_m w) n = Some r"
  shows "rt_running (start_one c n w) = rt_running w @ [\<lparr>gr_ctx = c, gr_name = n, gr_routine = r, gr_done = rt_next w\<rparr>]"
    "rt_next (start_one c n w) = rt_next w + 1" "rt_closed (start_one c n w) = rt_closed w"
    "m_instances (rt_m (start_one c n w)) = (m_instances (rt_m w))(n \<mapsto> \<lparr>stoppedCh = rt_next w\<rparr>)"
    "m_routines (rt_m (start_one c n w)) = m_routines (rt_m w)" "m_cancelFn (rt_m (start_one c n w)) = m_cancelFn (rt_m w)"
    "rt_cancelled (start_one c n w) = rt_cancelled w"
  by (simp_all add: start_one_def assms Let_def)

lemma inv_start_one:
  assumes inv: "routine_inv w" and "m_cancelFn (rt_m w) = Some c" "m_instances (rt_m w) n = None" "m_routines (rt_m w) n = Some r"
  shows "routine_inv (start_one c n w)"
proof (rule routine_invI)
  note D = routine_invD [OF inv] and S = start_one_cases [OF assms(4)]
  have fresh: "rt_next w \<notin> gr_done ` set (rt_running w)" using D(3) by force
  then show "distinct (map gr_done (rt_running (start_one c n w)))" using D(1) by (simp add: S)
  show "gr_done g \<notin> rt_closed (start_one c n w) \<and> gr_done g < rt_next (start_one c n w) \<and>
      m_cancelFn (rt_m (start_one c n w)) = Some (gr_ctx g) \<and>
      m_instances (rt_m (start_one c n w)) (gr_name g) = Some \<lparr>stoppedCh = gr_done g\<rparr>"
    if "g \<in> set (rt_running (start_one c n w))" for g
  proof (cases "g \<in> set (rt_running w)")
    case True
    then show ?thesis using D(2-5) [OF True] assms(3) by (auto simp: S)
  next
    case False
    then show ?thesis using that assms(2) D(7) [of "rt_next w"] by (auto simp: S)
  qed
  show "stoppedCh i \<in> rt_closed (start_one c n w) \<or>
      (\<exists>g \<in> set (rt_running (start_one c n w)). gr_name g = k \<and> gr_done g = stoppedCh i)"
    if "m_instances (rt_m (start_one c n w)) k = Some i" for k i
    using that D(6) [of k i] by (auto simp: S split: if_splits)
  show "x < rt_next (start_one c n w)" if "x \<in> rt_closed (start_one c n w)" for x
    using that D(7) [of x] by (simp add: S)
qed

lemma start_all:
  assumes "routine_inv w" "m_cancelFn (rt_m w) = Some c" "distinct order" "\<forall>n \<in> set order. m_instances (rt_m w) n = None"
    and "set order \<subseteq> dom (m_routines (rt_m w))"
  shows "routine_inv (fold (start_one c) order w) \<and>
    map (\<lambda>g. (gr_ctx g, gr_name g, Some (gr_routine g))) (rt_running (fold (start_one c) order w)) =
      map (\<lambda>g. (gr_ctx g, gr_name g, Some (gr_routine g))) (rt_running w) @ map (\<lambda>n. (c, n, m_routines (rt_m w) n)) order \<and>
    m_cancelFn (rt_m (fold (start_one c) order w)) = Some c \<and> rt_cancelled (fold (start_one c) order w) = rt_cancelled w"
  using assms
proof (induction order arbitrary: w)
  case (Cons n order)
  obtain r where r: "m_routines (rt_m w) n = Some r" using Cons.prems(5) by auto
  note S = start_one_cases [OF r, of c]
  have "routine_inv (start_one c n w)" using inv_start_one [OF Cons.prems(1,2) _ r] Cons.prems(4) by simp
  moreover have "\<forall>k \<in> set order. m_instances (rt_m (start_one c n w)) k = None"
    using Cons.prems(3,4) by (auto simp: S)
  ultimately show ?case
    using Cons.IH [of "start_one c n w"] Cons.prems(2,3,5) by (simp add: S r)
qed simp

lemma Start_running:
  assumes "routine_inv w" "m_instances (rt_m w) = Map.empty" "ranges order (m_routines (rt_m w))"
  shows "routine_inv (Manager_Start order w) \<and>
    map (\<lambda>g. (gr_ctx g, gr_name g, Some (gr_routine g))) (rt_running (Manager_Start order w)) =
      map (\<lambda>n. (rt_next w, n, m_routines (rt_m w) n)) order \<and>
    m_cancelFn (rt_m (Manager_Start order w)) = Some (rt_next w) \<and> rt_cancelled (Manager_Start order w) = rt_cancelled w"
proof -
  let ?w1 = "w\<lparr>rt_next := rt_next w + 1, rt_m := (rt_m w)\<lparr>m_cancelFn := Some (rt_next w)\<rparr>\<rparr>"
  have none: "rt_running w = []" by (rule inv_no_instances [OF assms(1,2)])
  have "routine_inv ?w1"
    using routine_invD(7) [OF assms(1)] by (intro routine_invI) (auto simp: none assms(2) less_Suc_eq)
  then show ?thesis
    using start_all [of ?w1 "rt_next w" order] assms(2,3)
    by (simp add: Manager_Start_def Let_def none ranges_def)
qed

lemma distinct_remove1_key: "distinct (map f xs) \<Longrightarrow> x \<in> set xs \<Longrightarrow> y \<in> set (remove1 x xs) \<longleftrightarrow> y \<in> set xs \<and> f y \<noteq> f x"
  by (induction xs) (auto simp: inj_on_def image_iff)

lemma inv_execute:
  assumes inv: "routine_inv w" and g: "g \<in> set (rt_running w)" and fin: "execute g err w = Ok w'"
  shows "routine_inv w'"
proof (rule routine_invI)
  note D = routine_invD [OF inv]
  have w': "rt_running w' = remove1 g (rt_running w)" "rt_closed w' = insert (gr_done g) (rt_closed w)"
      "rt_next w' = rt_next w" "rt_m w' = rt_m w"
    using fin by (auto simp: execute_def Let_def split: if_splits)
  have left: "h \<in> set (remove1 g (rt_running w)) \<longleftrightarrow> h \<in> set (rt_running w) \<and> gr_done h \<noteq> gr_done g" for h
    by (rule distinct_remove1_key [OF D(1) g])
  show "distinct (map gr_done (rt_running w'))"
    using D(1) by (simp add: w' distinct_map inj_on_def left)
  show "gr_done h \<notin> rt_closed w' \<and> gr_done h < rt_next w' \<and> m_cancelFn (rt_m w') = Some (gr_ctx h) \<and>
      m_instances (rt_m w') (gr_name h) = Some \<lparr>stoppedCh = gr_done h\<rparr>" if "h \<in> set (rt_running w')" for h
    using that D(2-5) [of h] by (simp add: w' left)
  show "stoppedCh i \<in> rt_closed w' \<or> (\<exists>h \<in> set (rt_running w'). gr_name h = n \<and> gr_done h = stoppedCh i)"
    if "m_instances (rt_m w') n = Some i" for n i
    using that D(6) [of n i] left by (auto simp: w')
  show "c < rt_next w'" if "c \<in> rt_closed w'" for c
    using that D(3) [OF g] D(7) [of c] by (auto simp: w')
qed

lemma stop_return_none_left:
  assumes "routine_inv w" "ranges order (m_instances (rt_m w))" "stop_return order w = Some w'"
  shows "rt_running w = []" "w' = w\<lparr>rt_m := (rt_m w)\<lparr>m_instances := Map.empty\<rparr>\<rparr>"
proof -
  show w': "w' = w\<lparr>rt_m := (rt_m w)\<lparr>m_instances := Map.empty\<rparr>\<rparr>"
    using assms(3) by (simp add: stop_return_def split: if_splits)
  have "g \<notin> set (rt_running w)" for g
  proof
    assume g: "g \<in> set (rt_running w)"
    have i: "m_instances (rt_m w) (gr_name g) = Some \<lparr>stoppedCh = gr_done g\<rparr>" by (rule routine_invD(5) [OF assms(1) g])
    then have "gr_name g \<in> set order" using assms(2) by (auto simp: ranges_def)
    then have "gr_done g \<in> rt_closed w"
      using assms(3) i by (auto simp: stop_return_def tracker_wait_def split: if_splits)
    then show False using routine_invD(2) [OF assms(1) g] by simp
  qed
  then show "rt_running w = []" by (cases "rt_running w") auto
qed

lemma routine_run_inv: "routine_run w \<Longrightarrow> routine_inv w"
proof (induction rule: routine_run.induct)
  case fresh
  show ?case by (rule routine_invI) (simp_all add: NewManager_def)
next
  case (add w n r)
  then show ?case using routine_invD [of w] by (intro routine_invI) (auto simp: Manager_Add_def)
next
  case (start w order)
  then show ?case using Start_running by blast
next
  case (ends w g err w')
  then show ?case using inv_execute by blast
next
  case (cancel w w')
  then have "w' = w\<lparr>rt_cancelled := rt_cancelled w'\<rparr>" by (auto simp: stop_cancel_def split: option.splits)
  then have "rt_m w' = rt_m w" "rt_next w' = rt_next w" "rt_closed w' = rt_closed w" "rt_running w' = rt_running w" by (metis Routines.select_convs Routines.update_convs(3) Routines.surjective)+
  then show ?case using cancel.IH by (simp add: routine_inv_def)
next
  case (returns w order w')
  then show ?case
    using stop_return_none_left [OF returns.IH returns.hyps(2,3)] routine_invD(7) [OF returns.IH] by (intro routine_invI) auto
qed

section \<open>What the manager promises\<close>

text \<open>
  C27: \<open>Start\<close> runs every registered routine exactly once, under one new context; \<open>Stop\<close> cancels the
  context of every goroutine that still runs; a goroutine that ends, with whatever error, never closes a
  closed channel; and the waits of \<open>Stop\<close> are over exactly when no goroutine runs any more.
\<close>

theorem routines_started_and_stopped:
  assumes run: "routine_run w"
  shows "(m_instances (rt_m w) = Map.empty \<and> ranges order (m_routines (rt_m w)) \<longrightarrow>
      map (\<lambda>g. (gr_ctx g, gr_name g, Some (gr_routine g))) (rt_running (Manager_Start order w)) =
        map (\<lambda>n. (rt_next w, n, m_routines (rt_m w) n)) order) \<and>
    (\<forall>w'. stop_cancel w = Ok w' \<longrightarrow> (\<forall>g \<in> set (rt_running w'). gr_ctx g \<in> rt_cancelled w')) \<and>
    (\<forall>g \<in> set (rt_running w). \<forall>err. is_Ok (execute g err w)) \<and>
    (ranges waits (m_instances (rt_m w)) \<longrightarrow> (stop_return waits w \<noteq> None \<longleftrightarrow> rt_running w = []))"
proof (intro conjI allI impI ballI)
  note inv = routine_run_inv [OF run]
  note D = routine_invD [OF inv]
  show "map (\<lambda>g. (gr_ctx g, gr_name g, Some (gr_routine g))) (rt_running (Manager_Start order w)) =
      map (\<lambda>n. (rt_next w, n, m_routines (rt_m w) n)) order"
    if "m_instances (rt_m w) = Map.empty \<and> ranges order (m_routines (rt_m w))"
    using Start_running [OF inv] that by blast
  show "gr_ctx g \<in> rt_cancelled w'" if "stop_cancel w = Ok w'" "g \<in> set (rt_running w')" for w' g
    using that D(4) [of g] by (auto simp: stop_cancel_def split: option.splits)
  show "is_Ok (execute g err w)" if "g \<in> set (rt_running w)" for g err
    using D(2) [OF that] by (simp add: execute_def Let_def)
  show "stop_return waits w \<noteq> None \<longleftrightarrow> rt_running w = []" if "ranges waits (m_instances (rt_m w))"
  proof
    show "rt_running w = []" if "stop_return waits w \<noteq> None"
      using stop_return_none_left(1) [OF inv \<open>ranges waits (m_instances (rt_m w))\<close>] that by blast
    show "stop_return waits w \<noteq> None" if "rt_running w = []"
      using D(6) that by (auto simp: stop_return_def tracker_wait_def split: option.split)
  qed
qed

text \<open>A manager with one routine, from its start until it has stopped.\<close>

definition demo_routines :: "unit Routines" where
  "demo_routines = \<lparr>rt_m = Manager_Add ''duty-worker'' () NewManager, rt_next = 0, rt_cancelled = {}, rt_closed = {},
     rt_running = [], rt_log = []\<rparr>"

definition demo_started :: "unit Routines" where "demo_started = Manager_Start [''duty-worker''] demo_routines"

lemma demo_routine_runs: "routine_run demo_routines" "routine_run demo_started"
proof -
  show run: "routine_run demo_routines"
    using routine_run.add [OF routine_run.fresh, of "''duty-worker''" "()"] by (simp add: demo_routines_def)
  show "routine_run demo_started" unfolding demo_started_def
    by (rule routine_run.start [OF run]) (simp_all add: demo_routines_def Manager_Add_def NewManager_def ranges_def)
qed

theorem routines_started_and_stopped_witness:
  "map gr_name (rt_running demo_started) = [''duty-worker''] \<and> stop_return [''duty-worker''] demo_started = None"
proof -
  have start: "m_instances (rt_m demo_routines) = Map.empty \<and> ranges [''duty-worker''] (m_routines (rt_m demo_routines))"
    by (simp add: demo_routines_def Manager_Add_def NewManager_def ranges_def)
  have "map (\<lambda>g. (gr_ctx g, gr_name g, Some (gr_routine g))) (rt_running demo_started) = [(0, ''duty-worker'', Some ())]"
    using routines_started_and_stopped [OF demo_routine_runs(1), of "[''duty-worker'']"] start
    by (simp add: demo_started_def) (simp add: demo_routines_def Manager_Add_def NewManager_def)
  then have running: "map gr_name (rt_running demo_started) = [''duty-worker'']" by auto
  have "ranges [''duty-worker''] (m_instances (rt_m demo_started))"
    by (simp add: demo_started_def demo_routines_def Manager_Start_def Let_def start_one_def Manager_Add_def NewManager_def ranges_def)
  then show ?thesis
    using running routines_started_and_stopped [OF demo_routine_runs(2), of "[]" "[''duty-worker'']"] by auto
qed

end
