(* ===== verification/ServerStart.thy ===== *)
theory ServerStart
  imports ServerProps Routine
begin

text \<open>
  The state a server starts in: what \<open>NewServer\<close> makes of the database on disk and of the configured
  keys, and what \<open>Run\<close> starts.
\<close>

section \<open>Running the server\<close>

text \<open>
  \<open>Run\<close> starts the routine manager, whose routines \<open>setupRoutines\<close> has added; the manager itself is
  in Routine, and the background context is the root of the contexts there.
\<close>

definition srv_Manager :: "('m, 'b) Server \<Rightarrow> routine Manager" where
  "srv_Manager v = NewManager\<lparr>m_routines := srv_routines v\<rparr>"

definition Server_Run :: "string list \<Rightarrow> ('m, 'b) Server \<Rightarrow> routine Routines" where
  "Server_Run order v = Manager_Start order
     \<lparr>rt_m = srv_Manager v, rt_next = 0, rt_cancelled = {}, rt_closed = {}, rt_running = [], rt_log = []\<rparr>"

section \<open>Starting\<close>

lemma validatorFromPrivKey_new:
  "validatorFromPrivKey lib k = Ok val \<Longrightarrow> v_Metadata val = None \<and> v_PrivKey val = k"
  by (auto simp: validatorFromPrivKey_def outcome_simps)

lemma omap_Ok_all: "omap f xs = Ok ys \<Longrightarrow> y \<in> set ys \<Longrightarrow> \<exists>x \<in> set xs. f x = Ok y"
  by (induction xs arbitrary: ys) (auto simp: outcome_simps)

lemma NewServer_Ok:
  assumes "NewServer lib config = Ok v"
  shows "\<exists>s vals. NewState (lib_State lib) ''eth-validator.db'' = Ok s \<and>
    omap (validatorFromPrivKey lib) (cfg_PrivKey config) = Ok vals \<and>
    UpsertValidator (lib_State lib) s vals = (srv_state v, Ok ()) \<and>
    srv_evalQueue v = NewEvalQueue \<and> srv_config v = config \<and>
    srv_routines v = [''watch-duties'' \<mapsto> WatchDuties, ''validator-lifecycle'' \<mapsto> ValidatorLifecycle, ''duty-worker'' \<mapsto> DutyWorker]"
  using assms unfolding NewServer_def
  by (cases "NewState (lib_State lib) ''eth-validator.db''")
    (auto simp: outcome_simps Let_def setupRoutines_def case_prod_unfold prod_eq_iff)

lemma Server_Run_starts:
  assumes "NewServer lib config = Ok v" "ranges order (srv_routines v)"
  shows "map (\<lambda>g. (gr_name g, Some (gr_routine g))) (rt_running (Server_Run order v)) = map (\<lambda>n. (n, srv_routines v n)) order"
    "set order = {''watch-duties'', ''validator-lifecycle'', ''duty-worker''}"
proof -
  let ?w = "\<lparr>rt_m = srv_Manager v, rt_next = 0, rt_cancelled = {}, rt_closed = {}, rt_running = [], rt_log = []\<rparr>"
  have "routine_inv ?w" by (rule routine_invI) (simp_all add: srv_Manager_def NewManager_def)
  then have "map (\<lambda>g. (gr_ctx g, gr_name g, Some (gr_routine g))) (rt_running (Server_Run order v)) = map (\<lambda>n. (0, n, srv_routines v n)) order"
    using Start_running [of ?w order] assms(2) by (simp add: Server_Run_def srv_Manager_def NewManager_def)
  from arg_cong [OF this, of "map snd"]
  show "map (\<lambda>g. (gr_name g, Some (gr_routine g))) (rt_running (Server_Run order v)) = map (\<lambda>n. (n, srv_routines v n)) order"
    by (simp add: o_def)
  show "set order = {''watch-duties'', ''validator-lifecycle'', ''duty-worker''}"
    using NewServer_Ok [OF assms(1)] assms(2) by (auto simp: ranges_def split: if_splits)
qed

lemma running_restart:
  assumes run: "running lib rows contents s0" and op: "bolt_Open lib path = Ok db" "contents db = contents (s_db s0)"
    and new: "NewState lib path = Ok s"
  shows "running lib rows contents s" "rows (s_memdb s) dutiesTable = norm_raw ` rows (s_memdb s0) dutiesTable"
    "rows (s_memdb s) validatorsTable = rows (s_memdb s0) validatorsTable"
proof -
  note laws = running_laws [OF run] and con = running_consistent [OF run]
  have ok: "disk_ok lib (contents db dutiesBucket) dutiesTable duty0" "disk_ok lib (contents db validatorsBucket) validatorsTable validator0"
    using con op(2) by (simp_all add: consistent_def mirrored_def)
  show "running lib rows contents s"
    using run state_run.restart [OF _ op new] by (simp add: running_def)
  note disk = NewState_consistent [OF laws(2,5) op(1) new ok]
  show "rows (s_memdb s) dutiesTable = norm_raw ` rows (s_memdb s0) dutiesTable"
    using disk con op(2) by (simp add: consistent_def mirrored_def)
  have norm: "norm_raw obj = obj" if "obj \<in> rows (s_memdb s0) validatorsTable" for obj
    by (rule validator_row [OF run that]) simp
  then have "norm_raw ` rows (s_memdb s0) validatorsTable = rows (s_memdb s0) validatorsTable" by (force simp: image_iff)
  then show "rows (s_memdb s) validatorsTable = rows (s_memdb s0) validatorsTable"
    using disk con op(2) by (simp add: consistent_def mirrored_def)
qed

text \<open>
  C18: a server that starts holds the validators and duties of the database it opens, except that the
  validator of every configured key is there without index and activation epoch, also when the
  database knew them: none of them is active at any epoch until the first turn of the lifecycle.  No
  stored duty is in its queue.
\<close>

theorem NewServer_registers:
  assumes laws: "lib_laws lib rows contents"
    and disk: "state_run (lib_State lib) contents s0" "bolt_Open (lib_State lib) ''eth-validator.db'' = Ok db" "contents db = contents (s_db s0)"
    and new: "NewServer lib config = Ok v"
  shows "state_run (lib_State lib) contents (srv_state v) \<and> srv_evalQueue v = NewEvalQueue \<and>
    rows (s_memdb (srv_state v)) dutiesTable = norm_raw ` rows (s_memdb s0) dutiesTable \<and>
    (\<exists>vals. omap (validatorFromPrivKey lib) (cfg_PrivKey config) = Ok vals \<and>
      (\<forall>w. ValidatorObj w \<in> rows (s_memdb (srv_state v)) validatorsTable \<longleftrightarrow>
         latest_validator (v_PubKey w) vals = Some w \<or>
         (v_PubKey w \<notin> v_PubKey ` set vals \<and> ValidatorObj w \<in> rows (s_memdb s0) validatorsTable)) \<and>
      (\<forall>e active. GetValidatorsActiveAt (lib_State lib) (srv_state v) e = Ok active \<longrightarrow>
         (\<forall>w \<in> set active. v_PubKey w \<notin> v_PubKey ` set vals)))"
proof -
  obtain s vals where s: "NewState (lib_State lib) ''eth-validator.db'' = Ok s" "omap (validatorFromPrivKey lib) (cfg_PrivKey config) = Ok vals"
      "UpsertValidator (lib_State lib) s vals = (srv_state v, Ok ())" "srv_evalQueue v = NewEvalQueue"
    using NewServer_Ok [OF new] by blast
  note st = running_restart [OF runningI [OF laws disk(1)] disk(2,3) s(1)]
  note up = UpsertValidator_duties [OF st(1) s(3)] UpsertValidator_rows [OF st(1) s(3)]
  have row: "ValidatorObj w \<in> rows (s_memdb (srv_state v)) validatorsTable \<longleftrightarrow> latest_validator (v_PubKey w) vals = Some w \<or>
      (v_PubKey w \<notin> v_PubKey ` set vals \<and> ValidatorObj w \<in> rows (s_memdb s0) validatorsTable)" for w
    by (simp add: up(3) latest_validator_None st(3))
  have fresh: "v_Metadata w = None" if "latest_validator k vals = Some w" for k w
    using omap_Ok_all [OF s(2)] latest_validator_key [OF that] validatorFromPrivKey_new by blast
  have inactive: "v_PubKey w \<notin> v_PubKey ` set vals"
    if "GetValidatorsActiveAt (lib_State lib) (srv_state v) e = Ok active" "w \<in> set active" for e active w
  proof -
    have w: "ValidatorObj w \<in> rows (s_memdb (srv_state v)) validatorsTable" "v_Metadata w \<noteq> None"
      using GetValidatorsActiveAt_spec [OF up(1), of e] that by auto
    then show ?thesis using fresh [of "v_PubKey w" w] by (auto simp: row)
  qed
  show ?thesis
    using up(1,2) st(2) s(2,4) row inactive by (auto simp: running_def)
qed

text \<open>
  A database with one active validator, opened by a server that has its key: the validator is pending
  again.
\<close>

definition node_client :: http_Client where
  "node_client = \<lparr>hc_Node_Syncing = unimplemented, hc_Beacon_Genesis = Ok \<lparr>gi_Time = 0, gi_Root = []\<rparr>,
     hc_Client_Events = \<lambda>_. unimplemented, hc_Validator_GetAttesterDuties = \<lambda>_ _. unimplemented,
     hc_Validator_GetProposerDuties = \<lambda>_. unimplemented, hc_Validator_GetCommitteeSyncDuties = \<lambda>_ _. unimplemented,
     hc_Beacon_SubmitCommitteeDuties = \<lambda>_. unimplemented, hc_Beacon_GetValidatorByPubKey = \<lambda>_ _. unimplemented,
     hc_Validator_GetBlock = \<lambda>_ _ _. unimplemented, hc_Beacon_PublishSignedBlock = \<lambda>_. unimplemented,
     hc_Validator_RequestAttestationData = \<lambda>_ _. unimplemented, hc_Beacon_PublishAttestations = \<lambda>_. unimplemented,
     hc_Validator_AggregateAttestation = \<lambda>_ _. unimplemented, hc_Validator_PublishAggregateAndProof = \<lambda>_. unimplemented,
     hc_Beacon_GetRoot = \<lambda>_. unimplemented, hc_Config_Spec = Ok demo_Spec,
     hc_Validator_SyncCommitteeContribution = \<lambda>_ _ _. unimplemented,
     hc_Validator_SubmitSignedContributionAndProof = \<lambda>_. unimplemented,
     hc_Validator_SyncCommitteeSubscriptions = \<lambda>_. unimplemented, hc_Validator_BeaconCommitteeSubscriptions = \<lambda>_. unimplemented\<rparr>"

definition start_file :: "string \<Rightarrow> ref_bolt" where
  "start_file path = (if path = ''eth-validator.db'' then (\<lambda>_. [])(validatorsBucket := [(bytes_of_string ''aa'', [3])]) else (\<lambda>_. []))"

definition start_lib :: "(ref_mem, ref_bolt, unit) ServerLib" where
  "start_lib = new_lib\<lparr>lib_State := ref_lib start_file [([3], ValidatorObj demo_val), ([4], ValidatorObj new_val)],
     lib_Client := \<lambda>_. node_client\<rparr>"

definition start_config :: Config where "start_config = DefaultConfig\<lparr>cfg_PrivKey := [''01'']\<rparr>"

lemma start_laws: "lib_laws start_lib ref_rows ref_contents"
  by (simp add: lib_laws_def start_lib_def ref_memdb_laws ref_bolt_laws ref_codec_laws)

lemma start_disk:
  "state_run (lib_State start_lib) ref_contents run_s0"
  "bolt_Open (lib_State start_lib) ''eth-validator.db'' = Ok (s_db run_s0)"
proof -
  have "NewState (lib_State start_lib) ''new'' = Ok demo_s0" "bolt_Open (lib_State start_lib) ''new'' = Ok (\<lambda>_. [])"
    by (simp_all add: start_lib_def start_file_def NewState_def ref_lib_def reIndex_def indexObject_def demo_s0_def)
  then have "state_run (lib_State start_lib) ref_contents demo_s0"
    using state_run.fresh [of "lib_State start_lib" "''new''" "\<lambda>_. []" ref_contents demo_s0] by (simp add: ref_contents_def)
  moreover have "UpsertValidator (lib_State start_lib) demo_s0 [demo_val] = (run_s0, Ok ())"
    by (simp add: UpsertValidator_def upsert_validator_def dbPut_def update_both_def start_lib_def ref_lib_def demo_insertable
        demo_s0_def run_s0_def) (simp add: demo_val_def)
  ultimately show "state_run (lib_State start_lib) ref_contents run_s0"
    using state_run.validators [of "lib_State start_lib" ref_contents demo_s0 "[demo_val]"] by simp
  show "bolt_Open (lib_State start_lib) ''eth-validator.db'' = Ok (s_db run_s0)"
    by (simp add: start_lib_def ref_lib_def start_file_def run_s0_def)
qed

lemma start_key: "validatorFromPrivKey start_lib ''01'' = Ok new_val"
  by (simp add: validatorFromPrivKey_def run_key start_lib_def new_lib_def run_lib_def new_val_def demo_val_def del: DecodeString.simps)
    code_simp

lemma start_open: "NewState (lib_State start_lib) ''eth-validator.db'' = Ok run_s0"
  by (simp add: start_lib_def start_file_def NewState_def ref_lib_def reIndex_def indexObject_def dbGet_def run_s0_def
      demo_insertable(3) [unfolded validatorsTable_def] validatorsTable_def dutiesBucket_def validatorsBucket_def bytes_of_string_def)

lemma start_ok: "is_Ok (NewServer start_lib start_config)"
proof -
  have "snd (UpsertValidator (lib_State start_lib) run_s0 [new_val]) = Ok ()"
    by (simp add: UpsertValidator_def upsert_validator_def dbPut_def update_both_def start_lib_def ref_lib_def new_insertable)
  then show ?thesis
    by (simp add: NewServer_def start_open start_config_def DefaultConfig_def start_key Let_def case_prod_unfold setupGRPCServer_def
        HttpAPI_Api_def NewHttpAPI_def http_ConfigSpec_def http_Genesis_def) (simp add: start_lib_def new_lib_def run_lib_def node_client_def)
qed

theorem NewServer_registers_witness:
  "\<exists>v. NewServer start_lib start_config = Ok v \<and> ref_rows (s_memdb run_s0) validatorsTable = {ValidatorObj demo_val} \<and>
     ValidatorObj new_val \<in> ref_rows (s_memdb (srv_state v)) validatorsTable \<and>
     ValidatorObj demo_val \<notin> ref_rows (s_memdb (srv_state v)) validatorsTable"
proof -
  obtain v where v: "NewServer start_lib start_config = Ok v"
    using start_ok by (cases "NewServer start_lib start_config") auto
  have "omap (validatorFromPrivKey start_lib) (cfg_PrivKey start_config) = Ok [new_val]"
    by (simp add: start_config_def start_key)
  then show ?thesis
    using NewServer_registers [OF start_laws start_disk refl v] v run_val
    by (auto simp: ref_rows_def run_s0_def) (simp_all add: demo_val_def)
qed

end
