(* ===== verification/Agent.thy ===== *)
theory Agent
  imports ServerStart
begin

text \<open>
  The command that runs the validator, \<open>internal/cmd/server/command.go\<close> and \<open>config.go\<close>: reading its
  configuration from flags and a file, building the configuration of the server, starting it, and
  stopping on a signal.

  The flag library, the file system, the HCL decoder, the merging of structures and the debug and
  metrics endpoints are parameters, the record \<open>AgentLib\<close>.  The value of the key manager section,
  which the program never reads, stays in a type variable.
\<close>

section \<open>Configuration\<close>

record 'k agent_Config =
  ac_DepositAddress :: string
  ac_Endpoint :: string
  ac_LogLevel :: string
  ac_Debug :: bool
  ac_PrivKey :: string
  ac_DataDir :: string
  ac_BeaconChain :: string
  ac_Keymanager :: "(string \<rightharpoonup> string \<rightharpoonup> 'k) option"
  ac_OtelEndpoint :: string

definition zero_Config :: "'k agent_Config" where
  "zero_Config = \<lparr>ac_DepositAddress = [], ac_Endpoint = [], ac_LogLevel = [], ac_Debug = False, ac_PrivKey = [], ac_DataDir = [],
     ac_BeaconChain = [], ac_Keymanager = None, ac_OtelEndpoint = []\<rparr>"

datatype flag_value = StringValue string | BoolValue bool

type_synonym flag_set = "string \<times> (string \<times> flag_value) list"

text \<open>
  The flags of a set are bound to variables: parsing gives the value of each.  \<open>mergo.Merge\<close> changes its
  first argument also where it fails.
\<close>

record 'k AgentLib =
  al_Parse :: "flag_set \<Rightarrow> string list \<Rightarrow> (string \<Rightarrow> flag_value) outcome"
  al_ReadFile :: "string \<Rightarrow> string outcome"
  al_Decode :: "'k agent_Config \<Rightarrow> string \<Rightarrow> 'k agent_Config outcome"
  al_Merge :: "'k agent_Config \<Rightarrow> 'k agent_Config \<Rightarrow> 'k agent_Config \<times> unit outcome"
  al_ListenDebugger :: "unit outcome"
  al_PrometheusSink :: "unit outcome"
  al_Error :: "go_error \<Rightarrow> string"

definition agent_DefaultConfig :: "'k agent_Config" where
  "agent_DefaultConfig = zero_Config\<lparr>ac_LogLevel := ''INFO''\<rparr>"

definition loadConfig :: "'k AgentLib \<Rightarrow> string \<Rightarrow> 'k agent_Config outcome" where
  "loadConfig lib path = obind (al_ReadFile lib path) (\<lambda>data. al_Decode lib zero_Config data)"

fun Config_Merge :: "'k AgentLib \<Rightarrow> 'k agent_Config \<Rightarrow> 'k agent_Config list \<Rightarrow> 'k agent_Config \<times> unit outcome" where
  "Config_Merge lib c [] = (c, Ok ())"
| "Config_Merge lib c (i # c1) =
     (case al_Merge lib c i of
        (c', Ok _) \<Rightarrow> Config_Merge lib c' c1
      | (c', Err e) \<Rightarrow> (c', Err e)
      | (c', Panic p) \<Rightarrow> (c', Panic p))"

fun string_value :: "flag_value \<Rightarrow> string" where
  "string_value (StringValue s) = s" | "string_value (BoolValue b) = []"

fun bool_value :: "flag_value \<Rightarrow> bool" where
  "bool_value (BoolValue b) = b" | "bool_value (StringValue s) = False"

definition agent_flags :: flag_set where
  "agent_flags = (''agent'', [(''config'', StringValue []), (''log-level'', StringValue []), (''data-dir'', StringValue []),
     (''debug'', BoolValue False), (''beacon-chain'', StringValue []), (''endpoint'', StringValue []), (''priv-key'', StringValue []),
     (''otel-endpoint'', StringValue [])])"

definition cli_Config :: "(string \<Rightarrow> flag_value) \<Rightarrow> 'k agent_Config" where
  "cli_Config fl = zero_Config\<lparr>ac_LogLevel := string_value (fl ''log-level''), ac_DataDir := string_value (fl ''data-dir''),
     ac_Debug := bool_value (fl ''debug''), ac_BeaconChain := string_value (fl ''beacon-chain''), ac_Endpoint := string_value (fl ''endpoint''),
     ac_PrivKey := string_value (fl ''priv-key''), ac_OtelEndpoint := string_value (fl ''otel-endpoint'')\<rparr>"

text \<open>\<open>if err := config.Merge(c); err != nil { return nil, err }\<close>.\<close>

definition merged :: "'k AgentLib \<Rightarrow> 'k agent_Config \<Rightarrow> 'k agent_Config \<Rightarrow> 'k agent_Config outcome" where
  "merged lib config c = (let (config', r) = Config_Merge lib config [c] in obind r (\<lambda>_. Ok config'))"

definition readConfig :: "'k AgentLib \<Rightarrow> string list \<Rightarrow> 'k agent_Config outcome" where
  "readConfig lib args =
     obind (al_Parse lib agent_flags args) (\<lambda>fl.
     let configFilePath = string_value (fl ''config''); config = agent_DefaultConfig in
     obind (if configFilePath \<noteq> [] then obind (loadConfig lib configFilePath) (\<lambda>configFile. merged lib config configFile) else Ok config) (\<lambda>config1.
     merged lib config1 (cli_Config fl)))"

text \<open>\<open>strings.Split\<close> with a separator of one character.\<close>

fun Split :: "char \<Rightarrow> string \<Rightarrow> string list" where
  "Split c [] = [[]]"
| "Split c (x # xs) = (if x = c then [] # Split c xs else (x # hd (Split c xs)) # tl (Split c xs))"

definition buildValidatorConfig :: "'k AgentLib \<Rightarrow> 'k agent_Config \<Rightarrow> Config outcome" where
  "buildValidatorConfig lib c =
     (let cc = DefaultConfig\<lparr>cfg_Endpoint := ac_Endpoint c, cfg_TelemetryOLTPExporter := ac_OtelEndpoint c\<rparr> in
      if ac_PrivKey c \<noteq> []
      then obind (al_ReadFile lib (ac_PrivKey c)) (\<lambda>buf. Ok (cc\<lparr>cfg_PrivKey := Split (CHR 0x0A) buf\<rparr>))
      else Ok cc)"

section \<open>The command\<close>

datatype agent_ui = AgentOutput string | AgentError string

text \<open>
  How the wait for the shutdown ends: by a second signal, after ten seconds, or because \<open>Stop\<close> has
  returned.  \<open>Stop\<close> runs in a goroutine of its own, so that its panic ends the program.
\<close>

datatype shutdown = SecondSignal | TimeUp | Stopped

definition handleSignals :: "('m, 'b, 'key) ServerLib \<Rightarrow> ('m, 'b) Server \<Rightarrow> string \<Rightarrow> shutdown \<Rightarrow> (agent_ui list \<times> int) outcome" where
  "handleSignals lib v sig how =
     (let out = [AgentOutput (''Caught signal: '' @ sig), AgentOutput ''Gracefully shutting down agent...''] in
      case how of
        SecondSignal \<Rightarrow> Ok (out, 1)
      | TimeUp \<Rightarrow> Ok (out, 1)
      | Stopped \<Rightarrow> (case Stop lib v of Panic p \<Rightarrow> Panic p | _ \<Rightarrow> Ok (out, 0)))"

text \<open>
  \<open>setupTelemetry\<close> gives the sinks of the global metrics of the service: one in memory, with its
  interval and what it retains, and the one that Prometheus reads.
\<close>

datatype metrics_sink = InmemSink Duration Duration | PrometheusSink

definition agent_setupTelemetry :: "'k AgentLib \<Rightarrow> (string \<times> metrics_sink list) outcome" where
  "agent_setupTelemetry al =
     (let inm = InmemSink (10 * Second) (60 * Second) in
      obind (al_PrometheusSink al) (\<lambda>_. Ok (''eth2-validator'', [inm, PrometheusSink])))"

text \<open>An error ends the command with a line and the exit code 1, on the left; on the right it goes on.\<close>

type_synonym agent_exit = "agent_ui list \<times> int"

definition or_output :: "'k AgentLib \<Rightarrow> string \<Rightarrow> 'a outcome \<Rightarrow> ('a \<Rightarrow> (agent_exit + 'b) outcome) \<Rightarrow> (agent_exit + 'b) outcome" where
  "or_output al what r f =
     (case r of Ok x \<Rightarrow> f x | Err e \<Rightarrow> Ok (Inl ([AgentOutput (what @ '': '' @ al_Error al e)], 1)) | Panic p \<Rightarrow> Panic p)"

text \<open>
  \<open>Run\<close>: the http server of the metrics runs in a goroutine and only logs its errors; \<open>Run\<close> of the
  server starts its routines, in the order in which the map of them is read, and returns.
\<close>

definition agent_Start :: "'k AgentLib \<Rightarrow> ('m, 'b, 'key) ServerLib \<Rightarrow> string list \<Rightarrow> string list \<Rightarrow>
    (agent_exit + (('m, 'b) Server \<times> routine Routines)) outcome" where
  "agent_Start al lib order args =
     or_output al ''failed to read config'' (readConfig al args) (\<lambda>config.
     or_output al ''failed to start gops debugger'' (if ac_Debug config then al_ListenDebugger al else Ok ()) (\<lambda>_.
     or_output al ''failed to build validator config'' (buildValidatorConfig al config) (\<lambda>clientConfig.
     case agent_setupTelemetry al of
       Err e \<Rightarrow> Ok (Inl ([AgentError (al_Error al e)], 1))
     | Panic p \<Rightarrow> Panic p
     | Ok _ \<Rightarrow>
         or_output al ''failed to start validator'' (NewServer lib clientConfig) (\<lambda>client.
         Ok (Inr (client, Server_Run order client))))))"

definition agent_Run :: "'k AgentLib \<Rightarrow> ('m, 'b, 'key) ServerLib \<Rightarrow> string list \<Rightarrow> string \<Rightarrow> shutdown \<Rightarrow> string list \<Rightarrow> agent_exit outcome" where
  "agent_Run al lib order sig how args =
     obind (agent_Start al lib order args) (\<lambda>st.
       case st of Inl code \<Rightarrow> Ok code | Inr (client, _) \<Rightarrow> handleSignals lib client sig how)"

text \<open>
  A command that got as far as waiting for a signal has a server built from the configuration it read, and
  that server's three routines run.
\<close>

lemma or_output_Inr: "or_output al what r f = Ok (Inr y) \<longleftrightarrow> (\<exists>x. r = Ok x \<and> f x = Ok (Inr y))"
  by (cases r) (simp_all add: or_output_def)

lemma agent_Start_Inr:
  assumes "agent_Start al lib order args = Ok (Inr (client, rts))"
  shows "\<exists>c cc. readConfig al args = Ok c \<and> buildValidatorConfig al c = Ok cc \<and> NewServer lib cc = Ok client \<and>
    rts = Server_Run order client"
  using assms by (cases "agent_setupTelemetry al") (auto simp: agent_Start_def or_output_Inr)

lemma agent_Start_routines:
  assumes "agent_Start al lib order args = Ok (Inr (client, rts))" "ranges order (srv_routines client)"
  shows "gr_name ` set (rt_running rts) = {''watch-duties'', ''validator-lifecycle'', ''duty-worker''}"
proof -
  obtain cc where cc: "NewServer lib cc = Ok client" "rts = Server_Run order client"
    using agent_Start_Inr [OF assms(1)] by blast
  have "map gr_name (rt_running rts) = order"
    using arg_cong [OF Server_Run_starts(1) [OF cc(1) assms(2)], of "map fst"] by (simp add: cc(2) o_def)
  then have "gr_name ` set (rt_running rts) = set order" by (metis set_map)
  then show ?thesis using Server_Run_starts(2) [OF cc(1) assms(2)] by simp
qed

text \<open>The exit code is 0 only if \<open>Stop\<close> returned before a second signal and before the timeout.\<close>

lemma or_output_Inl: "or_output al what r f = Ok (Inl z) \<Longrightarrow> snd z = 1 \<or> (\<exists>x. r = Ok x \<and> f x = Ok (Inl z))"
  by (cases r) (auto simp: or_output_def)

lemma agent_Start_Inl: "agent_Start al lib order args = Ok (Inl z) \<Longrightarrow> snd z = 1"
  unfolding agent_Start_def
  by (cases "agent_setupTelemetry al") (auto dest!: or_output_Inl)

lemma handleSignals_exit:
  "handleSignals lib v sig how = Ok (out, code) \<Longrightarrow> code = 1 \<or> code = 0 \<and> how = Stopped \<and> (\<forall>p. Stop lib v \<noteq> Panic p)"
  by (cases how; cases "Stop lib v") (auto simp: handleSignals_def Let_def)

lemma agent_Run_exit:
  assumes "agent_Run al lib order sig how args = Ok (out, code)"
  shows "code = 1 \<or> code = 0 \<and> how = Stopped \<and>
    (\<exists>client rts. agent_Start al lib order args = Ok (Inr (client, rts)) \<and> (\<forall>p. Stop lib client \<noteq> Panic p))"
proof -
  obtain st where st: "agent_Start al lib order args = Ok st" "(case st of Inl c \<Rightarrow> Ok c | Inr (v, _) \<Rightarrow> handleSignals lib v sig how) = Ok (out, code)"
    using assms by (auto simp: agent_Run_def outcome_simps)
  then show ?thesis
    by (cases st) (auto dest: agent_Start_Inl dest!: handleSignals_exit split: prod.splits)
qed

section \<open>Reading the configuration\<close>

text \<open>What \<open>mergo.Merge\<close> with override documents: a field of the source that is not empty replaces the other.\<close>

definition override :: "string \<Rightarrow> string \<Rightarrow> string" where
  "override old new = (if new \<noteq> [] then new else old)"

definition merge_law :: "'k AgentLib \<Rightarrow> bool" where
  "merge_law lib \<longleftrightarrow> (\<forall>d s. \<exists>c. al_Merge lib d s = (c, Ok ()) \<and>
     ac_Endpoint c = override (ac_Endpoint d) (ac_Endpoint s) \<and> ac_LogLevel c = override (ac_LogLevel d) (ac_LogLevel s) \<and>
     ac_PrivKey c = override (ac_PrivKey d) (ac_PrivKey s) \<and> ac_Debug c = (ac_Debug d \<or> ac_Debug s))"

lemma merged_fields:
  assumes "merge_law lib"
  shows "\<exists>c. merged lib d s = Ok c \<and>
     ac_Endpoint c = override (ac_Endpoint d) (ac_Endpoint s) \<and> ac_LogLevel c = override (ac_LogLevel d) (ac_LogLevel s) \<and>
     ac_PrivKey c = override (ac_PrivKey d) (ac_PrivKey s) \<and> ac_Debug c = (ac_Debug d \<or> ac_Debug s)"
proof -
  obtain c where "al_Merge lib d s = (c, Ok ())" "ac_Endpoint c = override (ac_Endpoint d) (ac_Endpoint s)"
      "ac_LogLevel c = override (ac_LogLevel d) (ac_LogLevel s)" "ac_PrivKey c = override (ac_PrivKey d) (ac_PrivKey s)"
      "ac_Debug c = (ac_Debug d \<or> ac_Debug s)"
    using assms unfolding merge_law_def by metis
  then show ?thesis by (simp add: merged_def)
qed

text \<open>Flags come before the file, and the file before the defaults.\<close>

lemma readConfig_precedence:
  assumes "merge_law lib" "al_Parse lib agent_flags args = Ok fl" "string_value (fl ''config'') \<noteq> []"
    and conf: "loadConfig lib (string_value (fl ''config'')) = Ok fc"
  shows "\<exists>c. readConfig lib args = Ok c \<and>
    ac_LogLevel c = override (override ''INFO'' (ac_LogLevel fc)) (string_value (fl ''log-level'')) \<and>
    ac_Endpoint c = override (ac_Endpoint fc) (string_value (fl ''endpoint'')) \<and>
    ac_PrivKey c = override (ac_PrivKey fc) (string_value (fl ''priv-key'')) \<and>
    ac_Debug c = (ac_Debug fc \<or> bool_value (fl ''debug''))"
proof -
  obtain c1 where c1: "merged lib agent_DefaultConfig fc = Ok c1" "ac_Endpoint c1 = override [] (ac_Endpoint fc)"
      "ac_LogLevel c1 = override ''INFO'' (ac_LogLevel fc)" "ac_PrivKey c1 = override [] (ac_PrivKey fc)" "ac_Debug c1 = ac_Debug fc"
    using merged_fields [OF assms(1), of agent_DefaultConfig fc] by (auto simp: agent_DefaultConfig_def zero_Config_def)
  obtain c where "merged lib c1 (cli_Config fl) = Ok c" "ac_Endpoint c = override (ac_Endpoint c1) (string_value (fl ''endpoint''))"
      "ac_LogLevel c = override (ac_LogLevel c1) (string_value (fl ''log-level''))"
      "ac_PrivKey c = override (ac_PrivKey c1) (string_value (fl ''priv-key''))" "ac_Debug c = (ac_Debug c1 \<or> bool_value (fl ''debug''))"
    using merged_fields [OF assms(1), of c1 "cli_Config fl"] by (auto simp: cli_Config_def)
  then show ?thesis
    using c1 assms(2,3) conf by (simp add: readConfig_def Let_def override_def)
qed

section \<open>The key file\<close>

lemma Split_nonempty: "Split c s \<noteq> []"
  by (cases s) auto

text \<open>The pieces hold no separator and join to the text again.\<close>

fun join :: "char \<Rightarrow> string list \<Rightarrow> string" where
  "join c [] = []"
| "join c [p] = p"
| "join c (p # q # ps) = p @ c # join c (q # ps)"

lemma join_Cons: "ps \<noteq> [] \<Longrightarrow> join c ((x # hd ps) # tl ps) = x # join c ps"
  by (cases ps; cases "tl ps") auto

lemma Split_join: "join c (Split c s) = s" "p \<in> set (Split c s) \<Longrightarrow> c \<notin> set p"
proof -
  show "join c (Split c s) = s"
  proof (induction s)
    case (Cons x s)
    show ?case
    proof (cases "x = c")
      case True
      then show ?thesis using Cons Split_nonempty [of c s] by (cases "Split c s") simp_all
    qed (simp add: join_Cons Split_nonempty Cons)
  qed simp
  show "c \<notin> set p" if "p \<in> set (Split c s)"
    using that
  proof (induction s arbitrary: p)
    case (Cons x s)
    then show ?case using Split_nonempty [of c s] by (cases "Split c s") (auto split: if_splits)
  qed simp
qed

lemma Split_trailing: "Split c (s @ [c]) = Split c s @ [[]]"
  by (induction s) (auto simp: Split_nonempty)

text \<open>
  A key file that ends in a newline, as text files do, has an empty key after it: the server does not
  start if the BLS library refuses an empty key.
\<close>

lemma trailing_newline_refused:
  assumes "al_ReadFile al (ac_PrivKey c) = Ok (keys @ [CHR 0x0A])" "ac_PrivKey c \<noteq> []" "bls_NewKeyFromPriv lib [] = Err e"
  shows "\<exists>cc. buildValidatorConfig al c = Ok cc \<and> last (cfg_PrivKey cc) = [] \<and> \<not> is_Ok (NewServer lib cc)"
proof -
  let ?cc = "DefaultConfig\<lparr>cfg_Endpoint := ac_Endpoint c, cfg_TelemetryOLTPExporter := ac_OtelEndpoint c,
    cfg_PrivKey := Split (CHR 0x0A) keys @ [[]]\<rparr>"
  have cc: "buildValidatorConfig al c = Ok ?cc"
    using assms(1,2) by (simp add: buildValidatorConfig_def Let_def Split_trailing)
  have bad: "omap (validatorFromPrivKey lib) (ks @ [[]]) \<noteq> Ok vals" for ks vals
    by (induction ks arbitrary: vals) (auto simp: outcome_simps validatorFromPrivKey_def assms(3))
  have "\<not> is_Ok (NewServer lib ?cc)"
  proof (cases "NewServer lib ?cc")
    case (Ok v)
    then show ?thesis using NewServer_Ok [OF Ok] bad by simp
  qed simp_all
  then show ?thesis using cc by simp
qed

end
