(* ===== verification/QueueLoop.thy ===== *)
theory QueueLoop
  imports QueueRuns
begin

text \<open>
  The goroutine \<open>runDelayHeap\<close> of \<open>internal/server/duty_queue.go\<close>, which moves waiting duties to the
  ready list, next to the other users of the queue.  It looks for the next duty, arms a timer and waits
  for the timer or for a notification.  \<open>delayUpdateCh\<close> has no buffer and the senders do not wait, so
  that a notification reaches the goroutine only while it waits.  A clock says when a timer may fire.

  What is shown: the duties that are due are launched, all of them and in order; no duty is launched
  before its time; and a notification that comes between the look and the wait is lost.
\<close>

section \<open>The goroutine\<close>

datatype loop_phase =
  Looking
| Arming "Duty option" gotime
| Waiting "Duty option" gotime
| Closed

definition look :: "'c DutyQueue \<Rightarrow> loop_phase" where
  "look q = (case nextDelayedEval q of (duty, waitUntil) \<Rightarrow> Arming duty waitUntil)"

fun begin_wait :: "loop_phase \<Rightarrow> loop_phase" where
  "begin_wait (Arming duty waitUntil) = Waiting duty waitUntil"
| "begin_wait p = p"

text \<open>A non-blocking send on \<open>delayUpdateCh\<close>.\<close>

fun notify :: "bool \<Rightarrow> loop_phase \<Rightarrow> loop_phase" where
  "notify True (Waiting duty waitUntil) = Looking"
| "notify sent p = p"

text \<open>The timer is armed unless the time is zero, and fires once its time has come.\<close>

fun timer_due :: "gotime \<Rightarrow> loop_phase \<Rightarrow> Duty option" where
  "timer_due now (Waiting (Some duty) waitUntil) = (if \<not> IsZero waitUntil \<and> waitUntil \<le> now then Some duty else None)"
| "timer_due now p = None"

text \<open>The turns of the loop while timers fire at once and nothing else happens.\<close>

partial_function (option) launch_due :: "gotime \<Rightarrow> 'c DutyQueue \<Rightarrow> 'c DutyQueue option" where
  "launch_due now q =
     (case timer_due now (begin_wait (look q)) of
        None \<Rightarrow> Some q
      | Some duty \<Rightarrow> launch_due now (fire_delayed duty q))"

section \<open>What the goroutine sees\<close>

lemma look_cases:
  assumes "queue_inv q"
  obtains (none) "look q = Arming None zero_time" "dh_abs (q_delayHeap q) = Map.empty"
  | (some) d where "look q = Arming (Some d) (duty_time d)" "dh_abs (q_delayHeap q) (d_Id d) = Some (d, duty_time d)"
      "\<And>i e u. dh_abs (q_delayHeap q) i = Some (e, u) \<Longrightarrow> wait_rank (duty_time d) \<le> wait_rank (duty_time e)"
proof -
  note h = queue_inv_heap [OF assms]
  have len: "dh_Length (q_delayHeap q) = 0 \<longleftrightarrow> dh_Peek (q_delayHeap q) = None"
    using dq.empty_len [OF h] by simp
  show ?thesis
  proof (cases "dh_Peek (q_delayHeap q)")
    case None
    then show ?thesis
      using none len dh_Peek_None [OF h] by (simp add: look_def nextDelayedEval_def)
  next
    case (Some n)
    note top = dh_Peek_Some [OF h Some]
    have t: "dn_WaitUntil n = duty_time (dn_Node n)" using top queue_inv_entry [OF assms] by blast
    show ?thesis
    proof (rule some)
      show "look q = Arming (Some (dn_Node n)) (duty_time (dn_Node n))"
        using len Some t by (simp add: look_def nextDelayedEval_def)
      show "dh_abs (q_delayHeap q) (d_Id (dn_Node n)) = Some (dn_Node n, duty_time (dn_Node n))"
        using top t by simp
      show "wait_rank (duty_time (dn_Node n)) \<le> wait_rank (duty_time e)" if "dh_abs (q_delayHeap q) i = Some (e, u)" for i e u
        using top t that queue_inv_entry [OF assms that] by auto
    qed
  qed
qed

definition due :: "gotime \<Rightarrow> Duty \<Rightarrow> bool" where
  "due now d \<longleftrightarrow> \<not> IsZero (duty_time d) \<and> duty_time d \<le> now"

definition waiting :: "'c DutyQueue \<Rightarrow> Duty set" where
  "waiting q = fst ` ran (dh_abs (q_delayHeap q))"

lemma waiting_iff:
  assumes "queue_inv q"
  shows "d \<in> waiting q \<longleftrightarrow> dh_abs (q_delayHeap q) (d_Id d) = Some (d, duty_time d)"
  using queue_inv_entry [OF assms] by (force simp: waiting_def ran_def image_iff)

lemma waiting_fire:
  assumes inv: "queue_inv q" and d: "d \<in> waiting q"
  shows "waiting (fire_delayed d q) = waiting q - {d}"
proof -
  have w: "dh_abs (q_delayHeap q) (d_Id d) = Some (d, duty_time d)" using d by (simp add: waiting_iff [OF inv])
  note heap = fire_delayed_heap(2) [OF queue_inv_heap [OF inv] waiting_idsI [OF w]]
  have "e \<in> waiting (fire_delayed d q) \<longleftrightarrow> e \<in> waiting q - {d}" for e
    using w by (auto simp: waiting_iff [OF inv] waiting_iff [OF queue_inv_fire(1) [OF inv w]] heap)
  then show ?thesis by blast
qed

lemma timer_look_Some:
  assumes "queue_inv q" "timer_due now (begin_wait (look q)) = Some d"
  shows "d \<in> waiting q" "due now d" "\<And>e. e \<in> waiting q \<Longrightarrow> due now e \<Longrightarrow> duty_time d \<le> duty_time e"
    "dh_abs (q_delayHeap q) (d_Id d) = Some (d, duty_time d)"
proof -
  show "d \<in> waiting q" "due now d" "dh_abs (q_delayHeap q) (d_Id d) = Some (d, duty_time d)"
    using assms(1) by (rule look_cases; use assms(2) in \<open>auto simp: waiting_iff [OF assms(1)] due_def split: if_splits\<close>)+
  show "duty_time d \<le> duty_time e" if "e \<in> waiting q" "due now e" for e
    using assms(1)
  proof (rule look_cases)
    fix d'
    assume "look q = Arming (Some d') (duty_time d')"
      and least: "\<And>i e u. dh_abs (q_delayHeap q) i = Some (e, u) \<Longrightarrow> wait_rank (duty_time d') \<le> wait_rank (duty_time e)"
    then have "d' = d" using assms(2) by (auto split: if_splits)
    then show "duty_time d \<le> duty_time e"
      using least that wait_rank_le_nonzero by (auto simp: waiting_iff [OF assms(1)] due_def)
  qed (use assms(2) in simp)
qed

lemma timer_look_None:
  assumes "queue_inv q" "timer_due now (begin_wait (look q)) = None" "e \<in> waiting q"
  shows "\<not> due now e"
  using assms(1)
proof (rule look_cases)
  assume "dh_abs (q_delayHeap q) = Map.empty"
  then show ?thesis using assms(3) by (simp add: waiting_def)
next
  fix d
  assume d: "look q = Arming (Some d) (duty_time d)"
    and least: "\<And>i e u. dh_abs (q_delayHeap q) i = Some (e, u) \<Longrightarrow> wait_rank (duty_time d) \<le> wait_rank (duty_time e)"
  have "wait_rank (duty_time d) \<le> wait_rank (duty_time e)" using least assms(3) by (auto simp: waiting_iff [OF assms(1)])
  then show ?thesis
    using assms(2) d wait_rank_le_nonzero [of "duty_time d" "duty_time e"] by (auto simp: due_def split: if_splits)
qed

text \<open>
  C13: with the clock at any time the loop stops by itself, after launching exactly the waiting duties
  whose time has come, in the order of their times; the others keep waiting, and what was ready before
  stays in front.
\<close>

theorem due_duties_launched:
  assumes "queue_inv q"
  shows "\<exists>q' ds. launch_due now q = Some q' \<and> q_ready q' = q_ready q @ ds \<and> sorted (map duty_time ds) \<and>
    set ds = {d \<in> waiting q. due now d} \<and> waiting q' = {d \<in> waiting q. \<not> due now d} \<and> queue_inv q'"
  using assms
proof (induction "dh_Length (q_delayHeap q)" arbitrary: q rule: less_induct)
  case less
  note inv = less.prems
  show ?case
  proof (cases "timer_due now (begin_wait (look q))")
    case None
    then show ?thesis
      using timer_look_None [OF inv None] inv
      by (intro exI [of _ q] exI [of _ "[]"]) (auto simp: launch_due.simps [of now q])
  next
    case (Some d)
    note top = timer_look_Some [OF inv Some]
    note wt = waiting_fire [OF inv top(1)] and inv' = queue_inv_fire(1) [OF inv top(4)]
    have "dh_Length (q_delayHeap (fire_delayed d q)) < dh_Length (q_delayHeap q)"
      using fire_delayed_heap(3) [OF queue_inv_heap [OF inv] waiting_idsI [OF top(4)]] by simp
    then obtain q' ds where q': "launch_due now (fire_delayed d q) = Some q'" "q_ready q' = q_ready (fire_delayed d q) @ ds"
        "sorted (map duty_time ds)" "set ds = {e \<in> waiting (fire_delayed d q). due now e}"
        "waiting q' = {e \<in> waiting (fire_delayed d q). \<not> due now e}" "queue_inv q'"
      using less.hyps [OF _ inv'] by blast
    have "launch_due now q = Some q'" using Some q'(1) by (simp add: launch_due.simps [of now q])
    moreover have "sorted (map duty_time (d # ds))" using q'(3,4) top(3) by (auto simp: wt)
    moreover have "set (d # ds) = {e \<in> waiting q. due now e}" "waiting q' = {e \<in> waiting q. \<not> due now e}"
      using q'(4,5) top(1,2) by (auto simp: wt)
    ultimately show ?thesis using q'(2,6) by (intro exI [of _ q'] exI [of _ "d # ds"]) simp
  qed
qed

lemma demo0_waiting: "waiting (sys_q demo0) = {demo_duty ''a'' []}" "duty_time (demo_duty ''a'' []) = 0"
proof -
  have inv: "queue_inv (sys_q demo0)"
    using sys_invD(1) [OF reach_inv [OF demo0_reach [of "\<lambda>_. True", OF TrueI]]] .
  have "dh_abs (q_delayHeap (sys_q demo0)) = [''a'' \<mapsto> (demo_duty ''a'' [], duty_time (demo_duty ''a'' []))]"
    using push_delayed_heap(2) [of "NewEvalQueue :: unit DutyQueue" "demo_duty ''a'' []"]
    by (simp add: demo0_def enqueue_sys_def demo_batch_def init_sys_def Enqueue_def enqueue_one_def enqueue_free_def
        enqueue_blocked_def Let_def new_queue_heap waiting_ids_def)
  then show "waiting (sys_q demo0) = {demo_duty ''a'' []}" by (simp add: waiting_def)
  show "duty_time (demo_duty ''a'' []) = 0" by (simp add: duty_time_def demo_duty_def WithID_def proto_NewDuty_def)
qed

theorem due_duties_launched_witness:
  "\<exists>q'. launch_due 5 (sys_q demo0) = Some q' \<and> set (q_ready q') = {demo_duty ''a'' []} \<and> waiting q' = {}"
proof -
  have inv: "queue_inv (sys_q demo0)"
    using sys_invD(1) [OF reach_inv [OF demo0_reach [of "\<lambda>_. True", OF TrueI]]] .
  show ?thesis
    using due_duties_launched [OF inv, of 5] by (auto simp: demo0_waiting demo0_state due_def IsZero_def zero_time_def)
qed

section \<open>The goroutine next to the users of the queue\<close>

text \<open>
  The state of a run: the system of QueueRuns, the phase of the goroutine and the clock.  Sends of
  \<open>Enqueue\<close> and \<open>Ack\<close> reach the goroutine only while it waits.
\<close>

record 'c loop =
  lp_sys :: "'c qsys"
  lp_phase :: loop_phase
  lp_now :: gotime

abbreviation lp_q :: "'c loop \<Rightarrow> 'c DutyQueue" where
  "lp_q l \<equiv> sys_q (lp_sys l)"

definition loop_enqueue :: "'c \<Rightarrow> Duty list \<Rightarrow> 'c loop \<Rightarrow> 'c loop" where
  "loop_enqueue ctx ds l = l\<lparr>lp_sys := enqueue_sys ctx ds (lp_sys l), lp_phase := notify (fst (Enqueue ctx ds (lp_q l))) (lp_phase l)\<rparr>"

definition loop_ack :: "string \<Rightarrow> 'c loop \<Rightarrow> 'c loop" where
  "loop_ack i l = l\<lparr>lp_sys := ack_sys i (lp_sys l), lp_phase := notify (fst (snd (Ack i (lp_q l)))) (lp_phase l)\<rparr>"

text \<open>The steps in which nobody notifies the goroutine.\<close>

inductive quiet :: "'c loop \<Rightarrow> 'c loop \<Rightarrow> bool" where
  quiet_look: "lp_phase l = Looking \<Longrightarrow> quiet l (l\<lparr>lp_phase := look (lp_q l)\<rparr>)"
| quiet_wait: "lp_phase l = Arming d t \<Longrightarrow> quiet l (l\<lparr>lp_phase := begin_wait (lp_phase l)\<rparr>)"
| quiet_fire: "timer_due (lp_now l) (lp_phase l) = Some d \<Longrightarrow>
    quiet l (l\<lparr>lp_sys := (lp_sys l)\<lparr>sys_q := fire_delayed d (lp_q l)\<rparr>, lp_phase := Looking\<rparr>)"
| quiet_close: "lp_phase l = Waiting d t \<Longrightarrow> quiet l (l\<lparr>lp_phase := Closed\<rparr>)"
| quiet_tick: "lp_now l \<le> now \<Longrightarrow> quiet l (l\<lparr>lp_now := now\<rparr>)"
| quiet_dequeue: "Dequeue (lp_q l) = (Some r, q') \<Longrightarrow> quiet l (l\<lparr>lp_sys := (lp_sys l)\<lparr>sys_q := q'\<rparr>\<rparr>)"
| quiet_ack: "\<not> fst (snd (Ack i (lp_q l))) \<Longrightarrow> quiet l (loop_ack i l)"

inductive loop_run :: "'c loop \<Rightarrow> bool" where
  run_start: "loop_run \<lparr>lp_sys = init_sys, lp_phase = Looking, lp_now = now\<rparr>"
| run_quiet: "loop_run l \<Longrightarrow> quiet l l' \<Longrightarrow> loop_run l'"
| run_enqueue: "loop_run l \<Longrightarrow> distinct (map d_Id ds) \<Longrightarrow> log_ids ds \<inter> log_ids (sys_log (lp_sys l)) = {} \<Longrightarrow>
    loop_run (loop_enqueue ctx ds l)"
| run_ack: "loop_run l \<Longrightarrow> loop_run (loop_ack i l)"

section \<open>Nothing leaves the heap but by the timer\<close>

definition keeps_waiting :: "'c DutyQueue \<Rightarrow> 'c DutyQueue \<Rightarrow> bool" where
  "keeps_waiting q q' \<longleftrightarrow> (dh_inv d_Id (q_delayHeap q) \<longrightarrow>
     dh_inv d_Id (q_delayHeap q') \<and> dh_abs (q_delayHeap q) \<subseteq>\<^sub>m dh_abs (q_delayHeap q'))"

lemma keeps_refl [simp]: "keeps_waiting q q"
  by (simp add: keeps_waiting_def)

lemma keeps_trans: "keeps_waiting q q' \<Longrightarrow> keeps_waiting q' q'' \<Longrightarrow> keeps_waiting q q''"
  unfolding keeps_waiting_def by (blast intro: map_le_trans)

lemma keeps_heap: "q_delayHeap q' = q_delayHeap q \<Longrightarrow> keeps_waiting q q'"
  by (simp add: keeps_waiting_def)

lemma keeps_push: "keeps_waiting q (push_delayed d q)"
proof -
  have "dh_abs (q_delayHeap q) \<subseteq>\<^sub>m dh_abs (q_delayHeap (push_delayed d q))" if "dh_inv d_Id (q_delayHeap q)"
    using that by (auto simp: push_delayed_def dq.push_abs map_le_def)
  then show ?thesis by (simp add: keeps_waiting_def push_delayed_def dq.push_inv)
qed

lemma keeps_push_update: "q_delayHeap q' = q_delayHeap q \<Longrightarrow> keeps_waiting q (push_delayed d q')"
  using keeps_trans [OF keeps_heap keeps_push] .

lemma keeps_enqueue_one: "keeps_waiting q (enqueue_one ctx d q)"
proof (cases "d_BlockedBy d = []")
  case True
  have "q_delayHeap (enqueue_one ctx d q) = q_delayHeap (push_delayed d q)"
    using True by (simp add: enqueue_one_def enqueue_free_def Let_def)
  then show ?thesis using keeps_trans [OF keeps_push keeps_heap] by metis
next
  case False
  then show ?thesis by (intro keeps_heap) (simp add: enqueue_one_def enqueue_blocked_def Let_def)
qed

lemma keeps_Enqueue: "keeps_waiting q (snd (Enqueue ctx ds q))"
  unfolding Enqueue_fold
proof (induction ds arbitrary: q)
  case (Cons d ds)
  show ?case using keeps_trans [OF keeps_enqueue_one Cons.IH, of q ctx d] by simp
qed simp

lemma keeps_unblock_one: "keeps_waiting q (snd (snd (unblock_one i j q)))"
  by (auto simp: unblock_one_def Let_def intro: keeps_heap keeps_push_update split: option.split)

lemma keeps_unblock_all: "keeps_waiting q (snd (snd (unblock_all i js q)))"
proof (induction js arbitrary: q)
  case (Cons j js)
  obtain e sig q1 where u: "unblock_one i j q = (e, sig, q1)" by (metis prod_cases3)
  have "keeps_waiting q q1" using keeps_unblock_one [of q i j] u by simp
  then show ?case
    using Cons.IH [of q1] by (auto simp: u intro: keeps_trans split: option.split prod.split)
qed simp

lemma keeps_Ack: "keeps_waiting q (snd (snd (Ack i q)))"
  by (auto simp: Ack_def Let_def intro: keeps_heap keeps_trans [OF keeps_heap keeps_unblock_all] split: option.split)

section \<open>Duties are launched on time\<close>

text \<open>The duty the goroutine has in hand, from the look to the end of the wait.\<close>

fun in_hand :: "loop_phase \<Rightarrow> (Duty \<times> gotime) option" where
  "in_hand (Arming (Some d) t) = Some (d, t)"
| "in_hand (Waiting (Some d) t) = Some (d, t)"
| "in_hand p = None"

definition handed_on :: "'c DutyQueue \<Rightarrow> Duty set" where
  "handed_on q = set (q_ready q) \<union> ran (q_unack q)"

definition loop_inv :: "'c loop \<Rightarrow> bool" where
  "loop_inv l \<longleftrightarrow> reach (\<lambda>_. True) (lp_sys l) \<and>
     (\<forall>d t. in_hand (lp_phase l) = Some (d, t) \<longrightarrow> dh_abs (q_delayHeap (lp_q l)) (d_Id d) = Some (d, t)) \<and>
     (\<forall>d \<in> handed_on (lp_q l). due (lp_now l) d)"

lemma in_hand_notify: "in_hand (notify sent p) = Some x \<Longrightarrow> in_hand p = Some x"
  by (cases "(sent, p)" rule: notify.cases) auto

lemma timer_in_hand: "timer_due now p = Some d \<Longrightarrow> \<exists>t. in_hand p = Some (d, t) \<and> \<not> IsZero t \<and> t \<le> now"
  by (cases "(now, p)" rule: timer_due.cases) (auto split: if_splits)

lemma handed_Enqueue: "handed_on (snd (Enqueue ctx ds q)) = handed_on q"
  unfolding Enqueue_fold
proof (induction ds arbitrary: q)
  case (Cons d ds)
  have "handed_on (enqueue_one ctx d q) = handed_on q"
    by (simp add: handed_on_def enqueue_one_def enqueue_free_def enqueue_blocked_def Let_def)
  then show ?case using Cons.IH by simp
qed simp

lemma handed_unblock_all: "handed_on (snd (snd (unblock_all i js q))) = handed_on q"
proof (induction js arbitrary: q)
  case (Cons j js)
  obtain e sig q1 where u: "unblock_one i j q = (e, sig, q1)" by (metis prod_cases3)
  have "handed_on q1 = handed_on q"
    using u by (auto simp: unblock_one_def handed_on_def Let_def split: option.splits if_splits)
  then show ?case using Cons.IH [of q1] by (auto simp: u split: option.split prod.split)
qed simp

lemma handed_Ack: "handed_on (snd (snd (Ack i q))) \<subseteq> handed_on q"
proof (cases "q_unack q i")
  case (Some d)
  have "ran ((q_unack q)(i := None)) \<subseteq> ran (q_unack q)" by (auto simp: ran_def)
  then have "handed_on (ack_base i q) \<subseteq> handed_on q" by (auto simp: ack_base_def handed_on_def)
  then show ?thesis by (simp add: Ack_unfold [OF Some] handed_unblock_all split: option.split)
qed (simp add: Ack_unknown)

lemma handed_dequeue:
  assumes "queue_inv q" "Dequeue q = (Some r, q')"
  shows "handed_on q' \<subseteq> handed_on q" "q_delayHeap q' = q_delayHeap q"
proof -
  obtain d ctx where d: "q_ready q = d # q_ready q'" "q_unack q' = (q_unack q)(d_Id d \<mapsto> d)" "q_delayHeap q' = q_delayHeap q"
    using queue_inv_Dequeue(3) [OF assms] by blast
  then show "handed_on q' \<subseteq> handed_on q" "q_delayHeap q' = q_delayHeap q"
    by (auto simp: handed_on_def ran_def split: if_splits)
qed

lemma loop_invD:
  assumes "loop_inv l"
  shows "reach (\<lambda>_. True) (lp_sys l)" "in_hand (lp_phase l) = Some (d, t) \<Longrightarrow> dh_abs (q_delayHeap (lp_q l)) (d_Id d) = Some (d, t)"
    "e \<in> handed_on (lp_q l) \<Longrightarrow> due (lp_now l) e" "queue_inv (lp_q l)"
  using assms sys_invD(1) [OF reach_inv, of "\<lambda>_. True" "lp_sys l"] unfolding loop_inv_def by blast+

lemma keepsD: "keeps_waiting q q' \<Longrightarrow> queue_inv q \<Longrightarrow> dh_abs (q_delayHeap q) i = Some p \<Longrightarrow> dh_abs (q_delayHeap q') i = Some p"
  unfolding keeps_waiting_def using queue_inv_heap by (metis domI map_le_def)

lemma loop_inv_signal:
  assumes inv: "loop_inv l" and step: "reach (\<lambda>_. True) s" "keeps_waiting (lp_q l) (sys_q s)" "handed_on (sys_q s) \<subseteq> handed_on (lp_q l)"
  shows "loop_inv (l\<lparr>lp_sys := s, lp_phase := notify sent (lp_phase l)\<rparr>)"
  using step loop_invD(2,3) [OF inv] keepsD [OF step(2) loop_invD(4) [OF inv]]
  by (auto simp: loop_inv_def dest!: in_hand_notify)

lemma loop_inv_enqueue:
  assumes "loop_inv l" "distinct (map d_Id ds)" "log_ids ds \<inter> log_ids (sys_log (lp_sys l)) = {}"
  shows "loop_inv (loop_enqueue ctx ds l)"
  unfolding loop_enqueue_def
proof (rule loop_inv_signal [OF assms(1)])
  show "reach (\<lambda>_. True) (enqueue_sys ctx ds (lp_sys l))" by (rule reach_enqueue [OF loop_invD(1) [OF assms(1)] TrueI assms(2,3)])
qed (simp_all add: enqueue_sys_def keeps_Enqueue handed_Enqueue)

lemma loop_inv_ack: "loop_inv l \<Longrightarrow> loop_inv (loop_ack i l)"
  unfolding loop_ack_def
proof (rule loop_inv_signal)
  assume inv: "loop_inv l"
  show "reach (\<lambda>_. True) (ack_sys i (lp_sys l))"
    by (cases "q_unack (lp_q l) i") (auto intro: reach_ack_unknown reach_drain drain_ack loop_invD(1) [OF inv])
qed (simp_all add: ack_sys_def keeps_Ack handed_Ack)

lemma loop_inv_quiet:
  assumes inv: "loop_inv l" and step: "quiet l l'"
  shows "loop_inv l'"
  using step
proof cases
  case quiet_look
  from loop_invD(4) [OF inv] show ?thesis
  proof (rule look_cases)
  qed (use inv in \<open>auto simp: quiet_look(1) loop_inv_def\<close>)
next
  case (quiet_wait d t)
  then show ?thesis using inv by (cases d) (auto simp: loop_inv_def)
next
  case (quiet_fire d)
  obtain t where t: "in_hand (lp_phase l) = Some (d, t)" "\<not> IsZero t" "t \<le> lp_now l" using timer_in_hand [OF quiet_fire(2)] by blast
  note w = loop_invD(2) [OF inv t(1)]
  have "reach (\<lambda>_. True) ((lp_sys l)\<lparr>sys_q := fire_delayed d (lp_q l)\<rparr>)"
    by (rule reach_drain [OF loop_invD(1) [OF inv] drain_fire [OF w]])
  moreover have "due (lp_now l) d" using t queue_inv_entry [OF loop_invD(4) [OF inv] w] by (simp add: due_def)
  ultimately show ?thesis
    using loop_invD(3) [OF inv] by (auto simp: quiet_fire(1) loop_inv_def handed_on_def)
next
  case (quiet_close d t)
  then show ?thesis using inv by (simp add: loop_inv_def)
next
  case (quiet_tick now)
  then show ?thesis using inv by (auto simp: loop_inv_def due_def)
next
  case (quiet_dequeue r q')
  note h = handed_dequeue [OF loop_invD(4) [OF inv] quiet_dequeue(2)]
  have "reach (\<lambda>_. True) ((lp_sys l)\<lparr>sys_q := q'\<rparr>)"
    by (rule reach_drain [OF loop_invD(1) [OF inv] drain_dequeue [OF quiet_dequeue(2)]])
  then show ?thesis using inv h by (auto simp: quiet_dequeue(1) loop_inv_def)
next
  case (quiet_ack i)
  then show ?thesis using loop_inv_ack [OF inv] by simp
qed

lemma loop_run_inv: "loop_run l \<Longrightarrow> loop_inv l"
proof (induction rule: loop_run.induct)
  case (run_start now)
  show ?case by (simp add: loop_inv_def reach_init) (simp add: init_sys_def handed_on_def NewEvalQueue_def)
next
  case (run_quiet l l')
  show ?case by (rule loop_inv_quiet [OF run_quiet.IH run_quiet.hyps(2)])
next
  case (run_enqueue l ds ctx)
  show ?case by (rule loop_inv_enqueue [OF run_enqueue.IH run_enqueue.hyps(2,3)])
next
  case (run_ack l i)
  show ?case by (rule loop_inv_ack [OF run_ack.IH])
qed


section \<open>A notification that is lost\<close>

lemma enqueued_waits:
  assumes "queue_inv q" "distinct (map d_Id ds)" "log_ids ds \<inter> queue_ids q = {}" "d \<in> set ds" "d_BlockedBy d = []"
  shows "dh_abs (q_delayHeap (snd (Enqueue ctx ds q))) (d_Id d) = Some (d, duty_time d)"
  using assms
  unfolding Enqueue_fold
proof (induction ds arbitrary: q)
  case (Cons e ds)
  have fresh: "d_Id e \<notin> queue_ids q" using Cons.prems(3) by simp
  note one = queue_inv_enqueue_one [OF Cons.prems(1) fresh, of ctx]
  show ?case
  proof (cases "e = d")
    case True
    have "d_Id d \<notin> waiting_ids q" using fresh True by (simp add: queue_ids_def)
    then have "dh_abs (q_delayHeap (enqueue_one ctx d q)) (d_Id d) = Some (d, duty_time d)"
      using push_delayed_heap(2) [OF queue_inv_heap [OF Cons.prems(1)], of d] Cons.prems(5)
      by (simp add: enqueue_one_def enqueue_free_def Let_def)
    then show ?thesis
      using keepsD [OF keeps_Enqueue [of _ ctx ds] one(1), of "d_Id d" "(d, duty_time d)"] True by (simp add: Enqueue_fold)
  next
    case False
    then show ?thesis using Cons.IH [OF one(1)] Cons.prems one(2) by auto
  qed
qed simp

lemma notify_quiet: "notify False p = p"
  by (cases p) simp_all

lemma missed_quiet:
  assumes "loop_inv l" "quiet l l'"
    and "lp_phase l \<in> {Arming None t, Waiting None t, Closed}" "dh_abs (q_delayHeap (lp_q l)) i = Some p"
  shows "lp_phase l' \<in> {Arming None t, Waiting None t, Closed} \<and> dh_abs (q_delayHeap (lp_q l')) i = Some p"
  using assms(2)
proof cases
  case (quiet_dequeue r q')
  then show ?thesis using assms(3,4) handed_dequeue(2) [OF loop_invD(4) [OF assms(1)] quiet_dequeue(2)] by simp
next
  case (quiet_ack j)
  then show ?thesis
    using assms(3) keepsD [OF keeps_Ack loop_invD(4) [OF assms(1)] assms(4), of j] notify_quiet
    by (simp add: loop_ack_def ack_sys_def)
qed (use assms(3,4) in auto)

text \<open>
  C23: when the goroutine has looked at an empty heap but does not wait yet, the notification of an
  Enqueue is lost: the duties stay in the heap however far the clock runs and whatever is dequeued and
  acknowledged, until another notification is sent.
\<close>

theorem lost_notification:
  assumes "loop_run l" "lp_phase l = Arming None t" "distinct (map d_Id ds)" "log_ids ds \<inter> log_ids (sys_log (lp_sys l)) = {}"
    and "d \<in> set ds" "d_BlockedBy d = []" "quiet\<^sup>*\<^sup>* (loop_enqueue ctx ds l) l'"
  shows "dh_abs (q_delayHeap (lp_q l')) (d_Id d) = Some (d, duty_time d) \<and> timer_due (lp_now l') (lp_phase l') = None"
proof -
  note inv = loop_run_inv [OF assms(1)]
  have "log_ids ds \<inter> queue_ids (lp_q l) = {}"
    using assms(4) sys_invD(4) [OF reach_inv [OF loop_invD(1) [OF inv]]] by auto
  note start = enqueued_waits [OF loop_invD(4) [OF inv] assms(3) this assms(5,6), of ctx]
  have "loop_run (loop_enqueue ctx ds l)" by (rule run_enqueue [OF assms(1,3,4)])
  have "loop_inv l' \<and> lp_phase l' \<in> {Arming None t, Waiting None t, Closed} \<and>
      dh_abs (q_delayHeap (lp_q l')) (d_Id d) = Some (d, duty_time d)"
    using assms(7)
  proof (induction rule: rtranclp_induct)
    case base
    show ?case using loop_inv_enqueue [OF inv assms(3,4)] start assms(2) by (simp add: loop_enqueue_def enqueue_sys_def)
  next
    case (step u v)
    then show ?case using loop_inv_quiet missed_quiet by blast
  qed
  then show ?thesis by auto
qed

abbreviation demo_loop :: "unit qsys \<Rightarrow> loop_phase \<Rightarrow> unit loop" where
  "demo_loop s p \<equiv> \<lparr>lp_sys = s, lp_phase = p, lp_now = 0\<rparr>"

lemma demo_looked: "loop_run (demo_loop init_sys (Arming None zero_time))"
proof -
  have "look (sys_q (init_sys :: unit qsys)) = Arming None zero_time"
    by (simp add: look_def nextDelayedEval_def init_sys_def NewEvalQueue_def NewDelayHeap_def dh_Length_def)
  then show ?thesis
    using run_quiet [OF run_start quiet_look [of "demo_loop init_sys Looking"]] by simp
qed

theorem lost_notification_witness:
  "\<exists>l :: unit loop. loop_run l \<and> lp_now l = 1000 \<and> timer_due (lp_now l) (lp_phase l) = None \<and>
     dh_abs (q_delayHeap (lp_q l)) ''a'' = Some (demo_duty ''a'' [], 0)"
proof -
  let ?l = "demo_loop init_sys (Arming None zero_time)"
  let ?m = "loop_enqueue () demo_batch ?l"
  have e: "loop_run ?m"
    by (rule run_enqueue [OF demo_looked]) (simp_all add: demo_batch_def init_sys_def)
  have "quiet ?m (?m\<lparr>lp_now := 1000\<rparr>)" by (rule quiet_tick) (simp add: loop_enqueue_def)
  then have q: "quiet\<^sup>*\<^sup>* ?m (?m\<lparr>lp_now := 1000\<rparr>)" "loop_run (?m\<lparr>lp_now := 1000\<rparr>)"
    using run_quiet [OF e] by blast+
  have batch: "lp_phase ?l = Arming None zero_time" "distinct (map d_Id demo_batch)"
    "log_ids demo_batch \<inter> log_ids (sys_log (lp_sys ?l)) = {}" "demo_duty ''a'' [] \<in> set demo_batch" "d_BlockedBy (demo_duty ''a'' []) = []"
    by (simp_all add: demo_batch_def init_sys_def)
  show ?thesis
    using lost_notification [OF demo_looked batch q(1)] q(2) demo0_waiting(2)
    by (intro exI [of _ "?m\<lparr>lp_now := 1000\<rparr>"]) simp
qed


end
