(* ===== verification/Restart.thy ===== *)
theory Restart
  imports QueueLoop PlanRuns
begin

text \<open>
  The scheduler, the queue and the clock together: no duty is performed twice, also when the program
  is started again and plans the epoch anew.  A duty is handed out only when its time has come, a plan
  holds only duties whose time is still to come, and the time of a duty follows from its kind and slot.
\<close>

section \<open>The time of a duty\<close>

definition duty_start :: "Spec \<Rightarrow> gotime \<Rightarrow> DutyType \<Rightarrow> uint64 \<Rightarrow> gotime" where
  "duty_start cfg genesis t slot =
     (if t = DutyBlockProposal then atSlot cfg genesis slot
      else time_Add (atSlot cfg genesis slot)
        (if t = DutyAttestation then attestationDelay cfg
         else if t = DutyAttestationAggregate then attestationAggregationDelay cfg
         else if t = DutySyncCommittee then syncCommitteeDelay cfg
         else syncCommitteeAggregationDelay cfg))"

lemma wanted_cases:
  assumes "e \<in> set (wanted s eval)"
  obtains (proposal) p where "e = proposalDuty s eval p []"
  | (attestation) a where "e = attestationDuty s eval a []"
  | (aggregation) a pr where "e = (aggregationDuty s eval a pr [] [])\<lparr>d_BlockedBy := []\<rparr>"
  | (committee) c slot where "e = committeeDuty s eval c slot []"
  | (sync_aggregate) c slot index pr where "e = syncAggregateDuty s eval c slot index pr []"
proof -
  consider p where "e = proposalDuty s eval p []"
    | a where "e \<in> set (wantedAttestation s eval a)" | c slot where "e \<in> set (wantedSyncSlot s eval c slot)"
    using assms by (auto simp: wanted_def)
  then show thesis
  proof cases
    case (2 a)
    then show thesis using attestation aggregation by (auto simp: wantedAttestation_def split: outcome.splits bool.splits)
  next
    case (3 c slot)
    then consider "e = committeeDuty s eval c slot []" | index where "e \<in> set (wantedSyncAggregate s eval c slot index)"
      by (auto simp: wantedSyncSlot_def split: outcome.splits)
    then show thesis
    proof cases
      case (2 index)
      then show thesis using sync_aggregate by (auto simp: wantedSyncAggregate_def split: outcome.splits bool.splits)
    qed (rule committee)
  qed (rule proposal)
qed

lemmas duty_makers = proposalDuty_def attestationDuty_def aggregationDuty_def committeeDuty_def syncAggregateDuty_def

lemma wanted_start:
  assumes "e \<in> set (wanted s eval)"
  shows "\<exists>t. Duty_Type e = Ok t \<and> duty_time e = duty_start (sc_config s) (ev_GenesisTime eval) t (d_Slot e)"
  using assms
  by (cases rule: wanted_cases) (simp_all add: duty_makers duty_time_def duty_start_def Duty_Type_def duty_type_defs AsTime_def)

lemma planned_start:
  assumes "Process s eval = Ok plan" "d \<in> set (p_Duties plan)"
  shows "sc_now s < duty_time d \<and> (\<exists>t. Duty_Type d = Ok t \<and> duty_time d = duty_start (sc_config s) (ev_GenesisTime eval) t (d_Slot d))"
proof -
  obtain e where e: "e \<in> set (wanted s eval)" "anon d = finishDuty (sc_config s) eval e" "After (AsTime (d_ActiveTime e)) (sc_now s)"
    using Process_member [OF assms] by blast
  have same: "d_Job d = d_Job e" "d_Slot d = d_Slot e" "duty_time d = duty_time e"
    using e(2) anon_fields [of d] anon_frame(1) [of d] by (simp_all add: finishDuty_def duty_time_def)
  then have "Duty_Type d = Duty_Type e" by (simp add: Duty_Type_def)
  then show ?thesis using wanted_start [OF e(1)] e(3) same by (auto simp: After_def duty_time_def)
qed

section \<open>What has been handed out\<close>

definition handed_out :: "'c loop \<Rightarrow> Duty \<Rightarrow> bool" where
  "handed_out l d \<longleftrightarrow> d \<in> set (sys_log (lp_sys l)) \<and> (d_Id d \<in> sys_acked (lp_sys l) \<or> d \<in> handed_on (lp_q l))"

definition acked_due :: "'c loop \<Rightarrow> bool" where
  "acked_due l \<longleftrightarrow> (\<forall>d \<in> set (sys_log (lp_sys l)). d_Id d \<in> sys_acked (lp_sys l) \<longrightarrow> due (lp_now l) d)"

lemma acked_due_ack:
  assumes inv: "loop_inv l" and due: "acked_due l"
  shows "acked_due (loop_ack i l)"
proof (cases "q_unack (lp_q l) i")
  case None
  then show ?thesis using due by (simp add: acked_due_def loop_ack_def ack_sys_def)
next
  case (Some e)
  note sys = sys_invD [OF reach_inv [OF loop_invD(1) [OF inv]]]
  have "held (lp_q l) e" using Some by (auto simp: held_def launched_def)
  then have log: "e \<in> set (sys_log (lp_sys l))" by (rule reach_held [OF loop_invD(1) [OF inv]])
  have key: "d_Id e = i" using sys(1) Some unfolding queue_inv_def queue_wf_def by blast
  have "e \<in> handed_on (lp_q l)" using Some by (auto simp: handed_on_def ran_def)
  then have "due (lp_now l) e" by (rule loop_invD(3) [OF inv])
  moreover have "d = e" if "d \<in> set (sys_log (lp_sys l))" "d_Id d = i" for d
    using that log key sys(5) by (auto simp: distinct_map dest: inj_onD)
  ultimately show ?thesis using due by (auto simp: acked_due_def loop_ack_def ack_sys_def Some)
qed

lemma loop_acked_due: "loop_run l \<Longrightarrow> acked_due l"
proof (induction rule: loop_run.induct)
  case (run_start now)
  show ?case by (simp add: acked_due_def init_sys_def)
next
  case (run_quiet l l')
  note inv = loop_run_inv [OF run_quiet.hyps(1)]
  show ?case using run_quiet.hyps(2)
  proof cases
    case (quiet_ack i)
    then show ?thesis using acked_due_ack [OF inv run_quiet.IH] by simp
  qed (use run_quiet.IH in \<open>auto simp: acked_due_def due_def\<close>)
next
  case (run_enqueue l ds ctx)
  have "sys_acked (lp_sys l) \<subseteq> log_ids (sys_log (lp_sys l))"
    using sys_invD(4) [OF reach_inv [OF loop_invD(1) [OF loop_run_inv [OF run_enqueue.hyps(1)]]]] by blast
  then show ?case
    using run_enqueue.IH run_enqueue.hyps(3) by (auto simp: acked_due_def loop_enqueue_def enqueue_sys_def)
next
  case (run_ack l i)
  show ?case by (rule acked_due_ack [OF loop_run_inv [OF run_ack.hyps(1)] run_ack.IH])
qed

lemma handed_out_due: "loop_run l \<Longrightarrow> handed_out l d \<Longrightarrow> due (lp_now l) d"
  using loop_acked_due loop_invD(3) [OF loop_run_inv] by (auto simp: handed_out_def acked_due_def)


text \<open>
  A proposal that the goroutine has launched at its time, and a plan made then by a new process, to
  which the node gives that proposer and a later one.
\<close>

definition block_eval :: "uint64 list \<Rightarrow> Evaluation" where
  "block_eval slots = \<lparr>ev_Epoch = 0, ev_Attestation = [], ev_Proposer = map (\<lambda>slot. \<lparr>pd_ValidatorIndex = 7, pd_Slot = slot\<rparr>) slots,
     ev_Committee = [], ev_GenesisTime = 0\<rparr>"

definition block_duty :: Duty where
  "block_duty = finishDuty demo_Spec (block_eval [2]) (proposalDuty (demo_Scheduler 0) (block_eval [2]) \<lparr>pd_ValidatorIndex = 7, pd_Slot = 2\<rparr> [])"

lemma block_times: "atSlot demo_Spec 0 2 = 24000000000" "atSlot demo_Spec 0 3 = 36000000000"
  by (simp_all add: atSlot_def demo_Spec_def time_Add_def Second_def)

lemma block_plan: "Process (demo_Scheduler 0) (block_eval [2]) = Ok \<lparr>p_Duties = [block_duty]\<rparr>"
  by (simp add: Process_def allDuties_def block_eval_def addProposal_def nextId_def demo_Scheduler_def cleanDuties_def
      proposalDuty_def After_def AsTime_def block_duty_def block_times)

lemma block_replan:
  "\<exists>e plan. Process (demo_Scheduler 24000000000) (block_eval [2, 3]) = Ok plan \<and> p_Duties plan = [e] \<and> Duty_Type e = Ok DutyBlockProposal"
  by (simp add: Process_def allDuties_def block_eval_def addProposal_def nextId_def demo_Scheduler_def cleanDuties_def
      proposalDuty_def After_def AsTime_def block_times finishDuty_def Duty_Type_def)

lemma block_duty_simps [simp]:
  "d_Id block_duty = []" "d_BlockedBy block_duty = []" "duty_time block_duty = 24000000000" "Duty_Type block_duty = Ok DutyBlockProposal"
  "d_Slot block_duty = 2"
  by (simp_all add: block_duty_def finishDuty_def proposalDuty_def proto_NewDuty_def duty_time_def AsTime_def demo_Scheduler_def
      block_eval_def block_times Duty_Type_def)

abbreviation block_loop :: "unit qsys \<Rightarrow> loop_phase \<Rightarrow> unit loop" where
  "block_loop s p \<equiv> \<lparr>lp_sys = s, lp_phase = p, lp_now = 24000000000\<rparr>"

lemma block_handed_out: "\<exists>l :: unit loop. loop_run l \<and> lp_now l = 24000000000 \<and> handed_out l block_duty"
proof -
  let ?s = "enqueue_sys () [block_duty] init_sys :: unit qsys"
  have empty: "look (sys_q (init_sys :: unit qsys)) = Arming None zero_time"
    by (simp add: look_def nextDelayedEval_def init_sys_def NewEvalQueue_def NewDelayHeap_def dh_Length_def)
  have "loop_run (block_loop init_sys (Arming None zero_time))"
    using run_quiet [OF run_start quiet_look [of "block_loop init_sys Looking"]] by (simp add: empty)
  then have "loop_run (block_loop init_sys (Waiting None zero_time))"
    using run_quiet [OF _ quiet_wait, of "block_loop init_sys (Arming None zero_time)"] by simp
  then have "loop_run (loop_enqueue () [block_duty] (block_loop init_sys (Waiting None zero_time)))"
    by (rule run_enqueue) (simp_all add: init_sys_def)
  then have s: "loop_run (block_loop ?s Looking)"
    by (simp add: loop_enqueue_def) (simp add: Enqueue_def init_sys_def)
  have inv: "queue_inv (sys_q ?s)" using loop_invD(4) [OF loop_run_inv [OF s]] by simp
  have heap: "dh_abs (q_delayHeap (sys_q ?s)) = [[] \<mapsto> (block_duty, 24000000000)]"
    using push_delayed_heap(2) [of "NewEvalQueue :: unit DutyQueue" block_duty]
    by (simp add: enqueue_sys_def init_sys_def Enqueue_def enqueue_one_def enqueue_free_def Let_def new_queue_heap waiting_ids_def)
  have "look (sys_q ?s) = Arming (Some block_duty) 24000000000"
    using inv by (rule look_cases) (auto simp: heap split: if_splits)
  then have "loop_run (block_loop ?s (Arming (Some block_duty) 24000000000))"
    using run_quiet [OF s quiet_look] by simp
  then have "loop_run (block_loop ?s (Waiting (Some block_duty) 24000000000))"
    using run_quiet [OF _ quiet_wait, of "block_loop ?s (Arming (Some block_duty) 24000000000)"] by simp
  then have l: "loop_run (block_loop (?s\<lparr>sys_q := fire_delayed block_duty (sys_q ?s)\<rparr>) Looking)"
    using run_quiet [OF _ quiet_fire, of "block_loop ?s (Waiting (Some block_duty) 24000000000)" block_duty]
    by (simp add: IsZero_def zero_time_def)
  show ?thesis
    by (rule exI [of _ "block_loop (?s\<lparr>sys_q := fire_delayed block_duty (sys_q ?s)\<rparr>) Looking"])
      (use l in \<open>simp add: handed_out_def handed_on_def enqueue_sys_def init_sys_def\<close>)
qed


end
