(* ===== verification/StateSlashing.thy ===== *)
theory StateSlashing
  imports StateProps
begin

text \<open>
  The slashing checks \<open>SlashBlockCheck\<close> and \<open>SlashAttestCheck\<close> of \<open>internal/server/state/state.go\<close>,
  in every running state: what they compare with when the validator has records, and what happens
  when it has none.
\<close>

section \<open>Blocks\<close>

text \<open>\<open>proposed rows s v d\<close>: the memory holds the result \<open>d\<close> of a proposal of validator \<open>v\<close>.\<close>

definition proposed :: "('m \<Rightarrow> string \<Rightarrow> raw set) \<Rightarrow> ('m, 'b) State \<Rightarrow> uint64 \<Rightarrow> Duty \<Rightarrow> bool" where
  "proposed rows s v d \<longleftrightarrow> DutyObj d \<in> rows (s_memdb s) dutiesTable \<and> proposal_done d \<and> d_ValidatorIndex d = v"

lemma block_key_simps:
  "be64 v \<le> block_key w slot \<longleftrightarrow> v \<le> w" "block_key w slot < be64 v \<longleftrightarrow> w < v"
  "block_key v slot \<le> block_key w slot' \<longleftrightarrow> v < w \<or> (v = w \<and> slot \<le> slot')"
proof -
  show less: "block_key w slot < be64 v \<longleftrightarrow> w < v"
    using append_less [of "be64 w" "be64 v" "be64 slot" "[]"] by (simp add: block_key_def be64_less)
  then show "be64 v \<le> block_key w slot \<longleftrightarrow> v \<le> w" by (metis not_less)
  have "block_key w slot' < block_key v slot \<longleftrightarrow> w < v \<or> (w = v \<and> slot' < slot)"
    by (simp add: block_key_def append_less be64_less be64_inj)
  then show "block_key v slot \<le> block_key w slot' \<longleftrightarrow> v < w \<or> (v = w \<and> slot \<le> slot')"
    by (metis linorder_not_less not_less_iff_gr_or_eq)
qed

lemma lowest_proposal:
  assumes run: "running lib rows contents s"
  shows "\<exists>r. lowestSignedProposalFn lib s v = Ok \<lparr>bsp_duty = r\<rparr> \<and>
    (case r of
       None \<Rightarrow> \<forall>w d. proposed rows s w d \<longrightarrow> w < v
     | Some d \<Rightarrow> proposed rows s (d_ValidatorIndex d) d \<and> v \<le> d_ValidatorIndex d \<and>
         (\<forall>w e. proposed rows s w e \<and> v \<le> w \<longrightarrow>
            d_ValidatorIndex d < w \<or> (d_ValidatorIndex d = w \<and> d_Slot d \<le> d_Slot e)))"
proof -
  let ?R = "rows (s_memdb s) dutiesTable" and ?K = "index_keys (lib_Fields lib) dutiesTable ''block_proposer''"
  have args: "ix_PrefixFromArgs (is_Indexer \<lparr>is_Unique = False, is_AllowMissing = True, is_Indexer = slashingBlockIndex\<rparr>) =
      Some slashingBlock_PrefixFromArgs" "slashingBlock_PrefixFromArgs [ArgUint64 v] = Ok (be64 v)"
    by (simp_all add: slashingBlockIndex_def slashingBlock_PrefixFromArgs_def)
  obtain os where os: "mem_LowerBound lib (s_memdb s) dutiesTable ''block_proposer_prefix'' [ArgUint64 v] = Ok os"
      "case os of [] \<Rightarrow> \<forall>obj \<in> ?R. \<forall>k \<in> ?K obj. k < be64 v
       | obj # _ \<Rightarrow> obj \<in> ?R \<and> (\<exists>k \<in> ?K obj. be64 v \<le> k \<and> (\<forall>obj' \<in> ?R. \<forall>k' \<in> ?K obj'. be64 v \<le> k' \<longrightarrow> k \<le> k'))"
    using prefix_lawD [OF running_laws(4) [OF run] index_of_simps(2) args, of "s_memdb s"] by auto
  have K: "?K (DutyObj d) = (if proposal_done d then {block_key (d_ValidatorIndex d) (d_Slot d)} else {})" for d
    by (rule block_keys)
  show ?thesis
  proof (cases os)
    case Nil
    have "w < v" if "proposed rows s w d" for w d
      using that os(2) K [of d] by (auto simp: Nil proposed_def block_key_simps)
    then show ?thesis by (auto simp: lowestSignedProposalFn_def os(1) Nil)
  next
    case (Cons obj rest)
    then have obj: "obj \<in> ?R" "\<exists>k \<in> ?K obj. be64 v \<le> k \<and> (\<forall>obj' \<in> ?R. \<forall>k' \<in> ?K obj'. be64 v \<le> k' \<longrightarrow> k \<le> k')"
      using os(2) by simp_all
    obtain d where d: "obj = DutyObj d" using duty_row [OF run obj(1)] by blast
    have done_: "proposal_done d" "v \<le> d_ValidatorIndex d"
      and least: "\<forall>obj' \<in> ?R. \<forall>k' \<in> ?K obj'. be64 v \<le> k' \<longrightarrow> block_key (d_ValidatorIndex d) (d_Slot d) \<le> k'"
      using obj(2) by (auto simp: d K block_key_simps split: if_splits)
    have "d_ValidatorIndex d < w \<or> (d_ValidatorIndex d = w \<and> d_Slot d \<le> d_Slot e)" if "proposed rows s w e" "v \<le> w" for w e
      using bspec [OF least, of "DutyObj e"] that by (auto simp: K proposed_def block_key_simps)
    then show ?thesis
      using obj(1) done_ by (auto simp: lowestSignedProposalFn_def os(1) Cons d proposed_def)
  qed
qed

lemma proposal_at_slot:
  assumes run: "running lib rows contents s"
  shows "\<exists>r. proposalAtSlotFn lib s v slot = Ok \<lparr>bsp_duty = r\<rparr> \<and>
    (case r of None \<Rightarrow> \<forall>d. proposed rows s v d \<longrightarrow> d_Slot d \<noteq> slot | Some d \<Rightarrow> proposed rows s v d \<and> d_Slot d = slot)"
proof -
  let ?R = "rows (s_memdb s) dutiesTable" and ?K = "index_keys (lib_Fields lib) dutiesTable ''block_proposer''"
  have args: "ix_FromArgs (is_Indexer \<lparr>is_Unique = False, is_AllowMissing = True, is_Indexer = slashingBlockIndex\<rparr>)
      [ArgUint64 v, ArgUint64 slot] = Ok (block_key v slot)"
    by (simp add: slashingBlockIndex_def slashingBlock_FromArgs_def block_key_def)
  obtain r where r: "mem_First lib (s_memdb s) dutiesTable ''block_proposer'' [ArgUint64 v, ArgUint64 slot] = Ok r"
      "case r of None \<Rightarrow> \<forall>obj \<in> ?R. block_key v slot \<notin> ?K obj | Some obj \<Rightarrow> obj \<in> ?R \<and> block_key v slot \<in> ?K obj"
    using query_lawD(1) [OF running_laws(3) [OF run] index_of_simps(2) args] by blast
  have K: "block_key v slot \<in> ?K (DutyObj d) \<longleftrightarrow> proposal_done d \<and> d_ValidatorIndex d = v \<and> d_Slot d = slot" for d
    unfolding block_keys by (auto simp: block_key_def be64_inj)
  show ?thesis
  proof (cases r)
    case None
    then have "d_Slot d \<noteq> slot" if "proposed rows s v d" for d
      using that r(2) K [of d] by (auto simp: proposed_def)
    then show ?thesis by (auto simp: proposalAtSlotFn_def r(1) None)
  next
    case (Some obj)
    then obtain d where d: "obj = DutyObj d" using r(2) duty_row [OF run, of obj] by auto
    then show ?thesis using r(2) by (simp add: proposalAtSlotFn_def r(1) Some K proposed_def)
  qed
qed

definition proposal_root :: "Duty \<Rightarrow> bytes option" where
  "proposal_root d = (case d_Result d of None \<Rightarrow> None | Some r \<Rightarrow> map_option bpr_Root (res_BlockProposal r))"

text \<open>
  C19: for a validator with recorded proposals the block check passes only past the least recorded
  slot, and at a slot with a record only if some record of that slot has the root to be signed; past
  the least slot, a slot without a record always passes.
\<close>

theorem SlashBlockCheck_own:
  assumes run: "running lib rows contents s" and own: "proposed rows s v d0"
  shows "\<exists>low. proposed rows s v low \<and> (\<forall>d. proposed rows s v d \<longrightarrow> d_Slot low \<le> d_Slot d) \<and>
    (SlashBlockCheck lib s v slot root = Ok () \<longrightarrow> d_Slot low < slot \<and>
       (\<forall>d. proposed rows s v d \<and> d_Slot d = slot \<longrightarrow>
          (\<exists>e. proposed rows s v e \<and> d_Slot e = slot \<and> proposal_root e = Some root))) \<and>
    (d_Slot low < slot \<and> (\<forall>d. proposed rows s v d \<longrightarrow> d_Slot d \<noteq> slot) \<longrightarrow> SlashBlockCheck lib s v slot root = Ok ())"
proof -
  obtain r where r: "lowestSignedProposalFn lib s v = Ok \<lparr>bsp_duty = r\<rparr>"
    "case r of
       None \<Rightarrow> \<forall>w d. proposed rows s w d \<longrightarrow> w < v
     | Some d \<Rightarrow> proposed rows s (d_ValidatorIndex d) d \<and> v \<le> d_ValidatorIndex d \<and>
         (\<forall>w e. proposed rows s w e \<and> v \<le> w \<longrightarrow>
            d_ValidatorIndex d < w \<or> (d_ValidatorIndex d = w \<and> d_Slot d \<le> d_Slot e))"
    using lowest_proposal [OF run] by blast
  obtain low where low: "r = Some low" using r(2) own by (cases r) auto
  have lowv: "d_ValidatorIndex low = v" using r(2) own low by (auto simp: proposed_def)
  obtain a where a: "proposalAtSlotFn lib s v slot = Ok \<lparr>bsp_duty = a\<rparr>"
    "case a of None \<Rightarrow> \<forall>d. proposed rows s v d \<longrightarrow> d_Slot d \<noteq> slot | Some d \<Rightarrow> proposed rows s v d \<and> d_Slot d = slot"
    using proposal_at_slot [OF run] by blast
  show ?thesis
  proof (rule exI [of _ low], intro conjI impI allI)
    show "proposed rows s v low" using r(2) lowv by (simp add: low)
    show "d_Slot low \<le> d_Slot d" if "proposed rows s v d" for d using r(2) that lowv by (auto simp: low)
  next
    assume "SlashBlockCheck lib s v slot root = Ok ()"
    then show "d_Slot low < slot"
      by (auto simp: SlashBlockCheck_def r(1) a(1) low bsp_Exists_def bsp_Slot_def outcome_simps not_le split: if_splits)
  next
    fix d assume ok: "SlashBlockCheck lib s v slot root = Ok ()" and d: "proposed rows s v d \<and> d_Slot d = slot"
    then obtain e where e: "a = Some e" using a(2) by (cases a) auto
    have "proposal_root e = Some root"
      using ok by (auto simp: SlashBlockCheck_def a(1) e bsp_Exists_def bsp_Equal_def proposal_root_def outcome_simps split: if_splits)
    then show "\<exists>e. proposed rows s v e \<and> d_Slot e = slot \<and> proposal_root e = Some root"
      using a(2) e by auto
  next
    assume late: "d_Slot low < slot \<and> (\<forall>d. proposed rows s v d \<longrightarrow> d_Slot d \<noteq> slot)"
    then have "a = None" using a(2) by (cases a) auto
    then show "SlashBlockCheck lib s v slot root = Ok ()"
      using late by (simp add: SlashBlockCheck_def r(1) a(1) low bsp_Exists_def bsp_Slot_def linorder_not_le)
  qed
qed

text \<open>
  C40: a validator without recorded proposals is checked against those of the validators with higher
  indexes: if all of them are at the slot or later, the block is refused although the validator has
  never signed one.
\<close>

theorem SlashBlockCheck_foreign:
  assumes run: "running lib rows contents s" and none: "\<not> (\<exists>d. proposed rows s v d)"
    and other: "proposed rows s w d0" "v \<le> w" and late: "\<forall>w d. proposed rows s w d \<and> v \<le> w \<longrightarrow> slot \<le> d_Slot d"
  shows "SlashBlockCheck lib s v slot root = Err SlotTooLow"
proof -
  obtain r where r: "lowestSignedProposalFn lib s v = Ok \<lparr>bsp_duty = r\<rparr>"
    "case r of
       None \<Rightarrow> \<forall>w d. proposed rows s w d \<longrightarrow> w < v
     | Some d \<Rightarrow> proposed rows s (d_ValidatorIndex d) d \<and> v \<le> d_ValidatorIndex d \<and>
         (\<forall>w e. proposed rows s w e \<and> v \<le> w \<longrightarrow>
            d_ValidatorIndex d < w \<or> (d_ValidatorIndex d = w \<and> d_Slot d \<le> d_Slot e))"
    using lowest_proposal [OF run] by blast
  obtain low where low: "r = Some low" using r(2) other by (cases r) auto
  then have "slot \<le> d_Slot low" using r(2) late by auto
  moreover obtain a where a: "proposalAtSlotFn lib s v slot = Ok \<lparr>bsp_duty = a\<rparr>"
    "case a of None \<Rightarrow> \<forall>d. proposed rows s v d \<longrightarrow> d_Slot d \<noteq> slot | Some d \<Rightarrow> proposed rows s v d \<and> d_Slot d = slot"
    using proposal_at_slot [OF run] by blast
  moreover have "a = None" using a(2) none by (cases a) auto
  ultimately show ?thesis
    by (simp add: SlashBlockCheck_def r(1) low bsp_Exists_def bsp_Slot_def)
qed

lemma demo_proposed: "proposed ref_rows demo_s1 w d \<longleftrightarrow> w = 7 \<and> d = demo_block 7 5 [9]"
  by (auto simp: proposed_def ref_rows_def demo_s1_def proposal_done_def demo_vote_def demo_block_def Duty_Type_def duty_type_defs)

theorem SlashBlockCheck_own_witness:
  "SlashBlockCheck demo_lib demo_s1 7 6 [1] = Ok () \<and> SlashBlockCheck demo_lib demo_s1 7 5 [1] \<noteq> Ok ()"
proof -
  have "proposed ref_rows demo_s1 7 (demo_block 7 5 [9])" "d_Slot (demo_block 7 5 [9]) = 5"
    by (simp_all add: demo_proposed) (simp add: demo_block_def)
  then show ?thesis
    using SlashBlockCheck_own [OF demo_running(2), of 7 "demo_block 7 5 [9]" 6 "[1]"]
      SlashBlockCheck_own [OF demo_running(2), of 7 "demo_block 7 5 [9]" 5 "[1]"] by (auto simp: demo_proposed)
qed

theorem SlashBlockCheck_foreign_witness: "SlashBlockCheck demo_lib demo_s1 3 4 [1] = Err SlotTooLow"
proof (rule SlashBlockCheck_foreign [OF demo_running(2)])
  show "proposed ref_rows demo_s1 7 (demo_block 7 5 [9])" by (simp add: demo_proposed)
qed (auto simp: demo_proposed demo_block_def)

section \<open>Attestations\<close>

text \<open>\<open>attested rows s v src tgt d\<close>: the memory holds the result \<open>d\<close> of an attestation of validator \<open>v\<close>.\<close>

definition attested :: "('m \<Rightarrow> string \<Rightarrow> raw set) \<Rightarrow> ('m, 'b) State \<Rightarrow> uint64 \<Rightarrow> uint64 \<Rightarrow> uint64 \<Rightarrow> Duty \<Rightarrow> bool" where
  "attested rows s v src tgt d \<longleftrightarrow>
     DutyObj d \<in> rows (s_memdb s) dutiesTable \<and> attestation_done d src tgt \<and> d_ValidatorIndex d = v"

abbreviation kind_prefix :: "uint64 \<Rightarrow> string \<Rightarrow> bytes" where
  "kind_prefix v typ \<equiv> be64 v @ bytes_of_string typ @ [0]"

abbreviation kind_epoch :: "string \<Rightarrow> uint64 \<Rightarrow> uint64 \<Rightarrow> uint64" where
  "kind_epoch typ src tgt \<equiv> (if typ = ''source'' then src else tgt)"

lemma kind_prefix_le: "kind_prefix v typ \<le> attest_key v typ e"
proof -
  have "\<not> (p @ u < p)" for p u :: bytes by (induction p) auto
  from this [of "kind_prefix v typ" "be64 e"] show ?thesis by (simp add: attest_key_def not_less)
qed

text \<open>Between the prefix of a validator and kind and one of its keys there are only keys of that kind.\<close>

lemma kind_between:
  assumes "typ \<in> {''source'', ''target''}" "name \<in> {''source'', ''target''}"
    and lo: "kind_prefix v typ \<le> attest_key w name e" and hi: "attest_key w name e \<le> attest_key v typ e0"
  shows "w = v \<and> name = typ \<and> e \<le> e0"
proof -
  have wv: "w = v"
  proof (rule antisym)
    show "w \<le> v" using hi append_less [of "be64 v" "be64 w"] by (auto simp: attest_key_def be64_less not_less [symmetric])
    show "v \<le> w" using lo append_less [of "be64 w" "be64 v"] by (auto simp: attest_key_def be64_less not_less [symmetric])
  qed
  have tail: "bytes_of_string typ @ [0] \<le> bytes_of_string name @ [0] @ be64 e"
      "bytes_of_string name @ [0] @ be64 e \<le> bytes_of_string typ @ [0] @ be64 e0"
    using lo hi append_less [of "be64 v" "be64 v"] by (auto simp: attest_key_def wv not_less [symmetric])
  have name: "name = typ"
    using tail assms(1,2) by (auto simp: bytes_of_string_def)
  have "be64 e \<le> be64 e0"
    using tail(2) append_less [of "bytes_of_string typ @ [0]" "bytes_of_string typ @ [0]" "be64 e0" "be64 e"]
    by (auto simp: name not_less [symmetric])
  then show ?thesis using wv name be64_less [of e0 e] by (simp add: not_less [symmetric])
qed

lemma lowest_epoch:
  assumes run: "running lib rows contents s" and own: "attested rows s v src0 tgt0 d0"
    and kind: "typ \<in> {''source'', ''target''}"
  shows "\<exists>d src tgt. lowestSignedEpochFn lib s v typ = Ok \<lparr>asp_typ = typ, asp_duty = Some d\<rparr> \<and> attested rows s v src tgt d \<and>
    (\<forall>src' tgt' e. attested rows s v src' tgt' e \<longrightarrow> kind_epoch typ src tgt \<le> kind_epoch typ src' tgt')"
proof -
  let ?R = "rows (s_memdb s) dutiesTable" and ?K = "index_keys (lib_Fields lib) dutiesTable ''attest_proposer''"
  have args: "ix_PrefixFromArgs (is_Indexer \<lparr>is_Unique = False, is_AllowMissing = True, is_Indexer = slashingAttestIndex\<rparr>) =
      Some slashingAttest_PrefixFromArgs" "slashingAttest_PrefixFromArgs [ArgUint64 v, ArgString typ] = Ok (kind_prefix v typ)"
    using kind by (auto simp: slashingAttestIndex_def slashingAttest_PrefixFromArgs_def)
  obtain os where os: "mem_LowerBound lib (s_memdb s) dutiesTable ''attest_proposer_prefix'' [ArgUint64 v, ArgString typ] = Ok os"
      "case os of [] \<Rightarrow> \<forall>obj \<in> ?R. \<forall>k \<in> ?K obj. k < kind_prefix v typ
       | obj # _ \<Rightarrow> obj \<in> ?R \<and> (\<exists>k \<in> ?K obj. kind_prefix v typ \<le> k \<and>
           (\<forall>obj' \<in> ?R. \<forall>k' \<in> ?K obj'. kind_prefix v typ \<le> k' \<longrightarrow> k \<le> k'))"
    using prefix_lawD [OF running_laws(4) [OF run] index_of_simps(3) args, of "s_memdb s"] by auto
  have entry: "attest_key v typ (kind_epoch typ src tgt) \<in> ?K (DutyObj d)" if "attested rows s v src tgt d" for src tgt d
    using that kind by (auto simp: attest_keys attested_def)
  have own_key: "DutyObj d0 \<in> ?R" "attest_key v typ (kind_epoch typ src0 tgt0) \<in> ?K (DutyObj d0)"
    using own entry [OF own] by (simp_all only: attested_def)
  have "os \<noteq> []"
  proof
    assume "os = []"
    then have "attest_key v typ (kind_epoch typ src0 tgt0) < kind_prefix v typ" using os(2) own_key by simp
    then show False using kind_prefix_le leD by blast
  qed
  then obtain obj rest where Cons: "os = obj # rest" by (cases os) auto
  obtain k where obj: "obj \<in> ?R" "k \<in> ?K obj" "kind_prefix v typ \<le> k"
      and least: "\<And>obj' k'. obj' \<in> ?R \<Longrightarrow> k' \<in> ?K obj' \<Longrightarrow> kind_prefix v typ \<le> k' \<Longrightarrow> k \<le> k'"
    using os(2) by (auto simp: Cons)
  obtain d where d: "obj = DutyObj d" using duty_row [OF run obj(1)] by blast
  obtain src tgt name e where ad: "attestation_done d src tgt" "name \<in> {''source'', ''target''}"
      "k = attest_key (d_ValidatorIndex d) name e" "e = kind_epoch name src tgt"
    using obj(2) [unfolded d attest_keys] by force
  have between: "k \<le> attest_key v typ (kind_epoch typ src' tgt')" if "attested rows s v src' tgt' f" for src' tgt' f
    using least [OF _ entry [OF that] kind_prefix_le] that by (simp add: attested_def)
  have vi: "d_ValidatorIndex d = v" and nm: "name = typ"
    using kind_between [OF kind ad(2), of v _ e] obj(3) between [OF own] ad(3) by blast+
  have le: "kind_epoch typ src tgt \<le> kind_epoch typ src' tgt'" if "attested rows s v src' tgt' f" for src' tgt' f
    using kind_between [OF kind ad(2), of v "d_ValidatorIndex d" e "kind_epoch typ src' tgt'"] obj(3) between [OF that] ad(3,4) nm by simp
  have fn: "lowestSignedEpochFn lib s v typ = Ok \<lparr>asp_typ = typ, asp_duty = Some d\<rparr>"
    by (simp add: lowestSignedEpochFn_def os(1) Cons d)
  have "attested rows s v src tgt d" using obj(1) ad(1) vi by (simp add: attested_def d)
  then show ?thesis using fn le by blast
qed


lemma demo_attested: "attested ref_rows demo_s1 w src tgt d \<longleftrightarrow> w = 7 \<and> src = 10 \<and> tgt = 15 \<and> d = demo_vote 7 10 15"
  by (auto simp: attested_def ref_rows_def demo_s1_def attestation_done_def demo_vote_def demo_block_def Duty_Type_def duty_type_defs)


end
