(* ===== verification/Spec2Isabelle.thy ===== *)
theory Spec2Isabelle
  imports Commands Agent Restart StateSlashing
begin

text \<open>
  A model of the validator client of \<open>umbracle/eth2-validator\<close>, and what makes it correct.

  The program registers validators from private keys, asks a beacon node for the duties of each epoch,
  plans them, waits for their time, performs them (it proposes blocks, attests, aggregates and takes part
  in sync committees), stores the results, and answers queries about them.  Its parts and their theories:

  \<^item> Prelude: machine types, Go results (value, error or panic) and their sequencing, generic facts.
    GoTime, GoStrings: the parts of Go's \<open>time\<close>, \<open>encoding/hex\<close>, \<open>encoding/binary\<close>, \<open>strconv\<close> in use.
    GoHeap: \<open>container/heap\<close>, with the locale \<open>heap_container\<close> of what it needs of its element type.
    Grouping: loops that group a list in a map; its locale \<open>keyed_grouping\<close> has an interpretation in Slashing
    (by account) and one in Subscriptions (by validator).
  \<^item> \<open>internal/bitlist\<close>: Bitlist.  \<open>internal/uuid\<close>: Uuid.  \<open>internal/version\<close>: Version.
    \<open>internal/cmd\<close>: Commands; \<open>internal/cmd/server\<close>: Agent.  \<open>internal/routine\<close>: Routine.
  \<^item> \<open>internal/delayheap\<close>: DelayHeap, a heap of nodes by time in an explicit node store, with an index by
    id.  Its contract is the locale \<open>delay_queue\<close> over a map from ids to nodes and times; the heap is an
    interpretation of it, and the duty queue rests on the facts of that interpretation.
  \<^item> \<open>internal/server/proto\<close>: Proto, the messages with their getters and the hand-written helpers.
  \<^item> \<open>internal/beacon\<close>: Beacon, the interface to the node, a record of functions, and its implementations.
  \<^item> \<open>internal/scheduler\<close>: Scheduler (from the assignments of an epoch to a plan of duties) and Duties (one
    handler for each kind of duty; a run is the list of the signature requests and publications it makes,
    and its result).
  \<^item> \<open>internal/server/duty_queue.go\<close>: DutyQueue (the critical sections and the invariant), QueueRuns (their
    interleavings), QueueLoop (the goroutine that launches duties when their time comes).  PlanRuns puts
    the plans of the scheduler into the queue.
  \<^item> \<open>internal/server/state\<close>: StateIndex (the indexes of the memory database and the schema), StateDB (the
    operations), StateLaws (what they rely on), StateRuns (memory and disk mirror each other), StateProps,
    StateQueries and StateSlashing (what the operations promise), RefStore (a small database for which
    the laws hold).  What the server needs of its store is stated in DutyStore, as the locales
    \<open>duty_store\<close> and \<open>server_store\<close>; StateStore interprets them on the operations of the state.
  \<^item> \<open>internal/server\<close>: Server (start, signing, planning, handling, lifecycle), ServerRuns (their
    interleavings over queue and state), Restart (scheduler, queue and clock over several starts of the
    program: no duty is planned twice), ServerProps and ServerStart (signing, lifecycle, starting),
    ServerDemo (a server that runs, for witnesses), Subscriptions and Service (the subscription and gRPC
    services).  \<open>internal/slashing\<close>: Slashing.

  How Go is read.  A struct is a record, a pointer that may be nil an option, an interface a record of
  functions, a Go map a map (an association list where its order or its updates matter, and an extra list
  where the code ranges over it), \<open>uint64\<close> and \<open>int64\<close> are words, and \<open>int64\<close> durations wrap around.  A
  result is \<open>Ok\<close>, \<open>Err\<close> or \<open>Panic\<close>; nil dereferences, divisions by zero, slices out of range and
  calls of \<open>panic\<close> are panics.  A method that changes its receiver takes and returns it.  A goroutine is a
  function for one turn of its loop; the runs (\<open>drain\<close>, \<open>reach\<close>, \<open>loop_run\<close>, \<open>server_run\<close>,
  \<open>state_run\<close>, \<open>routine_run\<close>) interleave the turns, which are the critical sections of the code, in any
  order.  Loops over data are structural; the delay loop is a partial function in the option type, shown
  to return; the heap algorithms carry a measure, so that no fuel is used.

  What is shown, in the order of importance of the manifest.  Queue: each duty is in one place, is handed
  out once its dependencies are done, and every run drains; also the cases where it does not (a second
  dependent, an orphaned aggregation, a lost notification).  Delay heap and bit list: refinement of a map,
  reading back what was written.  Scheduler: a plan is what a comprehension over the assignments asks for,
  at times inside the slot.  Handlers: what is published was signed for that object, and what is stored is
  what was published.  State: atomic upserts, restart, lookups, slashing checks.  Server: an attestation
  is stored before its aggregation starts, keys and domains of signatures, registration and
  lifecycle of validators.  Commands and services: the export, the subscriptions, the routines.

  Outside the repository, and parameters here: the beacon node, the BLS library, the hash and domain
  functions of the consensus library, Bolt, go-memdb, the protobuf codec, the clock and the random source,
  the flag, configuration, column and command line libraries.  What is relied on is stated as
  hypotheses: \<open>memdb_laws\<close>, \<open>bolt_laws\<close>, \<open>codec_laws\<close> for the databases (RefStore shows that they can
  hold), injectivity of generated ids, and \<open>merge_law\<close> for merging configurations.

  Not modelled.  Logging, tracing spans and contexts as values, since they have no effect on the rest;
  the metrics endpoint (\<open>internal/cmd/server/http.go\<close>) and the timer that sends statistics to a sink,
  which only wire libraries (what the set-up of telemetry chooses, its endpoint, resource and sinks, is
  modelled as a value); the transport and reflection code of gRPC and of the generated protobuf file;
  watch channels of go-memdb.  Stored duties are shared by pointer in the program between
  the queue, the memory database and the handlers: here they are values, so that a write to a duty
  before its upsert is seen by the queue and the state only at the upsert.  The planning of an epoch, its
  enqueueing and its upsert are one step of a server run, and the handling of a duty takes effect when it
  completes.
\<close>

end
